(* ===== verification/Prelude.thy ===== *)
theory Prelude
  imports Main "HOL-Library.Sublist" "HOL-Library.Char_ord" "HOL-Library.List_Lexorder"
    "HOL-Library.Product_Lexorder"
begin

text \<open>
  The part of the Go language and of its standard library that every component of the
  gateway uses. A Go string is a sequence of bytes, and so is an Isabelle \<open>string\<close>
  (a \<open>char\<close> is one byte), so \<open>length\<close> and indexing count what Go counts. Modelled here:
  \<open>strings.TrimSpace\<close>, \<open>Cut\<close>, \<open>Split\<close>, \<open>Join\<close>, \<open>ToLower\<close>, \<open>EqualFold\<close> against an ASCII
  word, the de-duplicating split both \<open>ParseScopes\<close> and \<open>splitList\<close> write out, and
  \<open>time.Time\<close> as a count of nanoseconds whose zero is Go's zero time. Byte order on
  strings is the lexicographic order of \<open>List_Lexorder\<close> over \<open>Char_ord\<close>.
\<close>

section \<open>Types and collections shared by the components\<close>

named_theorems go_string \<open>facts about the string functions of Go's standard library\<close>
named_theorems store_frame \<open>what an operation of the store leaves unchanged\<close>
named_theorems store_inv \<open>the operations of the store keep its schema invariant\<close>

type_synonym gotime = int

abbreviation IsZero :: "gotime \<Rightarrow> bool" where
  "IsZero t \<equiv> t = 0"

lemma image_fix: "(\<And>x. x \<in> A \<Longrightarrow> f x = x) \<Longrightarrow> f ` A = A"
  by force

lemma find_SomeD: "find P xs = Some x \<Longrightarrow> x \<in> set xs \<and> P x"
  by (induction xs) (auto split: if_splits)

lemma find_append: "find P (xs @ ys) = (case find P xs of None \<Rightarrow> find P ys | Some x \<Rightarrow> Some x)"
  by (induction xs) auto

lemma find_map_keep:
  assumes "\<And>x. P (f x) = P x"
  shows "find P (map f xs) = map_option f (find P xs)"
  by (induction xs) (auto simp: assms)

lemma all2_left: "list_all2 P xs ys \<Longrightarrow> x \<in> set xs \<Longrightarrow> \<exists>y\<in>set ys. P x y"
  by (induction rule: list_all2_induct) auto

lemma all2_right: "list_all2 P xs ys \<Longrightarrow> y \<in> set ys \<Longrightarrow> \<exists>x\<in>set xs. P x y"
  by (induction rule: list_all2_induct) auto

section \<open>White space\<close>

text \<open>
  \<open>unicode.IsSpace\<close>, as the UTF-8 encodings of the runes it accepts. \<open>strings.TrimSpace\<close>
  decodes one rune at either end and drops it while it is a space; an ill-formed byte
  decodes to U+FFFD, which is no space, so dropping encodings is exactly what it does.
\<close>

definition space_runes :: "string list" where
  "space_runes =
     [[CHR 0x09], [CHR 0x0A], [CHR 0x0B], [CHR 0x0C], [CHR 0x0D], [CHR 0x20],
      [CHR 0xC2, CHR 0x85], [CHR 0xC2, CHR 0xA0], [CHR 0xE1, CHR 0x9A, CHR 0x80],
      [CHR 0xE2, CHR 0x80, CHR 0x80], [CHR 0xE2, CHR 0x80, CHR 0x81],
      [CHR 0xE2, CHR 0x80, CHR 0x82], [CHR 0xE2, CHR 0x80, CHR 0x83],
      [CHR 0xE2, CHR 0x80, CHR 0x84], [CHR 0xE2, CHR 0x80, CHR 0x85],
      [CHR 0xE2, CHR 0x80, CHR 0x86], [CHR 0xE2, CHR 0x80, CHR 0x87],
      [CHR 0xE2, CHR 0x80, CHR 0x88], [CHR 0xE2, CHR 0x80, CHR 0x89],
      [CHR 0xE2, CHR 0x80, CHR 0x8A], [CHR 0xE2, CHR 0x80, CHR 0xA8],
      [CHR 0xE2, CHR 0x80, CHR 0xA9], [CHR 0xE2, CHR 0x80, CHR 0xAF],
      [CHR 0xE2, CHR 0x81, CHR 0x9F], [CHR 0xE3, CHR 0x80, CHR 0x80]]"

fun lead_space :: "string list \<Rightarrow> string \<Rightarrow> nat" where
  "lead_space [] s = 0"
| "lead_space (e # es) s = (if e \<noteq> [] \<and> prefix e s then length e else lead_space es s)"

lemma lead_space_le: "lead_space es s \<le> length s"
  by (induction es) (auto simp: prefix_length_le)

lemma lead_space_0_iff: "lead_space es s = 0 \<longleftrightarrow> (\<forall>e\<in>set es. e = [] \<or> \<not> prefix e s)"
  by (induction es) auto

function strip_spaces :: "string list \<Rightarrow> string \<Rightarrow> string" where
  "strip_spaces es s =
     (if lead_space es s = 0 then s else strip_spaces es (drop (lead_space es s) s))"
  by pat_completeness auto
termination
proof (relation "measure (\<lambda>(es, s). length s)", goal_cases)
  case (2 es s)
  then show ?case using lead_space_le [of es s] by auto
qed auto

declare strip_spaces.simps [simp del]

definition TrimSpace :: "string \<Rightarrow> string" where
  "TrimSpace s =
     rev (strip_spaces (map rev space_runes) (rev (strip_spaces space_runes s)))"

lemma strip_spaces_suffix: "suffix (strip_spaces es s) s"
proof (induction es s rule: strip_spaces.induct)
  case (1 es s)
  then show ?case
    by (subst strip_spaces.simps) (auto intro: suffix_order.trans suffix_drop)
qed

lemma strip_spaces_done: "lead_space es (strip_spaces es s) = 0"
proof (induction es s rule: strip_spaces.induct)
  case (1 es s)
  then show ?case by (subst strip_spaces.simps) simp
qed

lemma strip_spaces_id: "lead_space es s = 0 \<Longrightarrow> strip_spaces es s = s"
  by (subst strip_spaces.simps) simp

lemma lead_space_prefix: "prefix t s \<Longrightarrow> lead_space es s = 0 \<Longrightarrow> lead_space es t = 0"
  unfolding lead_space_0_iff using prefix_order.trans by blast

lemma TrimSpace_prefix_strip: "prefix (TrimSpace s) (strip_spaces space_runes s)"
proof -
  have "suffix (rev (TrimSpace s)) (rev (strip_spaces space_runes s))"
    by (simp add: TrimSpace_def strip_spaces_suffix)
  then show ?thesis by (simp add: suffix_to_prefix)
qed

lemma TrimSpace_lead: "lead_space space_runes (TrimSpace s) = 0"
  using TrimSpace_prefix_strip by (rule lead_space_prefix) (rule strip_spaces_done)

lemma TrimSpace_trail: "lead_space (map rev space_runes) (rev (TrimSpace s)) = 0"
  by (simp add: TrimSpace_def strip_spaces_done)

lemma TrimSpace_id:
  "lead_space space_runes s = 0 \<Longrightarrow> lead_space (map rev space_runes) (rev s) = 0 \<Longrightarrow>
   TrimSpace s = s"
  by (simp add: TrimSpace_def strip_spaces_id)

lemma TrimSpace_idem [simp, go_string]: "TrimSpace (TrimSpace s) = TrimSpace s"
  by (rule TrimSpace_id [OF TrimSpace_lead TrimSpace_trail])

lemma TrimSpace_sublist: "sublist (TrimSpace s) s"
  unfolding sublist_altdef'
  using TrimSpace_prefix_strip [of s] strip_spaces_suffix [of space_runes s] by blast

lemma TrimSpace_set [go_string]: "set (TrimSpace s) \<subseteq> set s"
  using TrimSpace_sublist by (rule set_mono_sublist)

lemma TrimSpace_length [go_string]: "length (TrimSpace s) \<le> length s"
  using TrimSpace_sublist by (rule sublist_length_le)

lemma TrimSpace_Nil [simp]: "TrimSpace [] = []"
  using TrimSpace_set [of "[]"] by simp

text \<open>
  A string whose first and last bytes start or end no space rune is its own trimming. Every
  concrete string of the development is evaluated through this rule.
\<close>

definition space_heads :: "char list" where
  "space_heads = map hd space_runes"

definition space_tails :: "char list" where
  "space_tails = map last space_runes"

lemma space_runes_ne: "e \<in> set space_runes \<Longrightarrow> e \<noteq> []"
  by (auto simp: space_runes_def)

lemma TrimSpace_edges:
  assumes "s = [] \<or> hd s \<notin> set space_heads \<and> last s \<notin> set space_tails"
  shows "TrimSpace s = s"
proof (rule TrimSpace_id)
  show "lead_space space_runes s = 0"
    using assms unfolding lead_space_0_iff
    by (auto simp: space_heads_def prefix_def dest: space_runes_ne)
  show "lead_space (map rev space_runes) (rev s) = 0"
    using assms unfolding lead_space_0_iff
    by (fastforce simp: space_tails_def prefix_def rev_swap suffix_to_prefix dest: space_runes_ne)
qed

section \<open>Cut, Split and Join\<close>

text \<open>\<open>strings.Cut\<close> around the first occurrence of a one-byte separator.\<close>

definition Cut :: "string \<Rightarrow> char \<Rightarrow> string \<times> string \<times> bool" where
  "Cut s c =
     (if c \<in> set s then (takeWhile (\<lambda>x. x \<noteq> c) s, tl (dropWhile (\<lambda>x. x \<noteq> c) s), True)
      else (s, [], False))"

lemma Cut_append [simp, go_string]: "c \<notin> set a \<Longrightarrow> Cut (a @ c # b) c = (a, b, True)"
proof -
  assume a: "c \<notin> set a"
  then have "takeWhile (\<lambda>x. x \<noteq> c) (a @ c # b) = a"
    and "dropWhile (\<lambda>x. x \<noteq> c) (a @ c # b) = c # b"
    by (subst takeWhile_append2 dropWhile_append2; auto)+
  then show ?thesis by (simp add: Cut_def)
qed

lemma Cut_found [go_string]: "Cut s c = (a, b, True) \<longleftrightarrow> s = a @ c # b \<and> c \<notin> set a"
proof
  assume cut: "Cut s c = (a, b, True)"
  then have "c \<in> set s" by (auto simp: Cut_def split: if_splits)
  then obtain u v where "s = u @ c # v" "c \<notin> set u" by (auto dest: split_list_first)
  with cut show "s = a @ c # b \<and> c \<notin> set a" by simp
qed simp

lemma Cut_not_found [go_string]: "Cut s c = (a, b, False) \<longleftrightarrow> c \<notin> set s \<and> a = s \<and> b = []"
  by (auto simp: Cut_def)

text \<open>\<open>strings.Split\<close> and \<open>strings.Join\<close> with a one-byte separator.\<close>

fun Split :: "string \<Rightarrow> char \<Rightarrow> string list" where
  "Split [] c = [[]]"
| "Split (x # xs) c =
     (if x = c then [] # Split xs c
      else case Split xs c of [] \<Rightarrow> [[x]] | p # ps \<Rightarrow> (x # p) # ps)"

fun Join :: "string list \<Rightarrow> char \<Rightarrow> string" where
  "Join [] c = []"
| "Join [p] c = p"
| "Join (p # q # ps) c = p @ c # Join (q # ps) c"

lemma Split_not_Nil [simp]: "Split s c \<noteq> []"
  by (induction s) (auto split: list.splits)

lemma Split_no_sep: "c \<notin> set s \<Longrightarrow> Split s c = [s]"
  by (induction s) auto

lemma Split_append: "c \<notin> set p \<Longrightarrow> Split (p @ c # s) c = p # Split s c"
  by (induction p) auto

lemma Split_Join [go_string]:
  "ps \<noteq> [] \<Longrightarrow> \<forall>p\<in>set ps. c \<notin> set p \<Longrightarrow> Split (Join ps c) c = ps"
  by (induction ps c rule: Join.induct) (auto simp: Split_no_sep Split_append)

lemma Join_Split [go_string]: "Join (Split s c) c = s"
proof (induction s)
  case (Cons x xs)
  then show ?case by (cases "Split xs c"; cases "tl (Split xs c)") auto
qed simp

lemma Split_parts_no_sep: "p \<in> set (Split s c) \<Longrightarrow> c \<notin> set p"
  by (induction s arbitrary: p) (auto split: list.splits if_splits)

section \<open>De-duplication in order of first occurrence\<close>

text \<open>
  The loop \<open>for _, part := range parts { part = TrimSpace(part); if part == "" || seen[part]
  { continue }; seen[part] = true; out = append(out, part) }\<close>, written out with its
  accumulators; \<open>seen\<close> is the set of the keys the map holds.
\<close>

fun trim_dedup :: "string list \<Rightarrow> string list \<Rightarrow> string list" where
  "trim_dedup [] seen = []"
| "trim_dedup (p # ps) seen =
     (let part = TrimSpace p in
      if part = [] \<or> part \<in> set seen then trim_dedup ps seen
      else part # trim_dedup ps (part # seen))"

lemma set_trim_dedup:
  "set (trim_dedup ps seen) = {p \<in> TrimSpace ` set ps. p \<noteq> []} - set seen"
  by (induction ps seen rule: trim_dedup.induct) (auto simp: Let_def)

lemma distinct_trim_dedup [simp]: "distinct (trim_dedup ps seen)"
  by (induction ps seen rule: trim_dedup.induct) (auto simp: Let_def set_trim_dedup)

lemma trim_dedup_trimmed: "p \<in> set (trim_dedup ps seen) \<Longrightarrow> TrimSpace p = p \<and> p \<noteq> []"
  by (auto simp: set_trim_dedup)

lemma trim_dedup_id:
  assumes "distinct ps" and "\<forall>p\<in>set ps. TrimSpace p = p \<and> p \<noteq> []" and "set ps \<inter> set seen = {}"
  shows "trim_dedup ps seen = ps"
  using assms
proof (induction ps arbitrary: seen)
  case (Cons p ps)
  then show ?case using Cons.IH [of "p # seen"] by (auto simp: Let_def)
qed simp

section \<open>Letter case\<close>

text \<open>
  \<open>strings.ToLower\<close> has a path of its own for strings of ASCII bytes. On any other string
  it maps every rune through the Unicode tables; that table is the parameter \<open>utl\<close> of
  every definition that lowers a string, and no property depends on what it holds.
\<close>

type_synonym unicode_lower = "string \<Rightarrow> string"

definition is_ascii :: "string \<Rightarrow> bool" where
  "is_ascii s = list_all (\<lambda>c. of_char c < (128 :: nat)) s"

definition lower_byte :: "char \<Rightarrow> char" where
  "lower_byte c =
     (if CHR ''A'' \<le> c \<and> c \<le> CHR ''Z'' then char_of (of_char c + (32 :: nat)) else c)"

definition ToLower :: "unicode_lower \<Rightarrow> string \<Rightarrow> string" where
  "ToLower utl s = (if is_ascii s then map lower_byte s else utl s)"

lemma lower_byte_idem [simp]: "lower_byte (lower_byte c) = lower_byte c"
proof (cases "CHR ''A'' \<le> c \<and> c \<le> CHR ''Z''")
  case True
  then have b: "(65 :: nat) \<le> of_char c" "of_char c \<le> (90 :: nat)"
    by (auto simp: less_eq_char_def)
  then have "of_char (lower_byte c) = of_char c + (32 :: nat)"
    using True by (simp add: lower_byte_def)
  with b show ?thesis
    by (subst (1) lower_byte_def) (auto simp: less_eq_char_def)
qed (auto simp: lower_byte_def)

text \<open>
  \<open>strings.EqualFold\<close> against a word of ASCII letters none of which is \<open>k\<close> or \<open>s\<close>: no rune
  outside ASCII folds onto any other letter, so the comparison is the one of the lowered
  bytes.
\<close>

definition EqualFold :: "string \<Rightarrow> string \<Rightarrow> bool" where
  "EqualFold s word = (map lower_byte s = map lower_byte word)"

text \<open>Rules that evaluate the functions above on literals.\<close>

lemmas char_eval = lower_byte_def less_eq_char_def char_of_def bit_0
lemmas trim_eval = TrimSpace_def strip_spaces.simps space_runes_def

lemma lower_bearer: "map lower_byte ''Bearer'' = ''bearer''"
  by (simp add: char_eval)

end
