(* ===== verification/Sha256.thy ===== *)
theory Sha256
  imports Prelude "HOL-Library.Word"
begin

text \<open>
  \<open>crypto/sha256.Sum256\<close> and \<open>encoding/hex.EncodeToString\<close> of Go's standard library, from
  FIPS 180-4: API keys are stored and looked up by this digest and media files are named
  by it. What the rest of the development needs is proved at the end: a digest has 32
  bytes, its hexadecimal form 64 characters, each a digit or one of \<open>a\<close> to \<open>f\<close>.
\<close>

unbundle bit_operations_syntax

type_synonym u32 = "32 word"
type_synonym byte = "8 word"

section \<open>Constants\<close>

definition sha_k :: "u32 list" where
  "sha_k =
    [1116352408, 1899447441, 3049323471, 3921009573, 961987163, 1508970993, 2453635748, 2870763221,
     3624381080, 310598401, 607225278, 1426881987, 1925078388, 2162078206, 2614888103, 3248222580,
     3835390401, 4022224774, 264347078, 604807628, 770255983, 1249150122, 1555081692, 1996064986,
     2554220882, 2821834349, 2952996808, 3210313671, 3336571891, 3584528711, 113926993, 338241895,
     666307205, 773529912, 1294757372, 1396182291, 1695183700, 1986661051, 2177026350, 2456956037,
     2730485921, 2820302411, 3259730800, 3345764771, 3516065817, 3600352804, 4094571909, 275423344,
     430227734, 506948616, 659060556, 883997877, 958139571, 1322822218, 1537002063, 1747873779,
     1955562222, 2024104815, 2227730452, 2361852424, 2428436474, 2756734187, 3204031479, 3329325298]"

record sha_state =
  sh_a :: u32
  sh_b :: u32
  sh_c :: u32
  sh_d :: u32
  sh_e :: u32
  sh_f :: u32
  sh_g :: u32
  sh_h :: u32

definition sha_init :: sha_state where
  "sha_init = \<lparr>sh_a = 0x6a09e667, sh_b = 0xbb67ae85, sh_c = 0x3c6ef372, sh_d = 0xa54ff53a,
               sh_e = 0x510e527f, sh_f = 0x9b05688c, sh_g = 0x1f83d9ab, sh_h = 0x5be0cd19\<rparr>"

section \<open>Padding and the message schedule\<close>

definition nat_bytes :: "nat \<Rightarrow> nat \<Rightarrow> byte list" where
  "nat_bytes k n = map (\<lambda>i. of_nat (n div 256 ^ (k - 1 - i))) [0..<k]"

definition sha_pad :: "byte list \<Rightarrow> byte list" where
  "sha_pad m = m @ 0x80 # replicate ((119 - length m mod 64) mod 64) 0 @ nat_bytes 8 (8 * length m)"

definition be32 :: "byte list \<Rightarrow> u32" where
  "be32 bs = foldl (\<lambda>acc b. acc * 256 + ucast b) 0 bs"

fun chunks :: "nat \<Rightarrow> nat \<Rightarrow> 'a list \<Rightarrow> 'a list list" where
  "chunks k 0 xs = []"
| "chunks k (Suc n) xs = take k xs # chunks k n (drop k xs)"

definition small_sigma0 :: "u32 \<Rightarrow> u32" where
  "small_sigma0 x = word_rotr 7 x XOR word_rotr 18 x XOR drop_bit 3 x"

definition small_sigma1 :: "u32 \<Rightarrow> u32" where
  "small_sigma1 x = word_rotr 17 x XOR word_rotr 19 x XOR drop_bit 10 x"

fun schedule :: "nat \<Rightarrow> u32 list \<Rightarrow> u32 list" where
  "schedule 0 w = w"
| "schedule (Suc n) w =
     (let t = length w in
      schedule n (w @ [small_sigma1 (w ! (t - 2)) + w ! (t - 7) +
                       small_sigma0 (w ! (t - 15)) + w ! (t - 16)]))"

section \<open>Compression\<close>

definition sha_round :: "sha_state \<Rightarrow> u32 \<times> u32 \<Rightarrow> sha_state" where
  "sha_round s kw =
     (let s1 = word_rotr 6 (sh_e s) XOR word_rotr 11 (sh_e s) XOR word_rotr 25 (sh_e s);
          ch = (sh_e s AND sh_f s) XOR (NOT (sh_e s) AND sh_g s);
          t1 = sh_h s + s1 + ch + fst kw + snd kw;
          s0 = word_rotr 2 (sh_a s) XOR word_rotr 13 (sh_a s) XOR word_rotr 22 (sh_a s);
          maj = (sh_a s AND sh_b s) XOR (sh_a s AND sh_c s) XOR (sh_b s AND sh_c s);
          t2 = s0 + maj
      in \<lparr>sh_a = t1 + t2, sh_b = sh_a s, sh_c = sh_b s, sh_d = sh_c s,
          sh_e = sh_d s + t1, sh_f = sh_e s, sh_g = sh_f s, sh_h = sh_g s\<rparr>)"

definition sha_block :: "sha_state \<Rightarrow> byte list \<Rightarrow> sha_state" where
  "sha_block h blk =
     (let w = schedule 48 (map be32 (chunks 4 16 blk));
          r = foldl sha_round h (zip sha_k w)
      in \<lparr>sh_a = sh_a h + sh_a r, sh_b = sh_b h + sh_b r, sh_c = sh_c h + sh_c r,
          sh_d = sh_d h + sh_d r, sh_e = sh_e h + sh_e r, sh_f = sh_f h + sh_f r,
          sh_g = sh_g h + sh_g r, sh_h = sh_h h + sh_h r\<rparr>)"

definition word_bytes :: "u32 \<Rightarrow> byte list" where
  "word_bytes w = [ucast (drop_bit 24 w), ucast (drop_bit 16 w), ucast (drop_bit 8 w), ucast w]"

definition string_bytes :: "string \<Rightarrow> byte list" where
  "string_bytes s = map of_char s"

definition Sum256 :: "byte list \<Rightarrow> byte list" where
  "Sum256 m =
     (let p = sha_pad m;
          r = foldl sha_block sha_init (chunks 64 (length p div 64) p)
      in concat (map word_bytes [sh_a r, sh_b r, sh_c r, sh_d r, sh_e r, sh_f r, sh_g r, sh_h r]))"

section \<open>Hexadecimal\<close>

definition hex_digits :: string where
  "hex_digits = ''0123456789abcdef''"

definition EncodeToString :: "byte list \<Rightarrow> string" where
  "EncodeToString bs =
     concat (map (\<lambda>b. [hex_digits ! (unat b div 16), hex_digits ! (unat b mod 16)]) bs)"

lemma length_Sum256 [simp]: "length (Sum256 m) = 32"
  by (simp add: Sum256_def word_bytes_def Let_def)

lemma length_EncodeToString [simp]: "length (EncodeToString bs) = 2 * length bs"
  by (induction bs) (auto simp: EncodeToString_def)

lemma EncodeToString_Nil [simp]: "EncodeToString [] = []"
  by (simp add: EncodeToString_def)

lemma unat_byte_lt: "unat (b :: byte) < 256"
  using unsigned_less [of b] by simp

lemma hex_digit_in: "n < 16 \<Longrightarrow> hex_digits ! n \<in> set hex_digits"
  by (rule nth_mem) (simp add: hex_digits_def)

lemma EncodeToString_set: "set (EncodeToString bs) \<subseteq> set hex_digits"
proof (induction bs)
  case (Cons b bs)
  have "hex_digits ! (unat b div 16) \<in> set hex_digits" "hex_digits ! (unat b mod 16) \<in> set hex_digits"
    using unat_byte_lt [of b] by (auto intro: hex_digit_in)
  with Cons show ?case by (simp add: EncodeToString_def)
qed simp

lemma distinct_hex_digits: "distinct hex_digits"
  by (simp add: hex_digits_def)

lemma hex_digit_inj: "m < 16 \<Longrightarrow> n < 16 \<Longrightarrow> hex_digits ! m = hex_digits ! n \<longleftrightarrow> m = n"
  using distinct_hex_digits by (subst nth_eq_iff_index_eq) (auto simp: hex_digits_def)

text \<open>Two byte strings with one hexadecimal form are the same bytes.\<close>

lemma EncodeToString_inj: "EncodeToString as = EncodeToString bs \<longleftrightarrow> as = bs"
proof
  assume eq: "EncodeToString as = EncodeToString bs"
  then have "length as = length bs" using length_EncodeToString by (metis mult_cancel1 zero_neq_numeral)
  then show "as = bs" using eq
  proof (induction as bs rule: list_induct2)
    case (Cons a as b bs)
    then have "unat a div 16 = unat b div 16" "unat a mod 16 = unat b mod 16"
      using unat_byte_lt [of a] unat_byte_lt [of b]
      by (auto simp: EncodeToString_def hex_digit_inj)
    then have "unat a = unat b" by (metis div_mult_mod_eq)
    with Cons show ?case by (simp add: EncodeToString_def word_unat_eq_iff)
  qed simp
qed simp

end
