(* ===== verification/Scope.thy ===== *)
theory Scope
  imports Prelude
begin

text \<open>
  \<open>internal/auth/scope.go\<close>: the scopes of a tenant key. A grant is exact, a resource wildcard
  or the global wildcard; a required scope is always concrete. The theory proves what
  \<open>HasScope\<close> decides, that \<open>ValidateScopes\<close> accepts exactly the scopes the gateway knows, and
  that the comma-separated storage form changes nothing a validated key may do.
\<close>

section \<open>Definitions\<close>

definition ScopeMessagesSend :: string where "ScopeMessagesSend = ''messages:send''"
definition ScopeMessagesRead :: string where "ScopeMessagesRead = ''messages:read''"
definition ScopeMediaRead :: string where "ScopeMediaRead = ''media:read''"
definition ScopeMediaWrite :: string where "ScopeMediaWrite = ''media:write''"
definition ScopeSessionsRead :: string where "ScopeSessionsRead = ''sessions:read''"

lemmas scope_consts = ScopeMessagesSend_def ScopeMessagesRead_def ScopeMediaRead_def
  ScopeMediaWrite_def ScopeSessionsRead_def

definition Wildcard :: string where "Wildcard = ''*''"

definition knownScopes :: "string \<rightharpoonup> string list" where
  "knownScopes =
     [''messages'' \<mapsto> [''send'', ''read''], ''media'' \<mapsto> [''read'', ''write''], ''sessions'' \<mapsto> [''read'']]"

definition AllScopes :: "string list" where
  "AllScopes = [ScopeMessagesSend, ScopeMessagesRead, ScopeMediaRead, ScopeMediaWrite, ScopeSessionsRead]"

definition splitScope :: "string \<Rightarrow> string \<times> string \<times> bool" where
  "splitScope scope =
     (let (resource, action, found) = Cut scope (CHR '':'') in
      if \<not> found \<or> resource = [] \<or> action = [] then ([], [], False)
      else (resource, action, True))"

fun hasScopeLoop :: "string \<Rightarrow> string \<Rightarrow> string list \<Rightarrow> bool" where
  "hasScopeLoop requiredResource required [] = False"
| "hasScopeLoop requiredResource required (g0 # gs) =
     (let g = TrimSpace g0 in
      if g = [] then hasScopeLoop requiredResource required gs
      else if g = Wildcard \<or> g = required then True
      else
        (let (resource, action, ok) = splitScope g in
         if \<not> ok then hasScopeLoop requiredResource required gs
         else if action = Wildcard \<and> resource = requiredResource then True
         else hasScopeLoop requiredResource required gs))"

definition HasScope :: "string list \<Rightarrow> string \<Rightarrow> bool" where
  "HasScope granted required0 =
     (let required = TrimSpace required0 in
      if required = [] then False
      else if sublist Wildcard required then False
      else
        (let (requiredResource, _, ok) = splitScope required in
         if \<not> ok then False else hasScopeLoop requiredResource required granted))"

definition ParseScopes :: "string \<Rightarrow> string list" where
  "ParseScopes raw = trim_dedup (Split raw (CHR '','')) []"

fun formatKept :: "string list \<Rightarrow> string list" where
  "formatKept [] = []"
| "formatKept (s0 # ss) =
     (let s = TrimSpace s0 in if s = [] then formatKept ss else s # formatKept ss)"

definition FormatScopes :: "string list \<Rightarrow> string" where
  "FormatScopes scopes = Join (formatKept scopes) (CHR '','')"

datatype scope_error =
    MalformedScope string
  | UnknownResource string
  | UnknownAction string string

fun ValidateScopes :: "string list \<Rightarrow> scope_error option" where
  "ValidateScopes [] = None"
| "ValidateScopes (s0 # ss) =
     (let s = TrimSpace s0 in
      if s = [] \<or> s = Wildcard then ValidateScopes ss
      else
        (let (resource, action, ok) = splitScope s in
         if \<not> ok then Some (MalformedScope s)
         else case knownScopes resource of
           None \<Rightarrow> Some (UnknownResource resource)
         | Some actions \<Rightarrow>
             if action = Wildcard then ValidateScopes ss
             else if action \<notin> set actions then Some (UnknownAction action resource)
             else ValidateScopes ss))"

section \<open>What a scope string means\<close>

text \<open>
  The specification: a concrete scope is a resource and an action, and a grant permits it in
  one of three ways.
\<close>

definition concrete_scope :: "string \<Rightarrow> string \<Rightarrow> string \<Rightarrow> bool" where
  "concrete_scope s r a \<longleftrightarrow>
     s = r @ CHR '':'' # a \<and> CHR '':'' \<notin> set r \<and> r \<noteq> [] \<and> a \<noteq> [] \<and> CHR ''*'' \<notin> set s"

definition permits :: "string \<Rightarrow> string \<Rightarrow> string \<Rightarrow> bool" where
  "permits g r a \<longleftrightarrow> g = ''*'' \<or> g = r @ CHR '':'' # a \<or> g = r @ '':*''"

lemma splitScope_ok [go_string]:
  "splitScope s = (r, a, True) \<longleftrightarrow> s = r @ CHR '':'' # a \<and> CHR '':'' \<notin> set r \<and> r \<noteq> [] \<and> a \<noteq> []"
proof -
  obtain x y f where "Cut s (CHR '':'') = (x, y, f)" by (cases "Cut s (CHR '':'')") auto
  then show ?thesis
    using Cut_found [of s "CHR '':''" r a] by (auto simp: splitScope_def)
qed

lemma splitScope_bad: "splitScope s = (r, a, False) \<Longrightarrow> r = [] \<and> a = []"
  by (auto simp: splitScope_def split: prod.splits if_splits)

lemma sublist_Wildcard: "sublist Wildcard s \<longleftrightarrow> CHR ''*'' \<in> set s"
  by (auto simp: Wildcard_def sublist_def in_set_conv_decomp)

lemma hasScopeLoop_iff:
  assumes "CHR '':'' \<notin> set r" and "r \<noteq> []" and "a \<noteq> []"
  shows "hasScopeLoop r (r @ CHR '':'' # a) gs \<longleftrightarrow> (\<exists>g\<in>set gs. permits (TrimSpace g) r a)"
proof (induction gs)
  case (Cons g gs)
  obtain r' a' ok where sp: "splitScope (TrimSpace g) = (r', a', ok)" by (cases "splitScope (TrimSpace g)") auto
  have star: "TrimSpace g = r @ '':*'' \<longleftrightarrow> ok \<and> a' = Wildcard \<and> r' = r"
  proof
    assume "TrimSpace g = r @ '':*''"
    then have "splitScope (TrimSpace g) = (r, ''*'', True)"
      using assms by (simp add: splitScope_ok)
    with sp show "ok \<and> a' = Wildcard \<and> r' = r" by (simp add: Wildcard_def)
  next
    assume "ok \<and> a' = Wildcard \<and> r' = r"
    with sp show "TrimSpace g = r @ '':*''" by (auto simp: splitScope_ok Wildcard_def)
  qed
  have ne: "permits [] r a = False" using assms by (simp add: permits_def)
  show ?case
    using Cons.IH star ne
    by (cases "TrimSpace g = []") (auto simp: Let_def sp permits_def Wildcard_def)
qed simp

lemma HasScope_char:
  "HasScope granted required \<longleftrightarrow>
     (\<exists>r a. concrete_scope (TrimSpace required) r a \<and>
            (\<exists>g\<in>set granted. permits (TrimSpace g) r a))"
proof -
  obtain r a ok where sp: "splitScope (TrimSpace required) = (r, a, ok)"
    by (cases "splitScope (TrimSpace required)") auto
  show ?thesis
  proof (cases ok)
    case True
    with sp have s: "TrimSpace required = r @ CHR '':'' # a" "CHR '':'' \<notin> set r" "r \<noteq> []" "a \<noteq> []"
      by (auto simp: splitScope_ok)
    have uniq: "r' = r \<and> a' = a" if "concrete_scope (TrimSpace required) r' a'" for r' a'
    proof -
      from that have "splitScope (TrimSpace required) = (r', a', True)"
        by (auto simp: concrete_scope_def splitScope_ok)
      with sp show ?thesis by simp
    qed
    have "HasScope granted required \<longleftrightarrow>
        CHR ''*'' \<notin> set (TrimSpace required) \<and> hasScopeLoop r (r @ CHR '':'' # a) granted"
      using True sp s by (simp add: HasScope_def Let_def sublist_Wildcard)
    also have "\<dots> \<longleftrightarrow> concrete_scope (TrimSpace required) r a \<and>
        (\<exists>g\<in>set granted. permits (TrimSpace g) r a)"
      using hasScopeLoop_iff [OF s(2-4)] s by (simp add: concrete_scope_def)
    finally show ?thesis using uniq by blast
  next
    case False
    then have "\<not> HasScope granted required" using sp by (simp add: HasScope_def Let_def)
    moreover have "\<not> concrete_scope (TrimSpace required) r' a'" for r' a'
    proof
      assume "concrete_scope (TrimSpace required) r' a'"
      then have "splitScope (TrimSpace required) = (r', a', True)"
        by (auto simp: concrete_scope_def splitScope_ok)
      with sp False show False by simp
    qed
    ultimately show ?thesis by blast
  qed
qed

lemma permits_ne: "permits g r a \<Longrightarrow> g \<noteq> []"
  by (auto simp: permits_def)

text \<open>Only the trimmed, non-empty grants count, so any list with the same ones decides alike.\<close>

lemma HasScope_cong:
  assumes "{g \<in> TrimSpace ` set gs. g \<noteq> []} = {g \<in> TrimSpace ` set hs. g \<noteq> []}"
  shows "HasScope gs required = HasScope hs required"
proof -
  have "(\<exists>g\<in>set xs. permits (TrimSpace g) r a) \<longleftrightarrow>
        (\<exists>g\<in>{g \<in> TrimSpace ` set xs. g \<noteq> []}. permits g r a)" for xs r a
    using permits_ne by blast
  then show ?thesis by (simp only: HasScope_char assms)
qed

section \<open>Validation and the storage form\<close>

definition known_scope :: "string \<Rightarrow> bool" where
  "known_scope s \<longleftrightarrow>
     s = [] \<or> s = ''*'' \<or> s \<in> set AllScopes \<or> s \<in> {''messages:*'', ''media:*'', ''sessions:*''}"

lemma splitScope_lit:
  "splitScope ''messages:send'' = (''messages'', ''send'', True)"
  "splitScope ''messages:read'' = (''messages'', ''read'', True)"
  "splitScope ''media:read'' = (''media'', ''read'', True)"
  "splitScope ''media:write'' = (''media'', ''write'', True)"
  "splitScope ''sessions:read'' = (''sessions'', ''read'', True)"
  "splitScope ''messages:*'' = (''messages'', ''*'', True)"
  "splitScope ''media:*'' = (''media'', ''*'', True)"
  "splitScope ''sessions:*'' = (''sessions'', ''*'', True)"
  by (simp_all add: splitScope_def Cut_def)

lemma knownScopes_lit:
  "knownScopes ''messages'' = Some [''send'', ''read'']"
  "knownScopes ''media'' = Some [''read'', ''write'']"
  "knownScopes ''sessions'' = Some [''read'']"
  by (simp_all add: knownScopes_def)

lemma split_known:
  "known_scope s \<Longrightarrow> s \<noteq> [] \<Longrightarrow> s \<noteq> ''*'' \<Longrightarrow>
   \<exists>r a. splitScope s = (r, a, True) \<and> (\<exists>as. knownScopes r = Some as \<and> (a = ''*'' \<or> a \<in> set as))"
  by (auto simp: known_scope_def AllScopes_def scope_consts knownScopes_lit splitScope_lit)

lemma known_split:
  "splitScope s = (r, a, True) \<Longrightarrow> knownScopes r = Some as \<Longrightarrow> a = ''*'' \<or> a \<in> set as \<Longrightarrow> known_scope s"
  by (auto simp: splitScope_ok knownScopes_def known_scope_def AllScopes_def scope_consts
      split: if_splits)

lemma ValidateScopes_known: "ValidateScopes ss = None \<longleftrightarrow> (\<forall>s\<in>set ss. known_scope (TrimSpace s))"
proof (induction ss)
  case (Cons s ss)
  obtain r a ok where sp: "splitScope (TrimSpace s) = (r, a, ok)"
    by (cases "splitScope (TrimSpace s)") auto
  show ?case
  proof (cases "TrimSpace s = [] \<or> TrimSpace s = Wildcard")
    case True
    with Cons show ?thesis by (auto simp: Let_def known_scope_def Wildcard_def)
  next
    case False
    then have "known_scope (TrimSpace s) \<longleftrightarrow>
        ok \<and> (\<exists>as. knownScopes r = Some as \<and> (a = Wildcard \<or> a \<in> set as))"
      using split_known [of "TrimSpace s"] known_split [of "TrimSpace s" r a] sp
      by (auto simp: Wildcard_def)
    with Cons sp False show ?thesis by (auto simp: Let_def split: option.splits)
  qed
qed simp

lemma known_scope_no_comma: "known_scope s \<Longrightarrow> CHR '','' \<notin> set s"
  by (auto simp: known_scope_def AllScopes_def scope_consts)

lemma set_formatKept: "set (formatKept ss) = {s \<in> TrimSpace ` set ss. s \<noteq> []}"
  by (induction ss) (auto simp: Let_def)

lemma formatKept_trimmed: "s \<in> set (formatKept ss) \<Longrightarrow> TrimSpace s = s"
  by (auto simp: set_formatKept)

lemma set_ParseScopes_FormatScopes:
  assumes "\<forall>s\<in>set ss. CHR '','' \<notin> set (TrimSpace s)"
  shows "set (ParseScopes (FormatScopes ss)) = {s \<in> TrimSpace ` set ss. s \<noteq> []}"
proof (cases "formatKept ss = []")
  case True
  then have "{s \<in> TrimSpace ` set ss. s \<noteq> []} = {}" using set_formatKept [of ss] by simp
  with True show ?thesis by (simp add: ParseScopes_def FormatScopes_def Let_def)
next
  case False
  have "Split (FormatScopes ss) (CHR '','') = formatKept ss"
    unfolding FormatScopes_def using False assms by (intro Split_Join) (auto simp: set_formatKept)
  moreover have "TrimSpace ` set (formatKept ss) = set (formatKept ss)"
    using formatKept_trimmed by (rule image_fix)
  ultimately show ?thesis by (simp add: ParseScopes_def set_trim_dedup set_formatKept)
qed

lemma stored_scopes_same_set:
  assumes "ValidateScopes ss = None"
  shows "set (ParseScopes (FormatScopes ss)) = {s \<in> TrimSpace ` set ss. s \<noteq> []}"
  using assms known_scope_no_comma
  by (intro set_ParseScopes_FormatScopes) (auto simp: ValidateScopes_known)

lemma HasScope_stored:
  assumes "ValidateScopes ss = None"
  shows "HasScope (ParseScopes (FormatScopes ss)) required = HasScope ss required"
proof (rule HasScope_cong)
  have "TrimSpace ` {s \<in> TrimSpace ` set ss. s \<noteq> []} = {s \<in> TrimSpace ` set ss. s \<noteq> []}"
    by (rule image_fix) auto
  then show "{g \<in> TrimSpace ` set (ParseScopes (FormatScopes ss)). g \<noteq> []} =
      {g \<in> TrimSpace ` set ss. g \<noteq> []}"
    unfolding stored_scopes_same_set [OF assms] by simp
qed

end
