(* ===== verification/Key.thy ===== *)
theory Key
  imports Sha256
begin

text \<open>
  \<open>internal/auth/key.go\<close>: issuing, hashing and verifying API keys. \<open>crypto/rand\<close> is the only
  outside source: what \<open>rand.Read\<close> puts in the buffer is an argument, \<open>None\<close> when it reports
  an error. The theory proves the shape of an issued key, that the base62 rendering loses
  none of the 256 random bits (it has an inverse), and that the displayed prefix shows six
  characters of the secret and no more.
\<close>

section \<open>Definitions\<close>

definition keyPrefixLiteral :: string where "keyPrefixLiteral = ''wc_live''"
definition tenantShortLen :: nat where "tenantShortLen = 8"
definition secretBytes :: nat where "secretBytes = 32"
definition displayedSecretChars :: nat where "displayedSecretChars = 6"

definition base62Alphabet :: string where
  "base62Alphabet = ''0123456789ABCDEFGHIJKLMNOPQRSTUVWXYZabcdefghijklmnopqrstuvwxyz''"

datatype key_error = ErrInvalidTenantID | ErrRandRead

record GeneratedKey =
  Plaintext :: string
  Hash :: string
  Prefix :: string

definition lower_alnum :: "char \<Rightarrow> bool" where
  "lower_alnum r \<longleftrightarrow> CHR ''a'' \<le> r \<and> r \<le> CHR ''z'' \<or> CHR ''0'' \<le> r \<and> r \<le> CHR ''9''"

text \<open>
  The loop ranges over runes and keeps ASCII ones only. A byte below 128 is a rune of its
  own and every byte of a longer rune is at least 128, so the loop over bytes keeps the
  same characters.
\<close>

fun shortenLoop :: "string \<Rightarrow> string \<Rightarrow> string" where
  "shortenLoop [] b = b"
| "shortenLoop (r # rs) b =
     (let b' = (if lower_alnum r then b @ [r] else b) in
      if length b' = tenantShortLen then b' else shortenLoop rs b')"

definition shortenTenantID :: "unicode_lower \<Rightarrow> string \<Rightarrow> string" where
  "shortenTenantID utl tenantID = shortenLoop (ToLower utl tenantID) []"

definition SetBytes :: "byte list \<Rightarrow> nat" where
  "SetBytes raw = foldl (\<lambda>n b. n * 256 + unat b) 0 raw"

fun base62Loop :: "nat \<Rightarrow> nat \<Rightarrow> string \<Rightarrow> string" where
  "base62Loop 0 n out = out"
| "base62Loop (Suc i) n out = base62Loop i (n div 62) (base62Alphabet ! (n mod 62) # out)"

definition encodeBase62 :: "byte list \<Rightarrow> string" where
  "encodeBase62 raw = base62Loop 43 (SetBytes raw) []"

definition HashKey :: "string \<Rightarrow> string" where
  "HashKey plaintext = EncodeToString (Sum256 (string_bytes plaintext))"

definition GenerateKey :: "unicode_lower \<Rightarrow> byte list option \<Rightarrow> string \<Rightarrow> key_error + GeneratedKey" where
  "GenerateKey utl rand tenantID =
     (let short = shortenTenantID utl tenantID in
      if short = [] then Inl ErrInvalidTenantID
      else case rand of
        None \<Rightarrow> Inl ErrRandRead
      | Some raw \<Rightarrow>
          (let secret = encodeBase62 raw;
               plaintext = keyPrefixLiteral @ ''_'' @ short @ ''_'' @ secret;
               prefixLen = length plaintext - length secret + displayedSecretChars
           in Inr \<lparr>Plaintext = plaintext, Hash = HashKey plaintext, Prefix = take prefixLen plaintext\<rparr>))"

definition VerifyKey :: "unicode_lower \<Rightarrow> string \<Rightarrow> string \<Rightarrow> bool" where
  "VerifyKey utl plaintext expectedHash =
     (if plaintext = [] \<or> expectedHash = [] then False
      else HashKey plaintext = ToLower utl (TrimSpace expectedHash))"

definition VerifyAdminToken :: "string \<Rightarrow> string \<Rightarrow> bool" where
  "VerifyAdminToken configured presented =
     (if configured = [] \<or> presented = [] then False else configured = presented)"

section \<open>The digest\<close>

lemma length_HashKey [simp]: "length (HashKey p) = 64"
  by (simp add: HashKey_def)

lemma HashKey_ne [simp]: "HashKey p \<noteq> []"
  using length_HashKey [of p] by (metis list.size(3) zero_neq_numeral)

lemma HashKey_set: "set (HashKey p) \<subseteq> set hex_digits"
  by (simp add: HashKey_def EncodeToString_set)

lemma hex_digits_plain:
  "c \<in> set hex_digits \<Longrightarrow> lower_byte c = c \<and> of_char c < (128 :: nat) \<and>
     c \<notin> set space_heads \<and> c \<notin> set space_tails"
  by (auto simp: hex_digits_def lower_byte_def less_eq_char_def space_heads_def space_tails_def
      space_runes_def)

lemma hex_normal_form:
  assumes "set h \<subseteq> set hex_digits"
  shows "ToLower utl (TrimSpace h) = h"
proof -
  have "TrimSpace h = h"
    using assms hex_digits_plain by (intro TrimSpace_edges) (metis hd_in_set last_in_set subsetD)
  moreover have "is_ascii h" "map lower_byte h = h"
    using assms hex_digits_plain by (auto simp: is_ascii_def list_all_iff intro!: map_idI)
  ultimately show ?thesis by (simp add: ToLower_def)
qed

section \<open>Base62\<close>

lemma length_base62Loop [simp]: "length (base62Loop w n out) = w + length out"
  by (induction w arbitrary: n out) auto

lemma length_encodeBase62 [simp]: "length (encodeBase62 raw) = 43"
  by (simp add: encodeBase62_def)

lemma length_base62Alphabet: "length base62Alphabet = 62"
  by (simp add: base62Alphabet_def)

lemma distinct_base62Alphabet: "distinct base62Alphabet"
  by (simp add: base62Alphabet_def)

fun base62_index :: "char \<Rightarrow> string \<Rightarrow> nat" where
  "base62_index c [] = 0"
| "base62_index c (x # xs) = (if x = c then 0 else Suc (base62_index c xs))"

lemma base62_index_nth: "distinct xs \<Longrightarrow> i < length xs \<Longrightarrow> base62_index (xs ! i) xs = i"
  by (induction xs arbitrary: i) (auto simp: nth_Cons split: nat.splits)

definition decodeBase62 :: "string \<Rightarrow> nat" where
  "decodeBase62 s = foldl (\<lambda>n c. n * 62 + base62_index c base62Alphabet) 0 s"

lemma foldl_base62_add:
  "foldl (\<lambda>n c. n * 62 + base62_index c base62Alphabet) k s = k * 62 ^ length s + decodeBase62 s"
proof (induction s arbitrary: k)
  case (Cons c s)
  show ?case
    using Cons [of "k * 62 + base62_index c base62Alphabet"] Cons [of "base62_index c base62Alphabet"]
    by (simp add: decodeBase62_def algebra_simps)
qed (simp add: decodeBase62_def)

lemma decode_base62Loop:
  "decodeBase62 (base62Loop w n out) = n mod 62 ^ w * 62 ^ length out + decodeBase62 out"
proof (induction w arbitrary: n out)
  case (Suc w)
  have ix: "base62_index (base62Alphabet ! (n mod 62)) base62Alphabet = n mod 62"
    by (rule base62_index_nth) (simp_all add: distinct_base62Alphabet length_base62Alphabet)
  have "decodeBase62 (base62Loop (Suc w) n out) =
      n div 62 mod 62 ^ w * 62 ^ Suc (length out) + (n mod 62 * 62 ^ length out + decodeBase62 out)"
    using Suc [of "n div 62" "base62Alphabet ! (n mod 62) # out"]
      foldl_base62_add [of "n mod 62" out] ix
    by (simp add: decodeBase62_def)
  also have "\<dots> = (62 * (n div 62 mod 62 ^ w) + n mod 62) * 62 ^ length out + decodeBase62 out"
    by (simp add: algebra_simps)
  also have "62 * (n div 62 mod 62 ^ w) + n mod 62 = n mod 62 ^ Suc w"
    by (simp add: mod_mult2_eq)
  finally show ?case .
qed simp

lemma foldl_SetBytes_add:
  "foldl (\<lambda>n b. n * 256 + unat b) k (bs :: byte list) = k * 256 ^ length bs + SetBytes bs"
proof (induction bs arbitrary: k)
  case (Cons b bs)
  show ?case
    using Cons [of "k * 256 + unat b"] Cons [of "unat b"] by (simp add: SetBytes_def algebra_simps)
qed (simp add: SetBytes_def)

lemma SetBytes_Cons: "SetBytes (b # bs) = unat b * 256 ^ length bs + SetBytes bs"
  using foldl_SetBytes_add [of "unat b" bs] by (simp add: SetBytes_def)

lemma SetBytes_bound: "SetBytes bs < 256 ^ length bs"
proof (induction bs)
  case (Cons b bs)
  have "unat b * 256 ^ length bs + 256 ^ length bs \<le> 256 * 256 ^ length bs"
    using mult_le_mono1 [of "Suc (unat b)" 256 "256 ^ length bs"] unat_byte_lt [of b] by simp
  with Cons have "unat b * 256 ^ length bs + SetBytes bs < 256 * 256 ^ length bs" by linarith
  then show ?case by (simp add: SetBytes_Cons)
qed (simp add: SetBytes_def)

lemma digit_split:
  assumes "a * m + x = b * m + y" and "x < m" and "y < (m :: nat)"
  shows "a = b \<and> x = y"
proof -
  have "(a * m + x) div m = a" "(b * m + y) div m = b" using assms(2,3) by simp_all
  with assms(1) show ?thesis by auto
qed

lemma SetBytes_inj: "length as = length bs \<Longrightarrow> SetBytes as = SetBytes bs \<Longrightarrow> as = bs"
proof (induction as bs rule: list_induct2)
  case (Cons a as b bs)
  have "SetBytes as < 256 ^ length bs" "SetBytes bs < 256 ^ length bs"
    using SetBytes_bound [of as] SetBytes_bound [of bs] Cons.hyps by simp_all
  with Cons.prems Cons.hyps have "unat a = unat b" "SetBytes as = SetBytes bs"
    using digit_split [of "unat a" "256 ^ length bs" "SetBytes as" "unat b" "SetBytes bs"]
    by (simp_all add: SetBytes_Cons)
  with Cons.IH show ?case by (simp add: word_unat_eq_iff)
qed simp

lemma base62_wide_enough: "(256 :: nat) ^ 32 < 62 ^ 43"
  by simp

lemma decode_encodeBase62:
  assumes "length raw = secretBytes"
  shows "decodeBase62 (encodeBase62 raw) = SetBytes raw"
proof -
  have "SetBytes raw < 62 ^ 43"
    using SetBytes_bound [of raw] base62_wide_enough assms by (simp add: secretBytes_def)
  then have "SetBytes raw mod 62 ^ 43 = SetBytes raw" by (rule mod_less)
  moreover have "decodeBase62 [] = 0" by (simp add: decodeBase62_def)
  ultimately show ?thesis by (simp only: encodeBase62_def decode_base62Loop) simp
qed

lemma encodeBase62_inj:
  assumes "length as = secretBytes" and "length bs = secretBytes"
    and "encodeBase62 as = encodeBase62 bs"
  shows "as = bs"
  using assms decode_encodeBase62 by (metis SetBytes_inj)

lemma base62Loop_set: "set (base62Loop w n out) \<subseteq> set base62Alphabet \<union> set out"
proof (induction w arbitrary: n out)
  case (Suc w)
  have "base62Alphabet ! (n mod 62) \<in> set base62Alphabet"
    by (rule nth_mem) (simp add: length_base62Alphabet)
  with Suc [of "n div 62" "base62Alphabet ! (n mod 62) # out"] show ?case by auto
qed simp

lemma encodeBase62_set: "set (encodeBase62 raw) \<subseteq> set base62Alphabet"
  using base62Loop_set [of 43 "SetBytes raw" "[]"] by (simp add: encodeBase62_def)

section \<open>Issued keys\<close>

lemma shortenLoop_spec:
  assumes "length b < tenantShortLen"
  shows "shortenLoop rs b = take tenantShortLen (b @ filter lower_alnum rs)"
  using assms
proof (induction rs b rule: shortenLoop.induct)
  case (2 r rs b)
  then show ?case
    by (cases "Suc (length b) = tenantShortLen") (auto simp: Let_def take_Cons' tenantShortLen_def)
qed simp

lemma shortenTenantID_spec:
  "shortenTenantID utl t = take tenantShortLen (filter lower_alnum (ToLower utl t))"
  by (simp add: shortenTenantID_def shortenLoop_spec tenantShortLen_def)

definition keyPublicPart :: "unicode_lower \<Rightarrow> string \<Rightarrow> string" where
  "keyPublicPart utl t = keyPrefixLiteral @ ''_'' @ shortenTenantID utl t @ ''_''"

lemma take_public_part: "take (length (q @ s) - length s + n) (q @ s) = q @ take n s"
  by simp

lemma GenerateKey_Inr:
  "GenerateKey utl rand t = Inr k \<longleftrightarrow>
     (\<exists>raw. rand = Some raw \<and> shortenTenantID utl t \<noteq> [] \<and>
        k = \<lparr>Plaintext = keyPublicPart utl t @ encodeBase62 raw,
             Hash = HashKey (keyPublicPart utl t @ encodeBase62 raw),
             Prefix = keyPublicPart utl t @ take 6 (encodeBase62 raw)\<rparr>)"
  using take_public_part [of "keyPublicPart utl t" _ 6]
  by (auto simp: GenerateKey_def Let_def keyPublicPart_def displayedSecretChars_def
      split: if_splits option.splits simp del: append_Cons)

lemma GenerateKey_ErrInvalid:
  "GenerateKey utl rand t = Inl ErrInvalidTenantID \<longleftrightarrow> shortenTenantID utl t = []"
  by (auto simp: GenerateKey_def Let_def split: option.splits)

end
