(* ===== verification/Models.thy ===== *)
theory Models
  imports Scope
begin

text \<open>
  \<open>internal/store/models.go\<close> and the tables of \<open>migrations/0001\<close>, \<open>0002\<close> and \<open>0004\<close>. A status
  and a direction are strings in Go, so any string can be one; \<open>Valid\<close> says which the schema
  accepts. A nullable column is an option, a BLOB that may be NULL a string that may be
  empty. A row of \<open>messages\<close> has the columns of the struct, so the struct is its row type; a
  row of \<open>api_keys\<close> keeps its scopes as text. The table \<open>whatsmeow_lid_map\<close> belongs to
  whatsmeow: \<open>None\<close> until whatsmeow has created it.

  Every call into the database driver, every reading of the clock and every new identifier
  comes from outside. Each repository operation takes the outside of its own run as an
  argument of type \<open>env\<close>: whether its n-th driver call reports an error, what its n-th
  \<open>time.Now\<close> gives and what its n-th \<open>NewID\<close> gives. No theorem assumes anything about it that
  its statement does not show.
\<close>

section \<open>The outside of an operation\<close>

record env =
  fault :: "nat \<Rightarrow> bool"
  nowAt :: "nat \<Rightarrow> gotime"
  fresh :: "nat \<Rightarrow> string"

definition NewID :: "env \<Rightarrow> nat \<Rightarrow> string" where
  "NewID E i = fresh E i"

text \<open>What is left of an outside after its first \<open>n\<close> answers: a call inside an operation.\<close>

definition later :: "nat \<Rightarrow> env \<Rightarrow> env" where
  "later n E =
     \<lparr>fault = (\<lambda>i. fault E (n + i)), nowAt = (\<lambda>i. nowAt E (n + i)), fresh = (\<lambda>i. fresh E (n + i))\<rparr>"

lemma later_simps [simp]:
  "fault (later n E) i = fault E (n + i)"
  "nowAt (later n E) i = nowAt E (n + i)"
  "fresh (later n E) i = fresh E (n + i)"
  by (simp_all add: later_def)

text \<open>An outside in which nothing fails.\<close>

definition calm :: "gotime \<Rightarrow> (nat \<Rightarrow> string) \<Rightarrow> env" where
  "calm t ids = \<lparr>fault = (\<lambda>_. False), nowAt = (\<lambda>_. t), fresh = ids\<rparr>"

lemma calm_simps [simp]:
  "fault (calm t ids) = (\<lambda>_. False)" "nowAt (calm t ids) = (\<lambda>_. t)" "fresh (calm t ids) = ids"
  by (simp_all add: calm_def)

datatype store_error = ErrNotFound | StoreError string

section \<open>Entities\<close>

record Tenant =
  t_ID :: string
  t_Name :: string
  t_CreatedAt :: gotime

record APIKey =
  k_ID :: string
  k_TenantID :: string
  k_Name :: string
  k_KeyHash :: string
  k_KeyPrefix :: string
  k_Scopes :: "string list"
  k_CreatedAt :: gotime
  k_LastUsedAt :: "gotime option"
  k_RevokedAt :: "gotime option"

record api_key_row =
  kr_ID :: string
  kr_TenantID :: string
  kr_Name :: string
  kr_KeyHash :: string
  kr_KeyPrefix :: string
  kr_Scopes :: string
  kr_CreatedAt :: gotime
  kr_LastUsedAt :: "gotime option"
  kr_RevokedAt :: "gotime option"

definition SessionPending :: string where "SessionPending = ''pending''"
definition SessionConnected :: string where "SessionConnected = ''connected''"
definition SessionDisconnected :: string where "SessionDisconnected = ''disconnected''"
definition SessionLoggedOut :: string where "SessionLoggedOut = ''logged_out''"

definition SessionStatus_Valid :: "string \<Rightarrow> bool" where
  "SessionStatus_Valid s =
     (s \<in> {SessionPending, SessionConnected, SessionDisconnected, SessionLoggedOut})"

definition SessionStatus_validate :: "string \<Rightarrow> store_error option" where
  "SessionStatus_validate s =
     (if \<not> SessionStatus_Valid s then Some (StoreError ''invalid session status'') else None)"

record Session =
  s_ID :: string
  s_TenantID :: string
  s_WAJID :: "string option"
  s_Status :: string
  s_CreatedAt :: gotime
  s_UpdatedAt :: gotime

definition DirectionIn :: string where "DirectionIn = ''in''"
definition DirectionOut :: string where "DirectionOut = ''out''"

definition Direction_Valid :: "string \<Rightarrow> bool" where
  "Direction_Valid d \<longleftrightarrow> d = DirectionIn \<or> d = DirectionOut"

lemma Direction_Valid_consts [simp]: "Direction_Valid DirectionIn" "Direction_Valid DirectionOut"
  by (simp_all add: Direction_Valid_def)

lemma DirectionIn_neq_Out [simp]: "DirectionIn \<noteq> DirectionOut" "DirectionOut \<noteq> DirectionIn"
  by (simp_all add: DirectionIn_def DirectionOut_def)

definition MediaAvailable :: string where "MediaAvailable = ''available''"
definition MediaUnavailable :: string where "MediaUnavailable = ''unavailable''"
definition MediaFailed :: string where "MediaFailed = ''failed''"

lemma media_status_distinct [simp]:
  "MediaAvailable \<noteq> MediaUnavailable" "MediaAvailable \<noteq> MediaFailed" "MediaUnavailable \<noteq> MediaFailed"
  "MediaUnavailable \<noteq> MediaAvailable" "MediaFailed \<noteq> MediaAvailable" "MediaFailed \<noteq> MediaUnavailable"
  by (simp_all add: MediaAvailable_def MediaUnavailable_def MediaFailed_def)

record Message =
  m_ID :: string
  m_TenantID :: string
  m_ChatJID :: string
  m_SenderJID :: string
  m_WAMessageID :: string
  m_Direction :: string
  m_Body :: string
  m_MediaType :: "string option"
  m_MediaPath :: "string option"
  m_DirectPath :: "string option"
  m_MediaKey :: string
  m_FileEncSHA256 :: string
  m_FileSHA256 :: string
  m_MMSType :: "string option"
  m_FileLength :: "int option"
  m_MimeType :: "string option"
  m_MediaStatus :: "string option"
  m_MediaError :: "string option"
  m_MediaFetchedAt :: "gotime option"
  m_Timestamp :: gotime
  m_CreatedAt :: gotime

text \<open>The zero value of the struct, from which a composite literal that names some fields starts.\<close>

definition emptyMessage :: Message where
  "emptyMessage =
     \<lparr>m_ID = [], m_TenantID = [], m_ChatJID = [], m_SenderJID = [], m_WAMessageID = [],
      m_Direction = [], m_Body = [], m_MediaType = None, m_MediaPath = None, m_DirectPath = None,
      m_MediaKey = [], m_FileEncSHA256 = [], m_FileSHA256 = [], m_MMSType = None,
      m_FileLength = None, m_MimeType = None, m_MediaStatus = None, m_MediaError = None,
      m_MediaFetchedAt = None, m_Timestamp = 0, m_CreatedAt = 0\<rparr>"

definition HasMediaReference :: "Message \<Rightarrow> bool" where
  "HasMediaReference m = (case m_DirectPath m of None \<Rightarrow> False | Some p \<Rightarrow> p \<noteq> [])"

record MediaUpdate =
  mu_Path :: "string option"
  mu_Status :: string
  mu_Error :: string
  mu_FetchedAt :: gotime

record Chat =
  c_ChatJID :: string
  c_Name :: string
  c_LastMessageAt :: gotime
  c_LastMessageBody :: string
  c_LastDirection :: string
  c_MessageCount :: nat

record NamedChat =
  n_ChatJID :: string
  n_Name :: string

record chat_row =
  cr_TenantID :: string
  cr_ChatJID :: string
  cr_Name :: string
  cr_UpdatedAt :: gotime

section \<open>The database\<close>

record db =
  tenants :: "Tenant list"
  api_keys :: "api_key_row list"
  sessions :: "Session list"
  messages :: "Message list"
  chats :: "chat_row list"
  lid_map :: "(string \<times> string) list option"
  lidMap :: bool

definition empty_db :: db where
  "empty_db =
     \<lparr>tenants = [], api_keys = [], sessions = [], messages = [], chats = [], lid_map = None, lidMap = False\<rparr>"

abbreviation tenant_exists :: "db \<Rightarrow> string \<Rightarrow> bool" where
  "tenant_exists d t \<equiv> t \<in> t_ID ` set (tenants d)"

end
