(* ===== verification/Sql.thy ===== *)
theory Sql
  imports Models
begin

text \<open>
  What the SQL of the repositories means where it is more than a filter over the rows:
  \<open>LIKE ... ESCAPE '\'\<close> with SQLite's folding of ASCII letters, \<open>ORDER BY\<close> over a timestamp and
  an identifier, and \<open>LIMIT\<close>; and the helpers \<open>normalizeLimit\<close> and \<open>escapeLike\<close> of
  \<open>internal/store/message_repo.go\<close> that feed them.
\<close>

section \<open>LIKE\<close>

definition skip_utf8 :: "char \<Rightarrow> string \<Rightarrow> string" where
  "skip_utf8 x xs =
     (if 192 \<le> (of_char x :: nat)
      then dropWhile (\<lambda>c. 128 \<le> (of_char c :: nat) \<and> of_char c < (192 :: nat)) xs else xs)"

fun sql_like :: "string \<Rightarrow> string \<Rightarrow> bool" where
  "sql_like [] s = (s = [])"
| "sql_like (p # ps) s =
     (if p = CHR ''%'' then list_ex (\<lambda>k. sql_like ps (drop k s)) [0..<Suc (length s)]
      else if p = CHR 0x5C then
        (case ps of [] \<Rightarrow> False
         | c # ps' \<Rightarrow> (case s of [] \<Rightarrow> False
             | x # xs \<Rightarrow> lower_byte x = lower_byte c \<and> sql_like ps' xs))
      else if p = CHR ''_'' then
        (case s of [] \<Rightarrow> False | x # xs \<Rightarrow> sql_like ps (skip_utf8 x xs))
      else (case s of [] \<Rightarrow> False | x # xs \<Rightarrow> lower_byte x = lower_byte p \<and> sql_like ps xs))"

definition escape_char :: "char \<Rightarrow> string" where
  "escape_char c =
     (if c = CHR 0x5C \<or> c = CHR ''%'' \<or> c = CHR ''_'' then [CHR 0x5C, c] else [c])"

definition escapeLike :: "string \<Rightarrow> string" where
  "escapeLike s = concat (map escape_char s)"

definition contains_pattern :: "string \<Rightarrow> string" where
  "contains_pattern q = ''%'' @ escapeLike q @ ''%''"

text \<open>The specification: the query occurs in the text, letter case of ASCII letters aside.\<close>

definition occurs_in :: "string \<Rightarrow> string \<Rightarrow> bool" where
  "occurs_in q s = sublist (map lower_byte q) (map lower_byte s)"

lemma escapeLike_Cons: "escapeLike (c # q) = escape_char c @ escapeLike q"
  by (simp add: escapeLike_def)

lemma sql_like_percent: "sql_like [CHR ''%''] s"
proof -
  have "list_ex (\<lambda>k. drop k s = []) [0..<Suc (length s)]"
    unfolding list_ex_iff by (rule bexI [of _ "length s"]) auto
  then show ?thesis by simp
qed

lemma sql_like_escaped:
  "sql_like (escape_char c @ ps) s \<longleftrightarrow>
     (\<exists>x xs. s = x # xs \<and> lower_byte x = lower_byte c \<and> sql_like ps xs)"
  by (cases s) (auto simp: escape_char_def)

lemma sql_like_literal:
  "sql_like (escapeLike q @ ''%'') s \<longleftrightarrow> prefix (map lower_byte q) (map lower_byte s)"
proof (induction q arbitrary: s)
  case Nil
  then show ?case by (simp add: escapeLike_def sql_like_percent del: sql_like.simps)
next
  case (Cons c q)
  then show ?case
    by (cases s) (auto simp: escapeLike_Cons sql_like_escaped simp del: sql_like.simps)
qed

lemma sublist_prefix_drop: "sublist xs ys \<longleftrightarrow> (\<exists>k\<le>length ys. prefix xs (drop k ys))"
proof
  assume "sublist xs ys"
  then obtain ps ss where "ys = ps @ xs @ ss" by (auto simp: sublist_def)
  then show "\<exists>k\<le>length ys. prefix xs (drop k ys)" by (intro exI [of _ "length ps"]) auto
next
  assume "\<exists>k\<le>length ys. prefix xs (drop k ys)"
  then obtain k zs where "drop k ys = xs @ zs" by (auto simp: prefix_def)
  then have "ys = take k ys @ xs @ zs" by (metis append_take_drop_id)
  then show "sublist xs ys" by (metis sublist_appendI)
qed

lemma list_ex_upto: "list_ex P [0..<Suc n] \<longleftrightarrow> (\<exists>k\<le>n. P k)"
  by (auto simp: list_ex_iff less_Suc_eq_le simp del: upt_Suc)

lemma sql_like_contains: "sql_like (contains_pattern q) s \<longleftrightarrow> occurs_in q s"
proof -
  have "sql_like (contains_pattern q) s \<longleftrightarrow>
      (\<exists>k\<le>length s. sql_like (escapeLike q @ ''%'') (drop k s))"
    by (simp add: contains_pattern_def list_ex_upto del: upt_Suc)
  also have "\<dots> \<longleftrightarrow> (\<exists>k\<le>length s. prefix (map lower_byte q) (drop k (map lower_byte s)))"
    by (simp add: sql_like_literal drop_map)
  finally show ?thesis by (simp add: occurs_in_def sublist_prefix_drop)
qed

section \<open>Row order\<close>

text \<open>
  \<open>ORDER BY timestamp, id\<close> compares the timestamp first and the identifier, byte by byte,
  where two are equal.
\<close>

datatype row_order = RowOrder gotime string

instantiation row_order :: linorder
begin

fun less_eq_row_order :: "row_order \<Rightarrow> row_order \<Rightarrow> bool" where
  "less_eq_row_order (RowOrder t i) (RowOrder t' i') = (t < t' \<or> t = t' \<and> i \<le> i')"

definition less_row_order :: "row_order \<Rightarrow> row_order \<Rightarrow> bool" where
  "less_row_order a b \<longleftrightarrow> a \<le> b \<and> \<not> b \<le> (a :: row_order)"

instance
proof
  fix x y z :: row_order
  show "x < y \<longleftrightarrow> x \<le> y \<and> \<not> y \<le> x" by (rule less_row_order_def)
  show "x \<le> x" by (cases x) simp
  show "x \<le> y \<Longrightarrow> y \<le> z \<Longrightarrow> x \<le> z" by (cases x; cases y; cases z) auto
  show "x \<le> y \<Longrightarrow> y \<le> x \<Longrightarrow> x = y" by (cases x; cases y) auto
  show "x \<le> y \<or> y \<le> x" by (cases x; cases y) auto
qed

end

definition message_order :: "Message \<Rightarrow> row_order" where
  "message_order m = RowOrder (m_Timestamp m) (m_ID m)"

text \<open>\<open>ORDER BY k ASC\<close>, and \<open>ORDER BY k DESC LIMIT n\<close>.\<close>

definition order_asc :: "('a \<Rightarrow> 'k :: linorder) \<Rightarrow> 'a list \<Rightarrow> 'a list" where
  "order_asc k rows = sort_key k rows"

definition page_desc :: "('a \<Rightarrow> 'k :: linorder) \<Rightarrow> nat \<Rightarrow> 'a list \<Rightarrow> 'a list" where
  "page_desc k n rows = take n (rev (sort_key k rows))"

lemma set_order_asc [simp]: "set (order_asc k rows) = set rows"
  by (simp add: order_asc_def)

lemma sorted_order_asc: "sorted (map k (order_asc k rows))"
  by (simp add: order_asc_def)

lemma length_page_desc [simp]: "length (page_desc k n rows) = min n (length rows)"
  by (auto simp: page_desc_def)

lemma page_desc_subset: "set (page_desc k n rows) \<subseteq> set rows"
  using set_take_subset [of n "rev (sort_key k rows)"] by (simp add: page_desc_def)

lemma page_desc_sorted: "sorted_wrt (\<lambda>a b. k b \<le> k a) (page_desc k n rows)"
proof -
  have "sorted_wrt (\<lambda>a b. k a \<le> k b) (sort_key k rows)"
    using sorted_sort_key [of k rows] by (simp add: sorted_map)
  then have "sorted_wrt (\<lambda>a b. k b \<le> k a) (rev (sort_key k rows))" by (simp add: sorted_wrt_rev)
  then show ?thesis by (simp add: page_desc_def sorted_wrt_take)
qed

lemma page_desc_full: "length rows \<le> n \<Longrightarrow> set (page_desc k n rows) = set rows"
  by (simp add: page_desc_def)

text \<open>A row the limit cut off is no newer than any row the page holds.\<close>

lemma page_desc_complete:
  assumes "x \<in> set rows" and "x \<notin> set (page_desc k n rows)" and "y \<in> set (page_desc k n rows)"
  shows "k x \<le> k y"
proof -
  let ?r = "rev (sort_key k rows)"
  have "sorted_wrt (\<lambda>a b. k b \<le> k a) (take n ?r @ drop n ?r)"
    using page_desc_sorted [of k "length rows" rows] by (simp add: page_desc_def)
  moreover have "x \<in> set (take n ?r @ drop n ?r)"
    using assms(1) by simp
  with assms(2) have "x \<in> set (drop n ?r)" unfolding page_desc_def set_append by blast
  ultimately show ?thesis
    using assms(3) unfolding sorted_wrt_append page_desc_def by blast
qed

section \<open>Limits\<close>

definition defaultMessageLimit :: int where "defaultMessageLimit = 50"
definition maxMessageLimit :: int where "maxMessageLimit = 500"

definition normalizeLimit :: "int \<Rightarrow> int" where
  "normalizeLimit limit =
     (if limit \<le> 0 then defaultMessageLimit
      else if limit > maxMessageLimit then maxMessageLimit
      else limit)"

lemma normalizeLimit_bounds: "1 \<le> normalizeLimit n \<and> normalizeLimit n \<le> 500"
  by (auto simp: normalizeLimit_def defaultMessageLimit_def maxMessageLimit_def)

end
