(* ===== verification/ApiErr.thy ===== *)
theory ApiErr
  imports Scope
begin

text \<open>
  \<open>internal/apierr/apierr.go\<close> and the part of \<open>net/http\<close> the handlers write to. A response is
  the headers that were set, the status code and the body; a body is the JSON error shape,
  a payload of the surface that answers (\<open>'p\<close>), raw bytes, or nothing. An error message is
  literal text or the text of a scope error, kept as the error value it is printed from.
\<close>

datatype message = Msg string | ScopeMsg scope_error

datatype 'p body = ErrorBody string message | Payload 'p | Bytes string | NoBody

record 'p response =
  hdr :: "(string \<times> string) list"
  status :: nat
  rbody :: "'p body"

definition hdrSet :: "string \<Rightarrow> string \<Rightarrow> (string \<times> string) list \<Rightarrow> (string \<times> string) list" where
  "hdrSet k v h = (k, v) # filter (\<lambda>x. fst x \<noteq> k) h"

definition hdrGet :: "string \<Rightarrow> (string \<times> string) list \<Rightarrow> string" where
  "hdrGet k h = (case map_of h k of None \<Rightarrow> [] | Some v \<Rightarrow> v)"

lemma hdrGet_hdrSet [simp]: "hdrGet k (hdrSet k' v h) = (if k = k' then v else hdrGet k h)"
proof -
  have "map_of (filter (\<lambda>x. fst x \<noteq> k') h) k = map_of h k" if "k \<noteq> k'"
    using that by (induction h) auto
  then show ?thesis by (simp add: hdrGet_def hdrSet_def)
qed

section \<open>Error codes\<close>

definition CodeUnauthorized :: string where "CodeUnauthorized = ''unauthorized''"
definition CodeForbidden :: string where "CodeForbidden = ''forbidden''"
definition CodeNotFound :: string where "CodeNotFound = ''not_found''"
definition CodeInvalidRequest :: string where "CodeInvalidRequest = ''invalid_request''"
definition CodeConflict :: string where "CodeConflict = ''conflict''"
definition CodeInternal :: string where "CodeInternal = ''internal_error''"
definition CodeUnavailable :: string where "CodeUnavailable = ''unavailable''"
definition CodeGone :: string where "CodeGone = ''gone''"
definition CodeTooLarge :: string where "CodeTooLarge = ''too_large''"
definition CodeUnsupportedType :: string where "CodeUnsupportedType = ''unsupported_media_type''"

section \<open>Writing an error\<close>

definition Write :: "(string \<times> string) list \<Rightarrow> nat \<Rightarrow> string \<Rightarrow> message \<Rightarrow> 'p response" where
  "Write h st code msg =
     \<lparr>hdr = hdrSet ''Content-Type'' ''application/json'' h, status = st, rbody = ErrorBody code msg\<rparr>"

definition Unauthorized :: "string \<Rightarrow> 'p response" where
  "Unauthorized msg =
     Write (hdrSet ''WWW-Authenticate'' ''Bearer realm=\"whats-cloud-mcp\"'' []) 401 CodeUnauthorized (Msg msg)"

definition Forbidden :: "string \<Rightarrow> 'p response" where
  "Forbidden msg = Write [] 403 CodeForbidden (Msg msg)"

definition NotFound :: "string \<Rightarrow> 'p response" where
  "NotFound msg = Write [] 404 CodeNotFound (Msg msg)"

definition InvalidRequest :: "message \<Rightarrow> 'p response" where
  "InvalidRequest msg = Write [] 400 CodeInvalidRequest msg"

definition Internal :: "'p response" where
  "Internal = Write [] 500 CodeInternal (Msg ''internal error'')"

lemma status_Write [simp]:
  "status (Write h st code msg) = st"
  "status (Unauthorized m) = 401"
  "status (Forbidden m) = 403"
  "status (NotFound m) = 404"
  "status (InvalidRequest msg) = 400"
  "status Internal = 500"
  by (simp_all add: Write_def Unauthorized_def Forbidden_def NotFound_def InvalidRequest_def Internal_def)

lemma rbody_Write [simp]: "rbody (Write h st code msg) = ErrorBody code msg"
  by (simp add: Write_def)

end
