(* ===== verification/TenantRepo.thy ===== *)
theory TenantRepo
  imports Sql
begin

text \<open>
  \<open>internal/store/tenant_repo.go\<close>. A statement the driver refuses, for a violated constraint
  or for a reason of its own, changes nothing; the error carries the text the code wraps it
  in.
\<close>

definition tenant_Create :: "env \<Rightarrow> Tenant \<Rightarrow> db \<Rightarrow> store_error option \<times> db" where
  "tenant_Create E t d =
     (if t_ID t = [] then (Some (StoreError ''store: tenant id is required''), d)
      else
        (let t' = (if IsZero (t_CreatedAt t) then t\<lparr>t_CreatedAt := nowAt E 0\<rparr> else t) in
         if fault E 0 \<or> tenant_exists d (t_ID t') then (Some (StoreError ''store: create tenant''), d)
         else (None, d\<lparr>tenants := tenants d @ [t']\<rparr>)))"

definition tenant_Get :: "env \<Rightarrow> string \<Rightarrow> db \<Rightarrow> store_error + Tenant" where
  "tenant_Get E i d =
     (if fault E 0 then Inl (StoreError ''store: get tenant'')
      else case find (\<lambda>t. t_ID t = i) (tenants d) of
        None \<Rightarrow> Inl ErrNotFound
      | Some t \<Rightarrow> Inr t)"

definition tenant_List :: "env \<Rightarrow> db \<Rightarrow> store_error + Tenant list" where
  "tenant_List E d =
     (if fault E 0 then Inl (StoreError ''store: list tenants'')
      else if fault E 1 then Inl (StoreError ''store: scan tenant'')
      else Inr (order_asc (\<lambda>t. RowOrder (t_CreatedAt t) (t_ID t)) (tenants d)))"

lemma tenant_Create_frame [store_frame]:
  "tenant_Create E t d = (e, d') \<Longrightarrow>
   api_keys d' = api_keys d \<and> sessions d' = sessions d \<and> messages d' = messages d \<and>
   chats d' = chats d \<and> lid_map d' = lid_map d \<and> lidMap d' = lidMap d"
  by (auto simp: tenant_Create_def Let_def split: if_splits)

lemma tenant_Create_ok:
  "tenant_Create E t d = (None, d') \<longleftrightarrow>
     t_ID t \<noteq> [] \<and> \<not> fault E 0 \<and> \<not> tenant_exists d (t_ID t) \<and>
     d' = d\<lparr>tenants := tenants d @ [if IsZero (t_CreatedAt t) then t\<lparr>t_CreatedAt := nowAt E 0\<rparr> else t]\<rparr>"
  by (auto simp: tenant_Create_def Let_def)

lemma tenant_Create_error: "tenant_Create E t d = (Some e, d') \<Longrightarrow> d' = d"
  by (auto simp: tenant_Create_def Let_def split: if_splits)

lemma tenant_Get_not_found:
  "tenant_Get E i d = Inl ErrNotFound \<longleftrightarrow> \<not> fault E 0 \<and> \<not> tenant_exists d i"
  by (auto simp: tenant_Get_def find_None_iff split: option.splits dest: find_SomeD)

lemma tenant_Get_found: "tenant_Get E i d = Inr t \<Longrightarrow> t \<in> set (tenants d) \<and> t_ID t = i"
  by (auto simp: tenant_Get_def split: if_splits option.splits dest: find_SomeD)

end
