(* ===== verification/ApiKeyRepo.thy ===== *)
theory ApiKeyRepo
  imports TenantRepo
begin

text \<open>
  \<open>internal/store/apikey_repo.go\<close>. A key row keeps the digest and the scopes as text; a revoked
  row stays in the table and is never found by its digest again.
\<close>

section \<open>Definitions\<close>

definition scanAPIKey :: "api_key_row \<Rightarrow> APIKey" where
  "scanAPIKey r =
     \<lparr>k_ID = kr_ID r, k_TenantID = kr_TenantID r, k_Name = kr_Name r, k_KeyHash = kr_KeyHash r,
      k_KeyPrefix = kr_KeyPrefix r, k_Scopes = ParseScopes (kr_Scopes r), k_CreatedAt = kr_CreatedAt r,
      k_LastUsedAt = kr_LastUsedAt r, k_RevokedAt = kr_RevokedAt r\<rparr>"

definition key_row :: "APIKey \<Rightarrow> gotime \<Rightarrow> api_key_row" where
  "key_row k created =
     \<lparr>kr_ID = k_ID k, kr_TenantID = k_TenantID k, kr_Name = k_Name k, kr_KeyHash = k_KeyHash k,
      kr_KeyPrefix = k_KeyPrefix k, kr_Scopes = FormatScopes (k_Scopes k), kr_CreatedAt = created,
      kr_LastUsedAt = None, kr_RevokedAt = None\<rparr>"

definition apikey_Create :: "env \<Rightarrow> APIKey \<Rightarrow> db \<Rightarrow> store_error option \<times> db" where
  "apikey_Create E k d =
     (if k_ID k = [] then (Some (StoreError ''store: api key id is required''), d)
      else if k_TenantID k = [] then (Some (StoreError ''store: api key tenant id is required''), d)
      else if k_KeyHash k = [] then (Some (StoreError ''store: api key hash is required''), d)
      else
        (let created = (if IsZero (k_CreatedAt k) then nowAt E 0 else k_CreatedAt k) in
         if fault E 0 \<or> k_ID k \<in> kr_ID ` set (api_keys d) \<or> k_KeyHash k \<in> kr_KeyHash ` set (api_keys d) \<or>
            \<not> tenant_exists d (k_TenantID k)
         then (Some (StoreError ''store: create api key''), d)
         else (None, d\<lparr>api_keys := api_keys d @ [key_row k created]\<rparr>)))"

definition apikey_GetByHash :: "env \<Rightarrow> string \<Rightarrow> db \<Rightarrow> store_error + APIKey" where
  "apikey_GetByHash E keyHash d =
     (if keyHash = [] then Inl ErrNotFound
      else if fault E 0 then Inl (StoreError ''store: get api key'')
      else case find (\<lambda>r. kr_KeyHash r = keyHash \<and> kr_RevokedAt r = None) (api_keys d) of
        None \<Rightarrow> Inl ErrNotFound
      | Some r \<Rightarrow> Inr (scanAPIKey r))"

definition apikey_ListByTenant :: "env \<Rightarrow> string \<Rightarrow> db \<Rightarrow> store_error + APIKey list" where
  "apikey_ListByTenant E tenantID d =
     (if fault E 0 then Inl (StoreError ''store: list api keys'')
      else if fault E 1 then Inl (StoreError ''store: scan api key'')
      else Inr (map scanAPIKey
        (order_asc (\<lambda>r. RowOrder (kr_CreatedAt r) (kr_ID r))
          (filter (\<lambda>r. kr_TenantID r = tenantID) (api_keys d)))))"

definition revoke_matches :: "string \<Rightarrow> string \<Rightarrow> api_key_row \<Rightarrow> bool" where
  "revoke_matches tenantID keyID r \<longleftrightarrow>
     kr_ID r = keyID \<and> kr_TenantID r = tenantID \<and> kr_RevokedAt r = None"

definition revoked_rows :: "string \<Rightarrow> string \<Rightarrow> gotime \<Rightarrow> api_key_row list \<Rightarrow> api_key_row list" where
  "revoked_rows tenantID keyID t rows =
     map (\<lambda>r. if revoke_matches tenantID keyID r then r\<lparr>kr_RevokedAt := Some t\<rparr> else r) rows"

definition apikey_Revoke :: "env \<Rightarrow> string \<Rightarrow> string \<Rightarrow> db \<Rightarrow> store_error option \<times> db" where
  "apikey_Revoke E tenantID keyID d =
     (if fault E 0 then (Some (StoreError ''store: revoke api key''), d)
      else
        (let hits = filter (revoke_matches tenantID keyID) (api_keys d);
             d' = d\<lparr>api_keys := revoked_rows tenantID keyID (nowAt E 0) (api_keys d)\<rparr>
         in if fault E 1 then (Some (StoreError ''store: revoke api key''), d')
            else if hits = [] then (Some ErrNotFound, d')
            else (None, d')))"

definition apikey_MarkUsed :: "env \<Rightarrow> string \<Rightarrow> db \<Rightarrow> store_error option \<times> db" where
  "apikey_MarkUsed E keyID d =
     (if fault E 0 then (Some (StoreError ''store: mark api key used''), d)
      else (None, d\<lparr>api_keys := map (\<lambda>r. if kr_ID r = keyID
                                           then r\<lparr>kr_LastUsedAt := Some (nowAt E 0)\<rparr> else r) (api_keys d)\<rparr>))"

section \<open>Live keys\<close>

text \<open>The abstraction of the table: which scanned key a digest stands for.\<close>

definition live_key :: "db \<Rightarrow> string \<Rightarrow> APIKey option" where
  "live_key d h =
     (if h = [] then None
      else map_option scanAPIKey (find (\<lambda>r. kr_KeyHash r = h \<and> kr_RevokedAt r = None) (api_keys d)))"

lemma apikey_GetByHash_live:
  "apikey_GetByHash E h d = Inr k \<Longrightarrow> live_key d h = Some k"
  "apikey_GetByHash E h d = Inl ErrNotFound \<Longrightarrow> live_key d h = None"
  "\<not> fault E 0 \<Longrightarrow> live_key d h = Some k \<Longrightarrow> apikey_GetByHash E h d = Inr k"
  by (auto simp: apikey_GetByHash_def live_key_def split: if_splits option.splits)

lemma live_key_unique:
  assumes "distinct (map kr_KeyHash (api_keys d))" and "r \<in> set (api_keys d)" and "kr_KeyHash r \<noteq> []"
  shows "live_key d (kr_KeyHash r) = (if kr_RevokedAt r = None then Some (scanAPIKey r) else None)"
proof -
  have same: "r' = r" if "r' \<in> set (api_keys d)" "kr_KeyHash r' = kr_KeyHash r" for r'
    using assms(1,2) that by (auto simp: distinct_map inj_on_def)
  show ?thesis
  proof (cases "find (\<lambda>x. kr_KeyHash x = kr_KeyHash r \<and> kr_RevokedAt x = None) (api_keys d)")
    case None
    with assms(2,3) show ?thesis by (auto simp: live_key_def find_None_iff)
  next
    case (Some x)
    then have "x \<in> set (api_keys d)" "kr_KeyHash x = kr_KeyHash r" "kr_RevokedAt x = None"
      by (auto dest: find_SomeD)
    with same have "x = r" by blast
    with Some \<open>kr_RevokedAt x = None\<close> assms(3) show ?thesis by (auto simp: live_key_def)
  qed
qed

lemma live_key_tenant:
  "live_key d h = Some k \<Longrightarrow> \<exists>r\<in>set (api_keys d). k = scanAPIKey r \<and> kr_KeyHash r = h \<and> kr_RevokedAt r = None"
  by (auto simp: live_key_def split: if_splits dest: find_SomeD)

section \<open>Frames\<close>

lemma apikey_Create_frame [store_frame]:
  "apikey_Create E k d = (e, d') \<Longrightarrow>
   tenants d' = tenants d \<and> sessions d' = sessions d \<and> messages d' = messages d \<and>
   chats d' = chats d \<and> lid_map d' = lid_map d \<and> lidMap d' = lidMap d"
  by (auto simp: apikey_Create_def Let_def split: if_splits)

lemma apikey_Revoke_frame [store_frame]:
  "apikey_Revoke E t k d = (e, d') \<Longrightarrow>
   tenants d' = tenants d \<and> sessions d' = sessions d \<and> messages d' = messages d \<and>
   chats d' = chats d \<and> lid_map d' = lid_map d \<and> lidMap d' = lidMap d"
  by (auto simp: apikey_Revoke_def Let_def split: if_splits)

lemma apikey_MarkUsed_frame [store_frame]:
  "apikey_MarkUsed E k d = (e, d') \<Longrightarrow>
   tenants d' = tenants d \<and> sessions d' = sessions d \<and> messages d' = messages d \<and>
   chats d' = chats d \<and> lid_map d' = lid_map d \<and> lidMap d' = lidMap d"
  by (auto simp: apikey_MarkUsed_def split: if_splits)

section \<open>The life of a key\<close>

lemma apikey_Create_ok:
  assumes "apikey_Create E k d = (None, d')"
  shows "\<exists>created. api_keys d' = api_keys d @ [key_row k created]"
    and "k_KeyHash k \<noteq> []" and "k_ID k \<notin> kr_ID ` set (api_keys d)"
    and "k_KeyHash k \<notin> kr_KeyHash ` set (api_keys d)" and "tenant_exists d (k_TenantID k)"
    and "k_ID k \<noteq> []" and "k_TenantID k \<noteq> []"
  using assms by (auto simp: apikey_Create_def Let_def split: if_splits)

lemma apikey_Create_error: "apikey_Create E k d = (Some e, d') \<Longrightarrow> d' = d"
  by (auto simp: apikey_Create_def Let_def split: if_splits)

lemma live_key_created:
  assumes "apikey_Create E k d = (None, d')"
  shows "\<exists>created. live_key d' (k_KeyHash k) = Some (scanAPIKey (key_row k created))"
proof -
  obtain created where rows: "api_keys d' = api_keys d @ [key_row k created]"
    using apikey_Create_ok(1) [OF assms] by blast
  have "find (\<lambda>r. kr_KeyHash r = k_KeyHash k \<and> kr_RevokedAt r = None) (api_keys d) = None"
    using apikey_Create_ok(4) [OF assms] by (force simp: find_None_iff)
  then have "live_key d' (k_KeyHash k) = Some (scanAPIKey (key_row k created))"
    using rows apikey_Create_ok(2) [OF assms] by (simp add: live_key_def find_append key_row_def)
  then show ?thesis by blast
qed

lemma live_key_create_other:
  assumes "apikey_Create E k d = (e, d')" and "h \<noteq> k_KeyHash k"
  shows "live_key d' h = live_key d h"
proof (cases e)
  case None
  then obtain created where "api_keys d' = api_keys d @ [key_row k created]"
    using apikey_Create_ok(1) assms(1) by blast
  with assms(2) show ?thesis by (simp add: live_key_def find_append key_row_def split: option.split)
next
  case (Some x)
  with assms show ?thesis using apikey_Create_error by blast
qed

lemma live_key_MarkUsed:
  assumes "apikey_MarkUsed E i d = (e, d')"
  shows "map_option (\<lambda>k. k\<lparr>k_LastUsedAt := None\<rparr>) (live_key d' h) =
         map_option (\<lambda>k. k\<lparr>k_LastUsedAt := None\<rparr>) (live_key d h)"
proof -
  let ?f = "\<lambda>r. if kr_ID r = i then r\<lparr>kr_LastUsedAt := Some (nowAt E 0)\<rparr> else r"
  have fm: "find (\<lambda>r. kr_KeyHash r = h \<and> kr_RevokedAt r = None) (map ?f (api_keys d)) =
        map_option ?f (find (\<lambda>r. kr_KeyHash r = h \<and> kr_RevokedAt r = None) (api_keys d))"
    by (rule find_map_keep) simp
  show ?thesis
  proof (cases "fault E 0")
    case False
    then have "d' = d\<lparr>api_keys := map ?f (api_keys d)\<rparr>" using assms by (auto simp: apikey_MarkUsed_def)
    then show ?thesis using fm
      by (cases "find (\<lambda>r. kr_KeyHash r = h \<and> kr_RevokedAt r = None) (api_keys d)")
         (auto simp: live_key_def scanAPIKey_def)
  qed (use assms in \<open>auto simp: apikey_MarkUsed_def\<close>)
qed

text \<open>A revocation that succeeds kills exactly the key it names.\<close>

lemma revoked_rows_none:
  "\<forall>r\<in>set rows. \<not> revoke_matches t i r \<Longrightarrow> revoked_rows t i now rows = rows"
  unfolding revoked_rows_def by (rule map_idI) auto

lemma apikey_Revoke_rows:
  assumes "apikey_Revoke E t i d = (e, d')"
  shows "d' = (if fault E 0 then d else d\<lparr>api_keys := revoked_rows t i (nowAt E 0) (api_keys d)\<rparr>)"
  using assms by (auto simp: apikey_Revoke_def Let_def split: if_splits)

lemma apikey_Revoke_nothing:
  assumes "apikey_Revoke E t i d = (e, d')" and "\<forall>r\<in>set (api_keys d). \<not> revoke_matches t i r"
  shows "d' = d"
  using apikey_Revoke_rows [OF assms(1)] revoked_rows_none [OF assms(2)] by simp

lemma apikey_Revoke_ErrNotFound:
  assumes "apikey_Revoke E t i d = (Some ErrNotFound, d')"
  shows "d' = d \<and> (\<forall>r\<in>set (api_keys d). \<not> revoke_matches t i r)"
proof -
  have "\<forall>r\<in>set (api_keys d). \<not> revoke_matches t i r"
    using assms by (auto simp: apikey_Revoke_def Let_def filter_empty_conv split: if_splits)
  with apikey_Revoke_nothing [OF assms] show ?thesis by blast
qed

lemma apikey_Revoke_ok:
  assumes "apikey_Revoke E t i d = (None, d')"
  shows "\<not> fault E 0" and "\<exists>r\<in>set (api_keys d). revoke_matches t i r"
    and "d' = d\<lparr>api_keys := revoked_rows t i (nowAt E 0) (api_keys d)\<rparr>"
  using assms by (auto simp: apikey_Revoke_def Let_def filter_empty_conv split: if_splits)

text \<open>Per row: a revocation changes no column but \<open>revoked_at\<close>, and that one only from NULL.\<close>

definition key_row_step :: "api_key_row \<Rightarrow> api_key_row \<Rightarrow> bool" where
  "key_row_step r r' \<longleftrightarrow>
     kr_ID r' = kr_ID r \<and> kr_TenantID r' = kr_TenantID r \<and> kr_Name r' = kr_Name r \<and>
     kr_KeyHash r' = kr_KeyHash r \<and> kr_KeyPrefix r' = kr_KeyPrefix r \<and> kr_Scopes r' = kr_Scopes r \<and>
     kr_CreatedAt r' = kr_CreatedAt r \<and> (kr_RevokedAt r \<noteq> None \<longrightarrow> kr_RevokedAt r' = kr_RevokedAt r)"

lemma key_row_step_refl [simp]: "key_row_step r r"
  by (simp add: key_row_step_def)

lemma key_row_step_trans: "key_row_step a b \<Longrightarrow> key_row_step b c \<Longrightarrow> key_row_step a c"
  by (auto simp: key_row_step_def)

lemma revoked_rows_step: "list_all2 key_row_step rows (revoked_rows t i now rows)"
  by (auto simp: revoked_rows_def list_all2_conv_all_nth key_row_step_def revoke_matches_def)

lemma apikey_Revoke_step: "apikey_Revoke E t i d = (e, d') \<Longrightarrow> list_all2 key_row_step (api_keys d) (api_keys d')"
  by (drule apikey_Revoke_rows) (simp add: revoked_rows_step list.rel_refl)

lemma apikey_MarkUsed_step:
  "apikey_MarkUsed E i d = (e, d') \<Longrightarrow> list_all2 key_row_step (api_keys d) (api_keys d')"
  by (cases "fault E 0")
     (auto simp: apikey_MarkUsed_def list_all2_conv_all_nth key_row_step_def)

text \<open>What a successful revocation leaves of the table of live keys.\<close>

lemma live_key_revoked_row:
  assumes uniq: "distinct (map kr_KeyHash (api_keys d))"
    and r: "r \<in> set (api_keys d)" "kr_RevokedAt r \<noteq> None"
  shows "live_key d (kr_KeyHash r) = None"
  using live_key_unique [OF uniq r(1)] r(2) by (auto simp: live_key_def)

lemma distinct_step:
  assumes "list_all2 key_row_step rows rows'"
  shows "map kr_KeyHash rows' = map kr_KeyHash rows" and "map kr_ID rows' = map kr_ID rows"
    and "map kr_TenantID rows' = map kr_TenantID rows"
  using assms by (induction rule: list_all2_induct) (auto simp: key_row_step_def)

lemma live_key_Revoke_other:
  assumes "apikey_Revoke E t i d = (e, d')"
    and other: "\<And>r. r \<in> set (api_keys d) \<Longrightarrow> revoke_matches t i r \<Longrightarrow> kr_KeyHash r \<noteq> h"
  shows "live_key d' h = live_key d h"
proof -
  have "find (\<lambda>r. kr_KeyHash r = h \<and> kr_RevokedAt r = None) (revoked_rows t i now rows) =
        find (\<lambda>r. kr_KeyHash r = h \<and> kr_RevokedAt r = None) rows"
    if "\<And>r. r \<in> set rows \<Longrightarrow> revoke_matches t i r \<Longrightarrow> kr_KeyHash r \<noteq> h" for now rows
    using that by (induction rows) (auto simp: revoked_rows_def)
  with other apikey_Revoke_rows [OF assms(1)] show ?thesis by (simp add: live_key_def)
qed

end
