(* ===== verification/SessionRepo.thy ===== *)
theory SessionRepo
  imports Sql
begin

text \<open>
  \<open>internal/store/session_repo.go\<close>: one WhatsApp session per tenant. The table's unique
  \<open>tenant_id\<close> is what \<open>ON CONFLICT (tenant_id) DO NOTHING\<close> reacts to, so two callers that both
  find no session end with one row.
\<close>

section \<open>Definitions\<close>

text \<open>A scanned row: an empty \<open>wa_jid\<close> reads like a missing one.\<close>

definition scanSession :: "Session \<Rightarrow> Session" where
  "scanSession r =
     r\<lparr>s_WAJID := (case s_WAJID r of None \<Rightarrow> None | Some j \<Rightarrow> if j \<noteq> [] then Some j else None)\<rparr>"

definition session_GetByTenant :: "env \<Rightarrow> string \<Rightarrow> db \<Rightarrow> store_error + Session" where
  "session_GetByTenant E tenantID d =
     (if fault E 0 then Inl (StoreError ''store: get session'')
      else case find (\<lambda>r. s_TenantID r = tenantID) (sessions d) of
        None \<Rightarrow> Inl ErrNotFound
      | Some r \<Rightarrow> Inr (scanSession r))"

text \<open>The statement of \<open>EnsureForTenant\<close>; \<open>None\<close> is a refused statement.\<close>

definition insert_session :: "Session \<Rightarrow> db \<Rightarrow> db option" where
  "insert_session s d =
     (if s_TenantID s \<in> s_TenantID ` set (sessions d) then Some d
      else if s_ID s \<in> s_ID ` set (sessions d) \<or> \<not> tenant_exists d (s_TenantID s) then None
      else Some (d\<lparr>sessions := sessions d @ [s]\<rparr>))"

definition session_EnsureForTenant :: "env \<Rightarrow> string \<Rightarrow> db \<Rightarrow> (store_error + Session) \<times> db" where
  "session_EnsureForTenant E tenantID d =
     (case session_GetByTenant E tenantID d of
        Inr existing \<Rightarrow> (Inr existing, d)
      | Inl (StoreError e) \<Rightarrow> (Inl (StoreError e), d)
      | Inl ErrNotFound \<Rightarrow>
          (let now = nowAt E 0;
               session = \<lparr>s_ID = NewID E 0, s_TenantID = tenantID, s_WAJID = None,
                          s_Status = SessionPending, s_CreatedAt = now, s_UpdatedAt = now\<rparr>
           in if fault E 1 then (Inl (StoreError ''store: create session''), d)
              else case insert_session session d of
                None \<Rightarrow> (Inl (StoreError ''store: create session''), d)
              | Some d' \<Rightarrow> (session_GetByTenant (later 2 E) tenantID d', d')))"

text \<open>The two UPDATE statements: an empty JID keeps the one the row has.\<close>

definition session_set :: "string \<Rightarrow> string \<Rightarrow> string \<Rightarrow> gotime \<Rightarrow> Session \<Rightarrow> Session" where
  "session_set tenantID status waJID now r =
     (if s_TenantID r \<noteq> tenantID then r
      else if waJID = [] then r\<lparr>s_Status := status, s_UpdatedAt := now\<rparr>
      else r\<lparr>s_Status := status, s_WAJID := Some waJID, s_UpdatedAt := now\<rparr>)"

definition session_UpdateStatus ::
  "env \<Rightarrow> string \<Rightarrow> string \<Rightarrow> string \<Rightarrow> db \<Rightarrow> store_error option \<times> db" where
  "session_UpdateStatus E tenantID status waJID d =
     (case SessionStatus_validate status of
        Some e \<Rightarrow> (Some e, d)
      | None \<Rightarrow>
          if fault E 0 then (Some (StoreError ''store: update session status''), d)
          else
            (let d' = d\<lparr>sessions := map (session_set tenantID status waJID (nowAt E 0)) (sessions d)\<rparr>
             in if fault E 1 then (Some (StoreError ''store: update session status''), d')
                else if filter (\<lambda>r. s_TenantID r = tenantID) (sessions d) = [] then (Some ErrNotFound, d')
                else (None, d')))"

definition session_List :: "env \<Rightarrow> db \<Rightarrow> store_error + Session list" where
  "session_List E d =
     (if fault E 0 then Inl (StoreError ''store: list sessions'')
      else if fault E 1 then Inl (StoreError ''store: scan session'')
      else Inr (map scanSession (order_asc (\<lambda>s. RowOrder (s_CreatedAt s) (s_ID s)) (sessions d))))"

section \<open>What the operations leave alone\<close>

lemma insert_session_frame:
  "insert_session s d = Some d' \<Longrightarrow> \<exists>ss. d' = d\<lparr>sessions := ss\<rparr>"
  by (auto simp: insert_session_def split: if_splits intro: exI [of _ "sessions d"])

lemma session_EnsureForTenant_db:
  "session_EnsureForTenant E t d = (r, d') \<Longrightarrow> \<exists>ss. d' = d\<lparr>sessions := ss\<rparr>"
  by (auto simp: session_EnsureForTenant_def Let_def dest: insert_session_frame
      split: sum.splits store_error.splits if_splits option.splits intro: exI [of _ "sessions d"])

lemma session_UpdateStatus_db:
  "session_UpdateStatus E t st j d = (e, d') \<Longrightarrow>
   d' = d \<or> d' = d\<lparr>sessions := map (session_set t st j (nowAt E 0)) (sessions d)\<rparr> \<and> SessionStatus_Valid st"
  by (auto simp: session_UpdateStatus_def SessionStatus_validate_def Let_def
      split: option.splits if_splits)

lemma session_EnsureForTenant_frame [store_frame]:
  "session_EnsureForTenant E t d = (r, d') \<Longrightarrow>
   tenants d' = tenants d \<and> api_keys d' = api_keys d \<and> messages d' = messages d \<and>
   chats d' = chats d \<and> lid_map d' = lid_map d \<and> lidMap d' = lidMap d"
  by (drule session_EnsureForTenant_db) auto

lemma session_UpdateStatus_frame [store_frame]:
  "session_UpdateStatus E t st j d = (e, d') \<Longrightarrow>
   tenants d' = tenants d \<and> api_keys d' = api_keys d \<and> messages d' = messages d \<and>
   chats d' = chats d \<and> lid_map d' = lid_map d \<and> lidMap d' = lidMap d"
  by (drule session_UpdateStatus_db) auto

section \<open>Behaviour\<close>

lemma session_set_simps [simp]:
  "s_ID (session_set t st j now r) = s_ID r"
  "s_TenantID (session_set t st j now r) = s_TenantID r"
  by (simp_all add: session_set_def)

lemma find_session_append:
  "t \<notin> s_TenantID ` set ss \<Longrightarrow>
   find (\<lambda>r. s_TenantID r = t) (ss @ [s]) = (if s_TenantID s = t then Some s else None)"
  by (induction ss) auto

lemma session_GetByTenant_found:
  "session_GetByTenant E t d = Inr s \<Longrightarrow> \<exists>r\<in>set (sessions d). s = scanSession r \<and> s_TenantID r = t"
  by (auto simp: session_GetByTenant_def split: if_splits option.splits dest: find_SomeD)

lemma session_GetByTenant_missing:
  "session_GetByTenant E t d = Inl ErrNotFound \<longleftrightarrow> \<not> fault E 0 \<and> t \<notin> s_TenantID ` set (sessions d)"
  by (force simp: session_GetByTenant_def find_None_iff split: option.splits dest: find_SomeD)

text \<open>A second call finds what the first one returned and writes nothing.\<close>

lemma session_Ensure_again:
  assumes "session_EnsureForTenant E t d = (Inr s, d')" and "\<not> fault E' 0"
  shows "session_EnsureForTenant E' t d' = (Inr s, d')"
proof -
  have "session_GetByTenant E'' t d' = Inr s" if "\<not> fault E'' 0" for E''
    using assms(1) that
    by (auto simp: session_EnsureForTenant_def session_GetByTenant_def Let_def
        split: sum.splits store_error.splits if_splits option.splits)
  with assms(2) show ?thesis by (simp add: session_EnsureForTenant_def)
qed

lemma session_Ensure_kept:
  assumes "session_EnsureForTenant E t d = (r, d')" and "t \<in> s_TenantID ` set (sessions d)"
  shows "d' = d"
  using assms session_GetByTenant_missing [of E t d]
  by (auto simp: session_EnsureForTenant_def split: sum.splits store_error.splits)

lemma session_Ensure_creates:
  assumes "t \<notin> s_TenantID ` set (sessions d)" and "tenant_exists d t"
    and "fresh E 0 \<notin> s_ID ` set (sessions d)" and "\<forall>i. \<not> fault E i"
  shows "session_EnsureForTenant E t d =
     (let s = \<lparr>s_ID = fresh E 0, s_TenantID = t, s_WAJID = None, s_Status = SessionPending,
               s_CreatedAt = nowAt E 0, s_UpdatedAt = nowAt E 0\<rparr>
      in (Inr s, d\<lparr>sessions := sessions d @ [s]\<rparr>))"
  using assms session_GetByTenant_missing [of E t d]
  by (simp add: session_EnsureForTenant_def insert_session_def session_GetByTenant_def
      find_session_append scanSession_def Let_def NewID_def)

end
