(* ===== verification/ChatRepo.thy ===== *)
theory ChatRepo
  imports Sql
begin

text \<open>
  \<open>internal/store/chat_repo.go\<close>: the cached names of conversations, one row per tenant and
  chat. The primary key is the conflict target of the upsert, so the only constraint that
  can refuse it is the reference to the tenant.
\<close>

section \<open>Definitions\<close>

text \<open>\<open>DO UPDATE SET name = excluded.name, updated_at = excluded.updated_at\<close>.\<close>

definition rename_chat :: "string \<Rightarrow> string \<Rightarrow> string \<Rightarrow> gotime \<Rightarrow> chat_row \<Rightarrow> chat_row" where
  "rename_chat tenantID chatJID name now r =
     (if cr_TenantID r = tenantID \<and> cr_ChatJID r = chatJID then r\<lparr>cr_Name := name, cr_UpdatedAt := now\<rparr> else r)"

definition upsertChat :: "string \<Rightarrow> string \<Rightarrow> string \<Rightarrow> gotime \<Rightarrow> db \<Rightarrow> db option" where
  "upsertChat tenantID chatJID name now d =
     (if \<not> tenant_exists d tenantID then None
      else if list_ex (\<lambda>r. cr_TenantID r = tenantID \<and> cr_ChatJID r = chatJID) (chats d)
        then Some (d\<lparr>chats := map (rename_chat tenantID chatJID name now) (chats d)\<rparr>)
      else Some (d\<lparr>chats := chats d @ [\<lparr>cr_TenantID = tenantID, cr_ChatJID = chatJID,
                                          cr_Name = name, cr_UpdatedAt = now\<rparr>]\<rparr>))"

definition chat_Upsert :: "env \<Rightarrow> string \<Rightarrow> NamedChat \<Rightarrow> db \<Rightarrow> store_error option \<times> db" where
  "chat_Upsert E tenantID chat d =
     (let name = TrimSpace (n_Name chat) in
      if name = [] then (None, d)
      else if fault E 0 then (Some (StoreError ''store: upsert chat name''), d)
      else case upsertChat tenantID (n_ChatJID chat) name (nowAt E 0) d of
        None \<Rightarrow> (Some (StoreError ''store: upsert chat name''), d)
      | Some d' \<Rightarrow> (None, d'))"

fun upsert_all :: "env \<Rightarrow> nat \<Rightarrow> string \<Rightarrow> gotime \<Rightarrow> NamedChat list \<Rightarrow> db \<Rightarrow> db option" where
  "upsert_all E i tenantID now [] d = Some d"
| "upsert_all E i tenantID now (chat # cs) d =
     (let name = TrimSpace (n_Name chat) in
      if name = [] then upsert_all E (Suc i) tenantID now cs d
      else if fault E i then None
      else case upsertChat tenantID (n_ChatJID chat) name now d of
        None \<Rightarrow> None
      | Some d' \<Rightarrow> upsert_all E (Suc i) tenantID now cs d')"

definition chat_UpsertBatch :: "env \<Rightarrow> string \<Rightarrow> NamedChat list \<Rightarrow> db \<Rightarrow> store_error option \<times> db" where
  "chat_UpsertBatch E tenantID cs d =
     (if cs = [] then (None, d)
      else if fault E 0 then (Some (StoreError ''store: begin chat name batch''), d)
      else if fault E 1 then (Some (StoreError ''store: prepare chat name batch''), d)
      else case upsert_all E 3 tenantID (nowAt E 0) cs d of
        None \<Rightarrow> (Some (StoreError ''store: upsert chat name''), d)
      | Some d' \<Rightarrow>
          if fault E 2 then (Some (StoreError ''store: commit chat name batch''), d) else (None, d'))"

text \<open>SQLite's \<open>lower\<close> folds ASCII letters only; \<open>ORDER BY name ASC, chat_jid ASC\<close>.\<close>

definition chat_Search ::
  "env \<Rightarrow> string \<Rightarrow> string \<Rightarrow> int \<Rightarrow> db \<Rightarrow> store_error + NamedChat list" where
  "chat_Search E tenantID query limit d =
     (if TrimSpace query = [] then Inr []
      else if fault E 0 then Inl (StoreError ''store: search chat names'')
      else if fault E 1 then Inl (StoreError ''store: scan chat name'')
      else Inr (map (\<lambda>r. \<lparr>n_ChatJID = cr_ChatJID r, n_Name = cr_Name r\<rparr>)
        (take (nat (normalizeLimit limit))
          (order_asc (\<lambda>r. (cr_Name r, cr_ChatJID r))
            (filter (\<lambda>r. cr_TenantID r = tenantID \<and>
                sql_like (map lower_byte (contains_pattern (TrimSpace query))) (map lower_byte (cr_Name r)))
              (chats d))))))"

section \<open>The stored name of a conversation\<close>

definition chat_name :: "db \<Rightarrow> string \<Rightarrow> string \<Rightarrow> string option" where
  "chat_name d tenantID chatJID =
     map_option cr_Name (find (\<lambda>r. cr_TenantID r = tenantID \<and> cr_ChatJID r = chatJID) (chats d))"

definition put_name :: "NamedChat \<Rightarrow> (string \<rightharpoonup> string) \<Rightarrow> (string \<rightharpoonup> string)" where
  "put_name chat m =
     (if TrimSpace (n_Name chat) = [] then m else m(n_ChatJID chat \<mapsto> TrimSpace (n_Name chat)))"

lemma upsertChat_name:
  assumes "upsertChat t c n now d = Some d'"
  shows "chat_name d' t' c' = (if t' = t \<and> c' = c then Some n else chat_name d t' c')"
proof (cases "list_ex (\<lambda>r. cr_TenantID r = t \<and> cr_ChatJID r = c) (chats d)")
  case True
  let ?f = "rename_chat t c n now"
  have fm: "find (\<lambda>r. cr_TenantID r = t' \<and> cr_ChatJID r = c') (map ?f (chats d)) =
        map_option ?f (find (\<lambda>r. cr_TenantID r = t' \<and> cr_ChatJID r = c') (chats d))"
    by (rule find_map_keep) (simp add: rename_chat_def)
  have d': "d' = d\<lparr>chats := map ?f (chats d)\<rparr>"
    using assms True by (simp add: upsertChat_def split: if_splits)
  obtain r where "find (\<lambda>r. cr_TenantID r = t \<and> cr_ChatJID r = c) (chats d) = Some r"
    using True by (metis (mono_tags, lifting) find_None_iff list_ex_iff option.exhaust)
  then show ?thesis
    using fm
    by (cases "find (\<lambda>r. cr_TenantID r = t' \<and> cr_ChatJID r = c') (chats d)")
       (auto simp: chat_name_def d' rename_chat_def dest: find_SomeD)
next
  case False
  then have "find (\<lambda>r. cr_TenantID r = t \<and> cr_ChatJID r = c) (chats d) = None"
    by (simp add: find_None_iff list_ex_iff)
  moreover have "d' = d\<lparr>chats := chats d @ [\<lparr>cr_TenantID = t, cr_ChatJID = c, cr_Name = n, cr_UpdatedAt = now\<rparr>]\<rparr>"
    using assms False by (simp add: upsertChat_def split: if_splits)
  ultimately show ?thesis by (auto simp: chat_name_def find_append split: option.splits)
qed

lemma upsertChat_frame: "upsertChat t c n now d = Some d' \<Longrightarrow> \<exists>cs. d' = d\<lparr>chats := cs\<rparr>"
  by (auto simp: upsertChat_def split: if_splits)

lemma upsertChat_refused: "upsertChat t c n now d = None \<longleftrightarrow> \<not> tenant_exists d t"
  unfolding upsertChat_def by simp

lemma upsert_all_name:
  "upsert_all E i t now cs d = Some d' \<Longrightarrow> chat_name d' t = fold put_name cs (chat_name d t)"
proof (induction E i t now cs d rule: upsert_all.induct)
  case (2 E i t now chat cs d)
  show ?case
  proof (cases "TrimSpace (n_Name chat) = []")
    case True
    with 2 show ?thesis by (simp add: put_name_def)
  next
    case False
    then obtain d1 where d1: "upsertChat t (n_ChatJID chat) (TrimSpace (n_Name chat)) now d = Some d1"
      "upsert_all E (Suc i) t now cs d1 = Some d'" "\<not> fault E i"
      using 2(3) by (auto simp: Let_def split: if_splits option.splits)
    have "chat_name d1 t = put_name chat (chat_name d t)"
      using False upsertChat_name [OF d1(1)] by (auto simp: put_name_def)
    with 2(2) [OF refl False d1(3,1,2)] show ?thesis by simp
  qed
qed simp

lemma upsert_all_frame: "upsert_all E i t now cs d = Some d' \<Longrightarrow> \<exists>x. d' = d\<lparr>chats := x\<rparr>"
proof (induction E i t now cs d rule: upsert_all.induct)
  case (1 E i t now d)
  then show ?case by (auto intro: exI [of _ "chats d"])
next
  case (2 E i t now chat cs d)
  then show ?case by (fastforce simp: Let_def split: if_splits option.splits dest: upsertChat_frame)
qed

lemma chat_Upsert_db: "chat_Upsert E t c d = (e, d') \<Longrightarrow> \<exists>x. d' = d\<lparr>chats := x\<rparr>"
  by (auto simp: chat_Upsert_def Let_def dest: upsertChat_frame intro: exI [of _ "chats d"]
      split: if_splits option.splits)

lemma chat_UpsertBatch_db: "chat_UpsertBatch E t cs d = (e, d') \<Longrightarrow> \<exists>x. d' = d\<lparr>chats := x\<rparr>"
  by (auto simp: chat_UpsertBatch_def dest: upsert_all_frame intro: exI [of _ "chats d"]
      split: if_splits option.splits)

lemma chat_Upsert_frame [store_frame]:
  "chat_Upsert E t c d = (e, d') \<Longrightarrow>
   tenants d' = tenants d \<and> api_keys d' = api_keys d \<and> sessions d' = sessions d \<and>
   messages d' = messages d \<and> lid_map d' = lid_map d \<and> lidMap d' = lidMap d"
  by (drule chat_Upsert_db) auto

lemma chat_UpsertBatch_frame [store_frame]:
  "chat_UpsertBatch E t cs d = (e, d') \<Longrightarrow>
   tenants d' = tenants d \<and> api_keys d' = api_keys d \<and> sessions d' = sessions d \<and>
   messages d' = messages d \<and> lid_map d' = lid_map d \<and> lidMap d' = lidMap d"
  by (drule chat_UpsertBatch_db) auto

text \<open>A batch either leaves every name as it was or applies the named entries in order.\<close>

lemma chat_UpsertBatch_names:
  "chat_UpsertBatch E t cs d = (None, d') \<Longrightarrow> chat_name d' t = fold put_name cs (chat_name d t)"
  "chat_UpsertBatch E t cs d = (Some e, d') \<Longrightarrow> d' = d"
  by (auto simp: chat_UpsertBatch_def dest: upsert_all_name split: if_splits option.splits)

lemma chat_Upsert_names:
  "chat_Upsert E t c d = (None, d') \<Longrightarrow> chat_name d' t = put_name c (chat_name d t)"
  "chat_Upsert E t c d = (Some e, d') \<Longrightarrow> d' = d"
  by (auto simp: chat_Upsert_def put_name_def Let_def upsertChat_name split: if_splits option.splits)

end
