(* ===== verification/StoreAddress.thy ===== *)
theory StoreAddress
  imports Sql
begin

text \<open>
  \<open>internal/store/address.go\<close>: the addresses one conversation can be stored under. A person
  has a phone-number address and a LID address; the table \<open>whatsmeow_lid_map\<close>, which
  whatsmeow writes into the same database, pairs their user parts. The flag \<open>lidMap\<close> of the
  database record is the \<open>atomic.Bool\<close> of \<open>messageRepo\<close>. A query that names the table while it
  does not exist is refused by the driver.

  Driver calls, in the numbering of \<open>fault\<close>: 0 is the look-up in \<open>sqlite_master\<close>, 1 the
  look-up of the other address; the query a caller runs afterwards is 2 and its scan 3.
\<close>

section \<open>Definitions\<close>

definition phoneServer :: string where "phoneServer = ''s.whatsapp.net''"
definition lidServer :: string where "lidServer = ''lid''"

definition splitAddress :: "string \<Rightarrow> (string \<times> string) option" where
  "splitAddress address =
     (case Cut address (CHR ''@'') of (user, server, found) \<Rightarrow>
        if \<not> found \<or> user = [] \<or> server = [] then None
        else
          (let user' = (if CHR '':'' \<in> set user then takeWhile (\<lambda>c. c \<noteq> CHR '':'') user else user)
           in if user' = [] then None else Some (user', server)))"

definition nonADAddress :: "string \<Rightarrow> string" where
  "nonADAddress address =
     (case splitAddress address of None \<Rightarrow> address | Some (user, server) \<Rightarrow> user @ CHR ''@'' # server)"

definition tableExists :: "env \<Rightarrow> nat \<Rightarrow> db \<Rightarrow> store_error + bool" where
  "tableExists E i d =
     (if fault E i then Inl (StoreError ''store: look up table'') else Inr (lid_map d \<noteq> None))"

definition lidMapReady :: "env \<Rightarrow> db \<Rightarrow> bool \<times> db" where
  "lidMapReady E d =
     (if lidMap d then (True, d)
      else case tableExists E 0 d of
        Inl _ \<Rightarrow> (False, d)
      | Inr present \<Rightarrow> if \<not> present then (False, d) else (True, d\<lparr>lidMap := True\<rparr>))"

definition lid_rows :: "db \<Rightarrow> (string \<times> string) list" where
  "lid_rows d = (case lid_map d of None \<Rightarrow> [] | Some rows \<Rightarrow> rows)"

text \<open>\<open>SELECT pn ... WHERE lid = ?\<close> and its mirror image; \<open>None\<close> is an error or no row.\<close>

definition lookup_other :: "env \<Rightarrow> db \<Rightarrow> string \<Rightarrow> string \<Rightarrow> (string \<times> string) option" where
  "lookup_other E d server user =
     (if fault E 1 \<or> lid_map d = None then None
      else if server = lidServer
        then map_option (\<lambda>r. (snd r, phoneServer)) (find (\<lambda>r. fst r = user) (lid_rows d))
      else map_option (\<lambda>r. (fst r, lidServer)) (find (\<lambda>r. snd r = user) (lid_rows d)))"

definition chatAliases :: "env \<Rightarrow> string \<Rightarrow> db \<Rightarrow> string list \<times> db" where
  "chatAliases E chatJID d =
     (let address = nonADAddress chatJID; aliases = [address] in
      case splitAddress address of
        None \<Rightarrow> (aliases, d)
      | Some (user, server) \<Rightarrow>
          (case lidMapReady E d of (ready, d') \<Rightarrow>
             if \<not> ready then (aliases, d')
             else if server \<noteq> lidServer \<and> server \<noteq> phoneServer then (aliases, d')
             else case lookup_other E d' server user of
               None \<Rightarrow> (aliases, d')
             | Some (mapped, wantedServer) \<Rightarrow>
                 if mapped = [] then (aliases, d')
                 else (aliases @ [mapped @ CHR ''@'' # wantedServer], d')))"

text \<open>
  The projection of \<open>addressing\<close>: a left join of the stored address with the LID index, and
  the phone-number address where the join finds one. A row of the result per matching row of
  the index, or one where there is none.
\<close>

definition left_join :: "'a list \<Rightarrow> 'a option list" where
  "left_join hits = (if hits = [] then [None] else map Some hits)"

definition canonical_column :: "string \<Rightarrow> string option \<Rightarrow> string" where
  "canonical_column jid pn = (case pn of None \<Rightarrow> jid | Some p \<Rightarrow> p @ CHR ''@'' # phoneServer)"

definition addressing :: "bool \<Rightarrow> db \<Rightarrow> string \<Rightarrow> string list" where
  "addressing ready d jid =
     (if \<not> ready then [jid]
      else map (canonical_column jid)
        (left_join (map snd (filter (\<lambda>r. jid = fst r @ CHR ''@'' # lidServer) (lid_rows d)))))"

section \<open>Addresses\<close>

lemma servers_distinct [simp]: "phoneServer \<noteq> lidServer" "lidServer \<noteq> phoneServer"
  by (simp_all add: phoneServer_def lidServer_def)

lemma servers_ne [simp]: "phoneServer \<noteq> []" "lidServer \<noteq> []"
  by (simp_all add: phoneServer_def lidServer_def)

lemma not_in_takeWhile_neq: "c \<notin> set (takeWhile (\<lambda>x. x \<noteq> c) xs)"
  by (auto dest: set_takeWhileD)

text \<open>A user part as both columns of the LID index hold it.\<close>

definition bare_user :: "string \<Rightarrow> bool" where
  "bare_user u \<longleftrightarrow> u \<noteq> [] \<and> CHR ''@'' \<notin> set u \<and> CHR '':'' \<notin> set u"

lemma splitAddress_bare:
  "bare_user u \<Longrightarrow> s \<noteq> [] \<Longrightarrow> splitAddress (u @ CHR ''@'' # s) = Some (u, s)"
  by (simp add: splitAddress_def bare_user_def)

lemma splitAddress_Some:
  assumes "splitAddress a = Some (u, s)"
  shows "bare_user u" and "s \<noteq> []" and "\<exists>dev. a = u @ dev @ CHR ''@'' # s"
proof -
  obtain u0 where u0: "Cut a (CHR ''@'') = (u0, s, True)" "s \<noteq> []" "u \<noteq> []"
    "u = (if CHR '':'' \<in> set u0 then takeWhile (\<lambda>c. c \<noteq> CHR '':'') u0 else u0)"
    using assms by (auto simp: splitAddress_def Let_def split: prod.splits if_splits)
  then have a: "a = u0 @ CHR ''@'' # s" "CHR ''@'' \<notin> set u0" by (simp_all add: Cut_found)
  have "set u \<subseteq> set u0" using u0(4) by (auto dest: set_takeWhileD)
  moreover have "CHR '':'' \<notin> set u" unfolding u0(4) by (simp add: not_in_takeWhile_neq)
  ultimately show "bare_user u" using a(2) u0(3) by (auto simp: bare_user_def)
  show "s \<noteq> []" by (rule u0(2))
  have "u0 = u @ dropWhile (\<lambda>c. c \<noteq> CHR '':'') u0 \<or> u0 = u" using u0(4) by auto
  then show "\<exists>dev. a = u @ dev @ CHR ''@'' # s"
  proof
    assume "u0 = u @ dropWhile (\<lambda>c. c \<noteq> CHR '':'') u0"
    then have "a = u @ dropWhile (\<lambda>c. c \<noteq> CHR '':'') u0 @ CHR ''@'' # s" using a(1) by (metis append_assoc)
    then show ?thesis by blast
  next
    assume "u0 = u"
    then have "a = u @ [] @ CHR ''@'' # s" using a(1) by simp
    then show ?thesis by blast
  qed
qed

lemma splitAddress_nonAD: "splitAddress (nonADAddress a) = splitAddress a"
proof (cases "splitAddress a")
  case (Some p)
  then show ?thesis
    using splitAddress_Some [of a "fst p" "snd p"]
    by (cases p) (simp add: nonADAddress_def splitAddress_bare)
qed (simp add: nonADAddress_def)

lemma nonADAddress_idem [simp]: "nonADAddress (nonADAddress a) = nonADAddress a"
  unfolding nonADAddress_def [of "nonADAddress a"] splitAddress_nonAD
  by (simp add: nonADAddress_def split: option.splits prod.splits)

lemma nonADAddress_bare: "bare_user u \<Longrightarrow> s \<noteq> [] \<Longrightarrow> nonADAddress (u @ CHR ''@'' # s) = u @ CHR ''@'' # s"
  by (simp add: nonADAddress_def splitAddress_bare)

section \<open>The LID index\<close>

text \<open>
  What whatsmeow's schema promises of its table: \<open>lid\<close> is its primary key and \<open>pn\<close> is unique,
  and both hold bare user parts.
\<close>

definition lid_map_ok :: "db \<Rightarrow> bool" where
  "lid_map_ok d \<longleftrightarrow>
     distinct (map fst (lid_rows d)) \<and> distinct (map snd (lid_rows d)) \<and>
     (\<forall>r\<in>set (lid_rows d). bare_user (fst r) \<and> bare_user (snd r)) \<and>
     (lidMap d \<longrightarrow> lid_map d \<noteq> None)"

lemma lidMapReady_db: "lidMapReady E d = (r, d') \<Longrightarrow> d' = d \<or> d' = d\<lparr>lidMap := True\<rparr>"
  by (auto simp: lidMapReady_def tableExists_def split: if_splits sum.splits)

lemma chatAliases_db: "chatAliases E a d = (r, d') \<Longrightarrow> d' = d \<or> d' = d\<lparr>lidMap := True\<rparr>"
  by (auto simp: chatAliases_def Let_def dest: lidMapReady_db
      split: option.splits prod.splits if_splits)

lemma chatAliases_frame [store_frame]:
  "chatAliases E a d = (r, d') \<Longrightarrow>
   tenants d' = tenants d \<and> api_keys d' = api_keys d \<and> sessions d' = sessions d \<and>
   messages d' = messages d \<and> chats d' = chats d \<and> lid_map d' = lid_map d"
  by (drule chatAliases_db) auto

lemma lidMapReady_calm:
  assumes "\<not> fault E 0" and "lidMap d \<longrightarrow> lid_map d \<noteq> None"
  shows "lidMapReady E d = (lid_map d \<noteq> None, d\<lparr>lidMap := (lid_map d \<noteq> None)\<rparr>)"
  using assms by (auto simp: lidMapReady_def tableExists_def)

text \<open>The specification: the addresses of the conversation an address belongs to.\<close>

definition same_person :: "db \<Rightarrow> string \<Rightarrow> string \<Rightarrow> bool" where
  "same_person d a b \<longleftrightarrow>
     (\<exists>(lid, pn)\<in>set (lid_rows d).
        a = lid @ CHR ''@'' # lidServer \<and> b = pn @ CHR ''@'' # phoneServer \<or>
        a = pn @ CHR ''@'' # phoneServer \<and> b = lid @ CHR ''@'' # lidServer)"

definition conversation_addresses :: "db \<Rightarrow> string \<Rightarrow> string set" where
  "conversation_addresses d a = insert (nonADAddress a) {b. same_person d (nonADAddress a) b}"

lemma find_unique:
  assumes "distinct (map f xs)" and "x \<in> set xs"
  shows "find (\<lambda>y. f y = f x) xs = Some x"
proof (cases "find (\<lambda>y. f y = f x) xs")
  case None
  then show ?thesis using assms(2) by (auto simp: find_None_iff)
next
  case (Some y)
  then show ?thesis using find_SomeD [OF Some] assms by (auto simp: distinct_map dest: inj_onD)
qed

lemma append_at_inject:
  "bare_user u \<Longrightarrow> bare_user v \<Longrightarrow> u @ CHR ''@'' # s = v @ CHR ''@'' # t \<longleftrightarrow> u = v \<and> s = t"
  by (auto simp: bare_user_def append_eq_append_conv2 append_eq_Cons_conv Cons_eq_append_conv)

lemma lid_map_ok_bare:
  "lid_map_ok d \<Longrightarrow> (lid, pn) \<in> set (lid_rows d) \<Longrightarrow> bare_user lid \<and> bare_user pn"
  by (fastforce simp: lid_map_ok_def)

lemma lid_rows_find:
  assumes "lid_map_ok d"
  shows "find (\<lambda>r. fst r = u) (lid_rows d) = Some r \<longleftrightarrow> r \<in> set (lid_rows d) \<and> fst r = u"
    and "find (\<lambda>r. snd r = u) (lid_rows d) = Some r \<longleftrightarrow> r \<in> set (lid_rows d) \<and> snd r = u"
  using assms find_unique [of fst "lid_rows d" r] find_unique [of snd "lid_rows d" r]
  by (auto simp: lid_map_ok_def dest: find_SomeD)

lemma same_person_lid:
  assumes ok: "lid_map_ok d" and u: "bare_user u"
  shows "same_person d (u @ CHR ''@'' # lidServer) b \<longleftrightarrow>
    (\<exists>pn. (u, pn) \<in> set (lid_rows d) \<and> b = pn @ CHR ''@'' # phoneServer)"
proof
  assume "same_person d (u @ CHR ''@'' # lidServer) b"
  then obtain lid pn where r: "(lid, pn) \<in> set (lid_rows d)" and
    alt: "u @ CHR ''@'' # lidServer = lid @ CHR ''@'' # lidServer \<and> b = pn @ CHR ''@'' # phoneServer \<or>
     u @ CHR ''@'' # lidServer = pn @ CHR ''@'' # phoneServer"
    unfolding same_person_def by blast
  with u lid_map_ok_bare [OF ok r] have "u = lid \<and> b = pn @ CHR ''@'' # phoneServer"
    by (simp add: append_at_inject)
  with r show "\<exists>pn. (u, pn) \<in> set (lid_rows d) \<and> b = pn @ CHR ''@'' # phoneServer" by blast
next
  assume "\<exists>pn. (u, pn) \<in> set (lid_rows d) \<and> b = pn @ CHR ''@'' # phoneServer"
  then show "same_person d (u @ CHR ''@'' # lidServer) b" unfolding same_person_def by blast
qed

lemma same_person_phone:
  assumes ok: "lid_map_ok d" and u: "bare_user u"
  shows "same_person d (u @ CHR ''@'' # phoneServer) b \<longleftrightarrow>
    (\<exists>lid. (lid, u) \<in> set (lid_rows d) \<and> b = lid @ CHR ''@'' # lidServer)"
proof
  assume "same_person d (u @ CHR ''@'' # phoneServer) b"
  then obtain lid pn where r: "(lid, pn) \<in> set (lid_rows d)" and
    alt: "u @ CHR ''@'' # phoneServer = lid @ CHR ''@'' # lidServer \<or>
     u @ CHR ''@'' # phoneServer = pn @ CHR ''@'' # phoneServer \<and> b = lid @ CHR ''@'' # lidServer"
    unfolding same_person_def by blast
  with u lid_map_ok_bare [OF ok r] have "u = pn \<and> b = lid @ CHR ''@'' # lidServer"
    by (simp add: append_at_inject)
  with r show "\<exists>lid. (lid, u) \<in> set (lid_rows d) \<and> b = lid @ CHR ''@'' # lidServer" by blast
next
  assume "\<exists>lid. (lid, u) \<in> set (lid_rows d) \<and> b = lid @ CHR ''@'' # lidServer"
  then show "same_person d (u @ CHR ''@'' # phoneServer) b" unfolding same_person_def by blast
qed

lemma same_person_sym: "same_person d a b \<longleftrightarrow> same_person d b a"
  by (auto simp: same_person_def)

lemma same_person_split:
  assumes "lid_map_ok d" and "same_person d a b"
  shows "\<exists>u s. splitAddress a = Some (u, s) \<and> a = u @ CHR ''@'' # s \<and> bare_user u \<and> (s = lidServer \<or> s = phoneServer)"
proof -
  obtain lid pn where r: "(lid, pn) \<in> set (lid_rows d)" and
    "a = lid @ CHR ''@'' # lidServer \<or> a = pn @ CHR ''@'' # phoneServer"
    using assms(2) unfolding same_person_def by blast
  with lid_map_ok_bare [OF assms(1) r] show ?thesis by (auto simp: splitAddress_bare)
qed

text \<open>
  With the look-ups answered, \<open>chatAliases\<close> returns exactly the addresses of the conversation,
  and the addresses of a conversation do not depend on which of them one asks by.
\<close>

lemma nonADAddress_split:
  "splitAddress a = Some (u, s) \<Longrightarrow> nonADAddress a = u @ CHR ''@'' # s"
  by (simp add: nonADAddress_def)

lemma lid_map_None_rows: "lid_map d = None \<Longrightarrow> lid_rows d = []"
  by (simp add: lid_rows_def)

lemma lid_rows_present: "r \<in> set (lid_rows d) \<Longrightarrow> \<exists>rows. lid_map d = Some rows"
  by (cases "lid_map d") (auto simp: lid_rows_def)

lemma lid_rows_lidMap [simp]: "lid_rows (d\<lparr>lidMap := x\<rparr>) = lid_rows d"
  by (simp add: lid_rows_def)

lemma lookup_other_Some:
  assumes ok: "lid_map_ok d" and up: "\<not> fault E 1"
  shows "lookup_other E (d\<lparr>lidMap := x\<rparr>) lidServer u = Some (m, srv) \<longleftrightarrow>
      (u, m) \<in> set (lid_rows d) \<and> srv = phoneServer"
    and "lookup_other E (d\<lparr>lidMap := x\<rparr>) phoneServer u = Some (m, srv) \<longleftrightarrow>
      (m, u) \<in> set (lid_rows d) \<and> srv = lidServer"
proof -
  have "lookup_other E (d\<lparr>lidMap := x\<rparr>) lidServer u = Some (m, srv) \<longleftrightarrow>
      lid_map d \<noteq> None \<and> (\<exists>r. find (\<lambda>r. fst r = u) (lid_rows d) = Some r \<and> snd r = m \<and> srv = phoneServer)"
    using up by (auto simp: lookup_other_def)
  also have "\<dots> \<longleftrightarrow> (u, m) \<in> set (lid_rows d) \<and> srv = phoneServer"
    unfolding lid_rows_find(1) [OF ok] by (auto dest: lid_rows_present)
  finally show "lookup_other E (d\<lparr>lidMap := x\<rparr>) lidServer u = Some (m, srv) \<longleftrightarrow>
      (u, m) \<in> set (lid_rows d) \<and> srv = phoneServer" .
  have "lookup_other E (d\<lparr>lidMap := x\<rparr>) phoneServer u = Some (m, srv) \<longleftrightarrow>
      lid_map d \<noteq> None \<and> (\<exists>r. find (\<lambda>r. snd r = u) (lid_rows d) = Some r \<and> fst r = m \<and> srv = lidServer)"
    using up by (auto simp: lookup_other_def)
  also have "\<dots> \<longleftrightarrow> (m, u) \<in> set (lid_rows d) \<and> srv = lidServer"
    unfolding lid_rows_find(2) [OF ok] by (auto dest: lid_rows_present)
  finally show "lookup_other E (d\<lparr>lidMap := x\<rparr>) phoneServer u = Some (m, srv) \<longleftrightarrow>
      (m, u) \<in> set (lid_rows d) \<and> srv = lidServer" .
qed

lemma lookup_other_person:
  assumes "lid_map_ok d" and "\<not> fault E 1" and "bare_user u" and "s = lidServer \<or> s = phoneServer"
  shows "same_person d (u @ CHR ''@'' # s) b \<longleftrightarrow>
      (\<exists>m srv. lookup_other E (d\<lparr>lidMap := x\<rparr>) s u = Some (m, srv) \<and> b = m @ CHR ''@'' # srv)"
    and "lookup_other E (d\<lparr>lidMap := x\<rparr>) s u = Some (m, srv) \<Longrightarrow> m \<noteq> []"
  using assms lid_map_ok_bare [OF assms(1), of u m] lid_map_ok_bare [OF assms(1), of m u]
  by (auto simp: lookup_other_Some same_person_lid same_person_phone bare_user_def)

lemma chatAliases_spec:
  assumes ok: "lid_map_ok d" and up: "\<not> fault E 0" "\<not> fault E 1"
  shows "set (fst (chatAliases E a d)) = conversation_addresses d a"
proof (cases "splitAddress a")
  case None
  then have "nonADAddress a = a" by (simp add: nonADAddress_def)
  with None show ?thesis
    using same_person_split [OF ok, of a] by (auto simp: chatAliases_def conversation_addresses_def)
next
  case (Some p)
  obtain u s where p: "p = (u, s)" by (cases p)
  have bare: "bare_user u" and na: "nonADAddress a = u @ CHR ''@'' # s"
    using Some p splitAddress_Some(1) by (auto simp: nonADAddress_split)
  have split: "splitAddress (nonADAddress a) = Some (u, s)" using Some p by (simp add: splitAddress_nonAD)
  have ready: "lidMapReady E d = (lid_map d \<noteq> None, d\<lparr>lidMap := (lid_map d \<noteq> None)\<rparr>)"
    using up(1) ok by (intro lidMapReady_calm) (auto simp: lid_map_ok_def)
  show ?thesis
  proof (cases "lid_map d \<noteq> None \<and> (s = lidServer \<or> s = phoneServer)")
    case True
    define l where "l = lookup_other E (d\<lparr>lidMap := True\<rparr>) s u"
    have other: "{b. same_person d (nonADAddress a) b} =
        (case l of None \<Rightarrow> {} | Some (m, srv) \<Rightarrow> {m @ CHR ''@'' # srv})"
      and ne: "l = Some (m, srv) \<Longrightarrow> m \<noteq> []" for m srv
    proof -
      have person: "same_person d (nonADAddress a) b \<longleftrightarrow> (\<exists>m srv. l = Some (m, srv) \<and> b = m @ CHR ''@'' # srv)" for b
        unfolding na l_def using True by (intro lookup_other_person(1) [OF ok up(2) bare]) simp
      show "{b. same_person d (nonADAddress a) b} =
        (case l of None \<Rightarrow> {} | Some (m, srv) \<Rightarrow> {m @ CHR ''@'' # srv})"
        by (cases l) (auto simp: person)
      show "l = Some (m, srv) \<Longrightarrow> m \<noteq> []" for m srv
        unfolding l_def using True by (intro lookup_other_person(2) [OF ok up(2) bare]) simp_all
    qed
    have "fst (chatAliases E a d) = nonADAddress a # (case l of None \<Rightarrow> [] | Some (m, srv) \<Rightarrow> [m @ CHR ''@'' # srv])"
      using True split ready ne unfolding l_def
      by (auto simp: chatAliases_def Let_def split: option.split)
    with other show ?thesis by (auto simp: conversation_addresses_def split: option.splits)
  next
    case False
    have "\<not> same_person d (nonADAddress a) b" for b
      using False same_person_split [OF ok, of "nonADAddress a" b] split
      by (auto simp: same_person_def lid_map_None_rows)
    with False show ?thesis
      using split ready by (auto simp: chatAliases_def conversation_addresses_def Let_def)
  qed
qed

lemma same_person_unique:
  assumes ok: "lid_map_ok d" and b: "same_person d a b" and c: "same_person d a c"
  shows "b = c"
proof -
  have fst_inj: "(l, p) \<in> set (lid_rows d) \<Longrightarrow> (l, p') \<in> set (lid_rows d) \<Longrightarrow> p = p'" for l p p'
    using ok by (auto simp: lid_map_ok_def distinct_map dest: inj_onD [of fst _ "(l, p)" "(l, p')"])
  have snd_inj: "(l, p) \<in> set (lid_rows d) \<Longrightarrow> (l', p) \<in> set (lid_rows d) \<Longrightarrow> l = l'" for l l' p
    using ok by (auto simp: lid_map_ok_def distinct_map dest: inj_onD [of snd _ "(l, p)" "(l', p)"])
  obtain u s where a: "a = u @ CHR ''@'' # s" "bare_user u" "s = lidServer \<or> s = phoneServer"
    using same_person_split [OF ok b] by blast
  from a(3) show ?thesis
    using b c fst_inj snd_inj unfolding a(1)
    by (elim disjE) (auto simp: same_person_lid [OF ok a(2)] same_person_phone [OF ok a(2)])
qed

lemma conversation_addresses_alias:
  assumes ok: "lid_map_ok d" and b: "same_person d (nonADAddress a) b"
  shows "conversation_addresses d b = conversation_addresses d a"
proof -
  have b_sym: "same_person d b (nonADAddress a)" using b by (simp add: same_person_sym)
  obtain v t where v: "splitAddress b = Some (v, t)" "b = v @ CHR ''@'' # t"
    using same_person_split [OF ok b_sym] by blast
  then have b': "nonADAddress b = b" by (simp add: nonADAddress_split)
  have "{c. same_person d b c} = {nonADAddress a}" using b_sym same_person_unique [OF ok b_sym] by blast
  moreover have "{c. same_person d (nonADAddress a) c} = {b}" using b same_person_unique [OF ok b] by blast
  ultimately show ?thesis by (simp add: conversation_addresses_def b' insert_commute)
qed

end
