(* ===== verification/MessageRepo.thy ===== *)
theory MessageRepo
  imports StoreAddress
begin

text \<open>
  \<open>internal/store/message_repo.go\<close>. The struct is its own row, so \<open>messageArgs\<close> is the row an
  INSERT writes (with the three fetch columns NULL) and \<open>collectMessages\<close> only adds its two
  error paths. A transaction works on a copy of the database that \<open>Commit\<close> publishes; every
  other way out is the deferred \<open>Rollback\<close>.
\<close>

section \<open>Writing\<close>

text \<open>\<open>prepareMessage\<close>; \<open>i\<close> numbers the message among those of one call.\<close>

definition prepareMessage :: "env \<Rightarrow> nat \<Rightarrow> Message \<Rightarrow> store_error + Message" where
  "prepareMessage E i m =
     (if m_TenantID m = [] then Inl (StoreError ''store: message tenant id is required'')
      else if m_ChatJID m = [] then Inl (StoreError ''store: message chat jid is required'')
      else if m_WAMessageID m = [] then Inl (StoreError ''store: message wa_message_id is required'')
      else if \<not> Direction_Valid (m_Direction m) then Inl (StoreError ''store: invalid message direction'')
      else
        (let m1 = (if m_ID m = [] then m\<lparr>m_ID := NewID E i\<rparr> else m);
             m2 = (if IsZero (m_Timestamp m1) then m1\<lparr>m_Timestamp := nowAt E (2 * i)\<rparr> else m1);
             m3 = (if IsZero (m_CreatedAt m2) then m2\<lparr>m_CreatedAt := nowAt E (2 * i + 1)\<rparr> else m2)
         in Inr m3))"

definition messageArgs :: "Message \<Rightarrow> Message" where
  "messageArgs m = m\<lparr>m_MediaStatus := None, m_MediaError := None, m_MediaFetchedAt := None\<rparr>"

definition same_wa_message :: "Message \<Rightarrow> Message \<Rightarrow> bool" where
  "same_wa_message m r \<longleftrightarrow> m_TenantID r = m_TenantID m \<and> m_WAMessageID r = m_WAMessageID m"

text \<open>
  The INSERT: \<open>None\<close> where the driver refuses it, otherwise the rows affected. The conflict
  target is looked at before the other constraints.
\<close>

definition insertMessage :: "Message \<Rightarrow> db \<Rightarrow> (nat \<times> db) option" where
  "insertMessage m d =
     (if list_ex (same_wa_message m) (messages d) then Some (0, d)
      else if m_ID m \<in> m_ID ` set (messages d) \<or> \<not> tenant_exists d (m_TenantID m) then None
      else Some (1, d\<lparr>messages := messages d @ [messageArgs m]\<rparr>))"

definition message_Append :: "env \<Rightarrow> Message \<Rightarrow> db \<Rightarrow> store_error option \<times> db" where
  "message_Append E m d =
     (case prepareMessage E 0 m of
        Inl e \<Rightarrow> (Some e, d)
      | Inr m' \<Rightarrow>
          if fault E 0 then (Some (StoreError ''store: append message''), d)
          else case insertMessage m' d of
            None \<Rightarrow> (Some (StoreError ''store: append message''), d)
          | Some (n, d') \<Rightarrow> (None, d'))"

fun prepare_batch :: "env \<Rightarrow> nat \<Rightarrow> Message list \<Rightarrow> store_error + Message list" where
  "prepare_batch E i [] = Inr []"
| "prepare_batch E i (m # ms) =
     (case prepareMessage E i m of
        Inl e \<Rightarrow> Inl (StoreError ''store: append batch'')
      | Inr ready \<Rightarrow> (case prepare_batch E (Suc i) ms of Inl e \<Rightarrow> Inl e | Inr rs \<Rightarrow> Inr (ready # rs)))"

fun exec_batch :: "env \<Rightarrow> nat \<Rightarrow> Message list \<Rightarrow> nat \<Rightarrow> db \<Rightarrow> store_error + nat \<times> db" where
  "exec_batch E i [] inserted d = Inr (inserted, d)"
| "exec_batch E i (m # ms) inserted d =
     (if fault E i then Inl (StoreError ''store: append batch'')
      else case insertMessage m d of
        None \<Rightarrow> Inl (StoreError ''store: append batch'')
      | Some (affected, d') \<Rightarrow>
          if fault E (Suc i) then Inl (StoreError ''store: append batch'')
          else exec_batch E (Suc (Suc i)) ms (inserted + affected) d')"

definition message_AppendBatch :: "env \<Rightarrow> Message list \<Rightarrow> db \<Rightarrow> (store_error + nat) \<times> db" where
  "message_AppendBatch E ms d =
     (if ms = [] then (Inr 0, d)
      else case prepare_batch E 0 ms of
        Inl e \<Rightarrow> (Inl e, d)
      | Inr prepared \<Rightarrow>
          if fault E 0 then (Inl (StoreError ''store: begin message batch''), d)
          else if fault E 1 then (Inl (StoreError ''store: prepare message batch''), d)
          else case exec_batch E 3 prepared 0 d of
            Inl e \<Rightarrow> (Inl e, d)
          | Inr (inserted, d') \<Rightarrow>
              if fault E 2 then (Inl (StoreError ''store: commit message batch''), d)
              else (Inr inserted, d'))"

text \<open>The UPDATE of \<open>UpdateMedia\<close> on one row.\<close>

definition set_media :: "MediaUpdate \<Rightarrow> Message \<Rightarrow> Message" where
  "set_media upd r =
     r\<lparr>m_MediaPath := (case mu_Path upd of Some p \<Rightarrow> Some p | None \<Rightarrow> m_MediaPath r),
       m_MediaStatus := Some (mu_Status upd),
       m_MediaError := (if mu_Error upd \<noteq> [] then Some (mu_Error upd) else None),
       m_MediaFetchedAt := Some (mu_FetchedAt upd)\<rparr>"

definition message_UpdateMedia ::
  "env \<Rightarrow> string \<Rightarrow> string \<Rightarrow> MediaUpdate \<Rightarrow> db \<Rightarrow> store_error option \<times> db" where
  "message_UpdateMedia E tenantID i upd d =
     (if tenantID = [] \<or> i = [] then (Some ErrNotFound, d)
      else
        (let upd' = (if IsZero (mu_FetchedAt upd) then upd\<lparr>mu_FetchedAt := nowAt E 0\<rparr> else upd);
             hit = (\<lambda>r. m_TenantID r = tenantID \<and> m_ID r = i);
             d' = d\<lparr>messages := map (\<lambda>r. if hit r then set_media upd' r else r) (messages d)\<rparr>
         in if fault E 0 then (Some (StoreError ''store: update message media''), d)
            else if fault E 1 then (Some (StoreError ''store: update message media''), d')
            else if filter hit (messages d) = [] then (Some ErrNotFound, d')
            else (None, d')))"

section \<open>Reading\<close>

definition collectMessages :: "env \<Rightarrow> nat \<Rightarrow> Message list \<Rightarrow> store_error + Message list" where
  "collectMessages E i rows =
     (if fault E i then Inl (StoreError ''store: scan message'') else Inr rows)"

definition chat_rows :: "db \<Rightarrow> string \<Rightarrow> string list \<Rightarrow> Message list" where
  "chat_rows d tenantID aliases =
     filter (\<lambda>m. m_TenantID m = tenantID \<and> m_ChatJID m \<in> set aliases) (messages d)"

definition message_OldestByChat ::
  "env \<Rightarrow> string \<Rightarrow> string \<Rightarrow> db \<Rightarrow> (store_error + Message) \<times> db" where
  "message_OldestByChat E tenantID chatJID d =
     (case chatAliases E chatJID d of (aliases, d') \<Rightarrow>
        if fault E 2 then (Inl (StoreError ''store: oldest message''), d')
        else case collectMessages E 3 (take 1 (order_asc message_order (chat_rows d' tenantID aliases))) of
          Inl e \<Rightarrow> (Inl e, d')
        | Inr [] \<Rightarrow> (Inl ErrNotFound, d')
        | Inr (m # _) \<Rightarrow> (Inr m, d'))"

definition message_ListByChat ::
  "env \<Rightarrow> string \<Rightarrow> string \<Rightarrow> int \<Rightarrow> db \<Rightarrow> (store_error + Message list) \<times> db" where
  "message_ListByChat E tenantID chatJID limit d =
     (case chatAliases E chatJID d of (aliases, d') \<Rightarrow>
        if fault E 2 then (Inl (StoreError ''store: list messages''), d')
        else (collectMessages E 3
                (page_desc message_order (nat (normalizeLimit limit)) (chat_rows d' tenantID aliases)), d'))"

text \<open>\<open>ORDER BY t DESC, s ASC\<close>.\<close>

definition newest_first :: "gotime \<Rightarrow> string \<Rightarrow> row_order" where
  "newest_first t s = RowOrder (- t) s"

text \<open>
  \<open>SearchChats\<close>: the rows of the two joins as triples of the canonical chat, the canonical
  sender and the message; \<open>GROUP BY\<close> keeps each canonical chat once.
\<close>

definition search_rows :: "bool \<Rightarrow> db \<Rightarrow> string \<Rightarrow> string \<Rightarrow> (string \<times> string \<times> Message) list" where
  "search_rows ready d tenantID pattern =
     filter (\<lambda>(c, s, m). m_TenantID m = tenantID \<and>
         (sql_like pattern c \<or> sql_like pattern (m_ChatJID m) \<or>
          sql_like pattern s \<or> sql_like pattern (m_SenderJID m)))
       (concat (map (\<lambda>m. concat (map (\<lambda>c. map (\<lambda>s. (c, s, m)) (addressing ready d (m_SenderJID m)))
          (addressing ready d (m_ChatJID m)))) (messages d)))"

definition group_max :: "(string \<times> string \<times> Message) list \<Rightarrow> string \<Rightarrow> gotime" where
  "group_max rows c = Max (set (map (\<lambda>(_, _, m). m_Timestamp m) (filter (\<lambda>r. fst r = c) rows)))"

definition message_SearchChats ::
  "env \<Rightarrow> string \<Rightarrow> string \<Rightarrow> int \<Rightarrow> db \<Rightarrow> (store_error + string list) \<times> db" where
  "message_SearchChats E tenantID query limit d =
     (if TrimSpace query = [] then (Inr [], d)
      else
        (let pattern = contains_pattern (TrimSpace query) in
         case lidMapReady E d of (ready, d') \<Rightarrow>
           if fault E 2 \<or> ready \<and> lid_map d' = None then (Inl (StoreError ''store: search chats''), d')
           else if fault E 3 then (Inl (StoreError ''store: scan chat jid''), d')
           else
             (let rows = search_rows ready d' tenantID pattern in
              (Inr (take (nat (normalizeLimit limit))
                 (order_asc (\<lambda>c. newest_first (group_max rows c) c) (remdups (map fst rows)))), d'))))"

text \<open>
  \<open>ListChats\<close>: the rows of the two joins, partitioned by the canonical address. The newest row
  of a partition is the one whose \<open>row_num\<close> is 1.
\<close>

definition named_rows :: "bool \<Rightarrow> db \<Rightarrow> string \<Rightarrow> (string \<times> string option \<times> Message) list" where
  "named_rows ready d tenantID =
     concat (map (\<lambda>m. concat (map (\<lambda>c. map (\<lambda>nm. (c, nm, m))
         (left_join (map cr_Name
            (filter (\<lambda>r. cr_TenantID r = m_TenantID m \<and> cr_ChatJID r = c) (chats d)))))
       (addressing ready d (m_ChatJID m))))
       (filter (\<lambda>m. m_TenantID m = tenantID) (messages d)))"

definition summarise :: "(string \<times> string option \<times> Message) list \<Rightarrow> string \<Rightarrow> Chat" where
  "summarise rows c =
     (let part = filter (\<lambda>r. fst r = c) rows;
          newest = hd (page_desc (\<lambda>(_, _, m). message_order m) 1 part)
      in case newest of (_, nm, m) \<Rightarrow>
         \<lparr>c_ChatJID = c, c_Name = (case nm of None \<Rightarrow> [] | Some n \<Rightarrow> n), c_LastMessageAt = m_Timestamp m,
          c_LastMessageBody = m_Body m, c_LastDirection = m_Direction m, c_MessageCount = length part\<rparr>)"

definition message_ListChats ::
  "env \<Rightarrow> string \<Rightarrow> int \<Rightarrow> db \<Rightarrow> (store_error + Chat list) \<times> db" where
  "message_ListChats E tenantID limit d =
     (case lidMapReady E d of (ready, d') \<Rightarrow>
        if fault E 2 \<or> ready \<and> lid_map d' = None then (Inl (StoreError ''store: list chats''), d')
        else if fault E 3 then (Inl (StoreError ''store: scan chat''), d')
        else
          (let rows = named_rows ready d' tenantID in
           (Inr (take (nat (normalizeLimit limit))
              (order_asc (\<lambda>c. newest_first (c_LastMessageAt c) (c_ChatJID c))
                (map (summarise rows) (remdups (map fst rows))))), d')))"

definition message_Search :: "env \<Rightarrow> string \<Rightarrow> string \<Rightarrow> int \<Rightarrow> db \<Rightarrow> store_error + Message list" where
  "message_Search E tenantID query limit d =
     (if TrimSpace query = [] then Inr []
      else if fault E 2 then Inl (StoreError ''store: search messages'')
      else collectMessages E 3
        (page_desc message_order (nat (normalizeLimit limit))
          (filter (\<lambda>m. m_TenantID m = tenantID \<and> sql_like (contains_pattern (TrimSpace query)) (m_Body m))
            (messages d))))"

definition message_GetByID :: "env \<Rightarrow> string \<Rightarrow> string \<Rightarrow> db \<Rightarrow> store_error + Message" where
  "message_GetByID E tenantID i d =
     (if tenantID = [] \<or> i = [] then Inl ErrNotFound
      else if fault E 2 then Inl (StoreError ''store: get message'')
      else case collectMessages E 3 (page_desc message_order 1
          (filter (\<lambda>m. m_TenantID m = tenantID \<and> (m_ID m = i \<or> m_WAMessageID m = i)) (messages d))) of
        Inl e \<Rightarrow> Inl e
      | Inr [] \<Rightarrow> Inl ErrNotFound
      | Inr (m # _) \<Rightarrow> Inr m)"

section \<open>Lemmas on writing\<close>

lemma prepareMessage_Inr:
  assumes "prepareMessage E i m = Inr m'"
  shows "m_TenantID m' = m_TenantID m" "m_ChatJID m' = m_ChatJID m" "m_SenderJID m' = m_SenderJID m"
    "m_WAMessageID m' = m_WAMessageID m" "m_Direction m' = m_Direction m" "m_Body m' = m_Body m"
    "m_TenantID m \<noteq> []" "m_ChatJID m \<noteq> []" "m_WAMessageID m \<noteq> []" "Direction_Valid (m_Direction m)"
    "m_ID m \<noteq> [] \<Longrightarrow> m_ID m' = m_ID m" "m_Timestamp m \<noteq> 0 \<Longrightarrow> m_Timestamp m' = m_Timestamp m"
    "m_DirectPath m' = m_DirectPath m" "m_MediaPath m' = m_MediaPath m" "m_MediaType m' = m_MediaType m"
  using assms by (auto simp: prepareMessage_def Let_def split: if_splits)

lemma prepareMessage_ok_iff:
  "(\<exists>m'. prepareMessage E i m = Inr m') \<longleftrightarrow>
   m_TenantID m \<noteq> [] \<and> m_ChatJID m \<noteq> [] \<and> m_WAMessageID m \<noteq> [] \<and> Direction_Valid (m_Direction m)"
  by (auto simp: prepareMessage_def Let_def)

lemma same_wa_message_prepared [simp]:
  "prepareMessage E i m = Inr m' \<Longrightarrow> same_wa_message m' = same_wa_message m"
  by (rule ext) (simp add: same_wa_message_def prepareMessage_Inr)

lemma messageArgs_simps [simp]:
  "m_TenantID (messageArgs m) = m_TenantID m" "m_ChatJID (messageArgs m) = m_ChatJID m"
  "m_WAMessageID (messageArgs m) = m_WAMessageID m" "m_ID (messageArgs m) = m_ID m"
  "m_Direction (messageArgs m) = m_Direction m" "m_Timestamp (messageArgs m) = m_Timestamp m"
  "m_MediaStatus (messageArgs m) = None" "m_Body (messageArgs m) = m_Body m"
  "same_wa_message m (messageArgs m)"
  by (simp_all add: messageArgs_def same_wa_message_def)

lemma insertMessage_Some:
  assumes "insertMessage m d = Some (n, d')"
  obtains (dup) "n = 0" "d' = d" "list_ex (same_wa_message m) (messages d)"
    | (new) "n = 1" "d' = d\<lparr>messages := messages d @ [messageArgs m]\<rparr>"
        "\<not> list_ex (same_wa_message m) (messages d)" "m_ID m \<notin> m_ID ` set (messages d)"
        "tenant_exists d (m_TenantID m)"
  using assms by (auto simp: insertMessage_def split: if_splits)

lemma insertMessage_held: "insertMessage m d = Some (n, d') \<Longrightarrow> list_ex (same_wa_message m) (messages d')"
  by (erule insertMessage_Some) auto

lemma message_Append_db:
  "message_Append E m d = (e, d') \<Longrightarrow> d' = d \<or> (\<exists>m'. prepareMessage E 0 m = Inr m' \<and> insertMessage m' d = Some (1, d'))"
  by (auto simp: message_Append_def elim: insertMessage_Some split: sum.splits if_splits option.splits)

lemma message_Append_ok:
  assumes "message_Append E m d = (None, d')"
  shows "list_ex (same_wa_message m) (messages d')"
    and "list_ex (same_wa_message m) (messages d) \<Longrightarrow> d' = d"
proof -
  obtain m' n where m': "prepareMessage E 0 m = Inr m'" and ins: "insertMessage m' d = Some (n, d')"
    using assms by (auto simp: message_Append_def split: sum.splits if_splits option.splits)
  note same = same_wa_message_prepared [OF m']
  show "list_ex (same_wa_message m) (messages d')" using insertMessage_held [OF ins] by (simp add: same)
  show "d' = d" if "list_ex (same_wa_message m) (messages d)"
    using ins that by (cases rule: insertMessage_Some) (simp_all add: same)
qed

lemma message_Append_error: "message_Append E m d = (Some e, d') \<Longrightarrow> d' = d"
  by (auto simp: message_Append_def split: sum.splits if_splits option.splits)

lemma exec_batch_ok:
  "exec_batch E i ms k d = Inr (n, d') \<Longrightarrow>
   \<exists>new. d' = d\<lparr>messages := messages d @ new\<rparr> \<and> n = k + length new \<and>
     set new \<subseteq> messageArgs ` set ms \<and> (\<forall>m\<in>set ms. list_ex (same_wa_message m) (messages d'))"
proof (induction E i ms k d arbitrary: n d' rule: exec_batch.induct)
  case (1 E i inserted d)
  then show ?case by (intro exI [of _ "[]"]) simp
next
  case (2 E i m ms k d)
  from 2(2) obtain a d1 where ins: "insertMessage m d = Some (a, d1)"
    and f: "\<not> fault E i" "\<not> fault E (Suc i)"
    and rest: "exec_batch E (Suc (Suc i)) ms (k + a) d1 = Inr (n, d')"
    by (auto split: if_splits option.splits)
  from 2(1) [OF f(1) ins refl f(2) rest] obtain new where
    new: "d' = d1\<lparr>messages := messages d1 @ new\<rparr>" "n = k + a + length new"
      "set new \<subseteq> messageArgs ` set ms" "\<forall>m\<in>set ms. list_ex (same_wa_message m) (messages d')"
    by blast
  have held: "list_ex (same_wa_message m) (messages d')"
    using insertMessage_held [OF ins] new(1) by simp
  from ins show ?case
  proof (cases rule: insertMessage_Some)
    case dup
    with new held show ?thesis by (intro exI [of _ new]) auto
  next
    case insert: new
    with new held show ?thesis by (intro exI [of _ "messageArgs m # new"]) auto
  qed
qed

lemma exec_batch_replay:
  assumes "\<forall>m\<in>set ms. list_ex (same_wa_message m) (messages d)" and "\<forall>j. \<not> fault E j"
  shows "exec_batch E i ms k d = Inr (k, d)"
  using assms(1) by (induction ms arbitrary: i k) (simp_all add: insertMessage_def assms(2))

lemma prepare_batch_Inr:
  "prepare_batch E i ms = Inr rs \<Longrightarrow>
   list_all2 (\<lambda>m r. same_wa_message r = same_wa_message m \<and> m_ChatJID r = m_ChatJID m \<and>
      m_TenantID r = m_TenantID m \<and> Direction_Valid (m_Direction r)) ms rs"
  by (induction E i ms arbitrary: rs rule: prepare_batch.induct)
     (auto split: sum.splits simp: prepareMessage_Inr)

lemma prepare_batch_exists:
  "(\<exists>rs. prepare_batch E i ms = Inr rs) \<longleftrightarrow>
   (\<forall>m\<in>set ms. m_TenantID m \<noteq> [] \<and> m_ChatJID m \<noteq> [] \<and> m_WAMessageID m \<noteq> [] \<and> Direction_Valid (m_Direction m))"
proof (induction ms arbitrary: i)
  case (Cons m ms)
  show ?case
    using prepareMessage_ok_iff [of E i m] Cons [of "Suc i"]
    by (cases "prepareMessage E i m"; cases "prepare_batch E (Suc i) ms") auto
qed simp

lemma message_AppendBatch_error: "message_AppendBatch E ms d = (Inl e, d') \<Longrightarrow> d' = d"
  by (auto simp: message_AppendBatch_def split: if_splits sum.splits)

lemma message_AppendBatch_ok:
  assumes "message_AppendBatch E ms d = (Inr n, d')"
  shows "\<exists>rs new. prepare_batch E 0 ms = Inr rs \<and> d' = d\<lparr>messages := messages d @ new\<rparr> \<and> n = length new \<and>
    set new \<subseteq> messageArgs ` set rs \<and> (\<forall>m\<in>set ms. list_ex (same_wa_message m) (messages d'))"
proof (cases "ms = []")
  case True
  then show ?thesis using assms by (auto simp: message_AppendBatch_def)
next
  case False
  then obtain rs where rs: "prepare_batch E 0 ms = Inr rs" "exec_batch E 3 rs 0 d = Inr (n, d')"
    using assms by (auto simp: message_AppendBatch_def split: if_splits sum.splits)
  have "\<exists>r\<in>set rs. same_wa_message r = same_wa_message m" if "m \<in> set ms" for m
    using all2_left [OF prepare_batch_Inr [OF rs(1)] that] by blast
  with exec_batch_ok [OF rs(2)] rs(1) show ?thesis by fastforce
qed

lemma message_AppendBatch_replay:
  assumes "message_AppendBatch E ms d = (Inr n, d')" and "\<forall>j. \<not> fault E' j"
  shows "message_AppendBatch E' ms d' = (Inr 0, d')"
proof (cases "ms = []")
  case False
  have held: "\<forall>m\<in>set ms. list_ex (same_wa_message m) (messages d')"
    using message_AppendBatch_ok [OF assms(1)] by blast
  obtain rs where rs: "prepare_batch E' 0 ms = Inr rs"
    using message_AppendBatch_ok [OF assms(1)] prepare_batch_exists by metis
  have "\<exists>m\<in>set ms. same_wa_message r = same_wa_message m" if "r \<in> set rs" for r
    using all2_right [OF prepare_batch_Inr [OF rs] that] by blast
  then have "\<forall>r\<in>set rs. list_ex (same_wa_message r) (messages d')" using held by fastforce
  then have "exec_batch E' 3 rs 0 d' = Inr (0, d')" using assms(2) by (rule exec_batch_replay)
  with False rs assms(2) show ?thesis by (simp add: message_AppendBatch_def)
qed (simp add: message_AppendBatch_def)

lemma message_UpdateMedia_db:
  "message_UpdateMedia E t i upd d = (e, d') \<Longrightarrow>
   d' = d \<or> (\<exists>upd'. d' = d\<lparr>messages := map (\<lambda>r. if m_TenantID r = t \<and> m_ID r = i then set_media upd' r else r)
      (messages d)\<rparr> \<and> mu_Path upd' = mu_Path upd \<and> mu_Status upd' = mu_Status upd \<and> mu_Error upd' = mu_Error upd)"
  by (cases "IsZero (mu_FetchedAt upd)")
     (fastforce simp: message_UpdateMedia_def Let_def split: if_splits)+

text \<open>What every column but the four of the fetch is after \<open>UpdateMedia\<close>.\<close>

definition forget_fetch :: "Message \<Rightarrow> Message" where
  "forget_fetch m = m\<lparr>m_MediaPath := None, m_MediaStatus := None, m_MediaError := None, m_MediaFetchedAt := None\<rparr>"

lemma forget_fetch_set_media [simp]: "forget_fetch (set_media upd m) = forget_fetch m"
  by (simp add: forget_fetch_def set_media_def)

lemma set_media_simps [simp]:
  "m_TenantID (set_media upd m) = m_TenantID m" "m_ID (set_media upd m) = m_ID m"
  "m_WAMessageID (set_media upd m) = m_WAMessageID m" "m_Direction (set_media upd m) = m_Direction m"
  "m_ChatJID (set_media upd m) = m_ChatJID m" "m_Timestamp (set_media upd m) = m_Timestamp m"
  by (simp_all add: set_media_def)

section \<open>What writing leaves alone\<close>

lemma message_Append_frame [store_frame]:
  "message_Append E m d = (e, d') \<Longrightarrow>
   tenants d' = tenants d \<and> api_keys d' = api_keys d \<and> sessions d' = sessions d \<and>
   chats d' = chats d \<and> lid_map d' = lid_map d \<and> lidMap d' = lidMap d"
  by (drule message_Append_db) (auto elim: insertMessage_Some)

lemma message_AppendBatch_frame [store_frame]:
  assumes "message_AppendBatch E ms d = (r, d')"
  shows "tenants d' = tenants d \<and> api_keys d' = api_keys d \<and> sessions d' = sessions d \<and>
   chats d' = chats d \<and> lid_map d' = lid_map d \<and> lidMap d' = lidMap d"
  using assms message_AppendBatch_error [of E ms d _ d'] message_AppendBatch_ok [of E ms d _ d']
  by (cases r) fastforce+

lemma message_UpdateMedia_frame [store_frame]:
  "message_UpdateMedia E t i upd d = (e, d') \<Longrightarrow>
   tenants d' = tenants d \<and> api_keys d' = api_keys d \<and> sessions d' = sessions d \<and>
   chats d' = chats d \<and> lid_map d' = lid_map d \<and> lidMap d' = lidMap d"
  by (drule message_UpdateMedia_db) auto

end
