(* ===== verification/MessageReads.thy ===== *)
theory MessageReads
  imports MessageRepo
begin

text \<open>
  What the reads of \<open>message_repo.go\<close> return: only rows of the tenant they are asked about,
  the whole conversation whichever of its addresses is given, and one summary per
  conversation.
\<close>

section \<open>A tenant sees its own rows only\<close>

text \<open>Two databases that differ at most in what other tenants store.\<close>

definition tenant_view :: "string \<Rightarrow> db \<Rightarrow> db \<Rightarrow> bool" where
  "tenant_view t d d' \<longleftrightarrow>
     filter (\<lambda>m. m_TenantID m = t) (messages d) = filter (\<lambda>m. m_TenantID m = t) (messages d') \<and>
     filter (\<lambda>r. cr_TenantID r = t) (chats d) = filter (\<lambda>r. cr_TenantID r = t) (chats d') \<and>
     lid_map d = lid_map d' \<and> lidMap d = lidMap d'"

lemma filter_tenant_conj:
  "filter (\<lambda>m. m_TenantID m = t \<and> P m) ms = filter P (filter (\<lambda>m. m_TenantID m = t) ms)"
  by (simp add: conj_commute)

lemma chat_rows_filter: "chat_rows d t as = filter (\<lambda>m. m_ChatJID m \<in> set as) (filter (\<lambda>m. m_TenantID m = t) (messages d))"
  unfolding chat_rows_def by (rule filter_tenant_conj)

lemma lidMapReady_cong:
  assumes "lid_map d = lid_map d'" and "lidMap d = lidMap d'"
  shows "fst (lidMapReady E d) = fst (lidMapReady E d')"
    and "lidMap (snd (lidMapReady E d)) = lidMap (snd (lidMapReady E d'))"
  using assms by (auto simp: lidMapReady_def tableExists_def)

lemma lidMapReady_snd [simp]:
  "messages (snd (lidMapReady E d)) = messages d" "chats (snd (lidMapReady E d)) = chats d"
  "lid_map (snd (lidMapReady E d)) = lid_map d" "lid_rows (snd (lidMapReady E d)) = lid_rows d"
  "tenants (snd (lidMapReady E d)) = tenants d" "api_keys (snd (lidMapReady E d)) = api_keys d"
  "sessions (snd (lidMapReady E d)) = sessions d"
  by (auto simp: lidMapReady_def tableExists_def lid_rows_def)

lemma chatAliases_snd [simp]:
  "messages (snd (chatAliases E a d)) = messages d" "chats (snd (chatAliases E a d)) = chats d"
  "lid_map (snd (chatAliases E a d)) = lid_map d"
  using chatAliases_frame [of E a d "fst (chatAliases E a d)" "snd (chatAliases E a d)"] by simp_all

lemma addressing_cong: "lid_map d = lid_map d' \<Longrightarrow> addressing ready d = addressing ready d'"
  by (rule ext) (simp add: addressing_def lid_rows_def)

lemma lookup_other_cong: "lid_map d = lid_map d' \<Longrightarrow> lookup_other E d = lookup_other E d'"
  by (intro ext) (simp add: lookup_other_def lid_rows_def)

lemma chatAliases_cong:
  assumes "lid_map d = lid_map d'" and "lidMap d = lidMap d'"
  shows "fst (chatAliases E a d) = fst (chatAliases E a d')"
proof -
  obtain r d1 d1' where r: "lidMapReady E d = (r, d1)" "lidMapReady E d' = (r, d1')"
    using lidMapReady_cong(1) [OF assms, of E]
    by (cases "lidMapReady E d"; cases "lidMapReady E d'") auto
  have "lid_map d1 = lid_map d1'"
    using assms(1) lidMapReady_snd(3) [of E d] lidMapReady_snd(3) [of E d'] r by simp
  then have "lookup_other E d1 = lookup_other E d1'" by (rule lookup_other_cong)
  with r show ?thesis by (simp add: chatAliases_def Let_def split: option.split)
qed

lemma search_rows_tenant:
  "search_rows ready d t p =
     filter (\<lambda>(c, s, m). sql_like p c \<or> sql_like p (m_ChatJID m) \<or> sql_like p s \<or> sql_like p (m_SenderJID m))
       (concat (map (\<lambda>m. concat (map (\<lambda>c. map (\<lambda>s. (c, s, m)) (addressing ready d (m_SenderJID m)))
          (addressing ready d (m_ChatJID m)))) (filter (\<lambda>m. m_TenantID m = t) (messages d))))"
proof -
  have "filter (\<lambda>(c, s, m). m_TenantID m = t \<and> Q c s m)
       (concat (map (\<lambda>m. concat (map (\<lambda>c. map (\<lambda>s. (c, s, m)) (f m)) (g m))) ms)) =
     filter (\<lambda>(c, s, m). Q c s m)
       (concat (map (\<lambda>m. concat (map (\<lambda>c. map (\<lambda>s. (c, s, m)) (f m)) (g m))) (filter (\<lambda>m. m_TenantID m = t) ms)))"
    for Q :: "string \<Rightarrow> string \<Rightarrow> Message \<Rightarrow> bool" and f g ms
  proof (induction ms)
    case (Cons m ms)
    have "filter (\<lambda>(c, s, m). m_TenantID m = t \<and> Q c s m) (concat (map (\<lambda>c. map (\<lambda>s. (c, s, m)) ss) cs)) =
        (if m_TenantID m = t then filter (\<lambda>(c, s, m). Q c s m) (concat (map (\<lambda>c. map (\<lambda>s. (c, s, m)) ss) cs)) else [])"
      for ss cs by (induction cs) (auto simp: filter_map o_def)
    with Cons show ?case by simp
  qed simp
  then show ?thesis by (simp add: search_rows_def)
qed

lemma named_rows_tenant:
  "named_rows ready d t =
     concat (map (\<lambda>m. concat (map (\<lambda>c. map (\<lambda>nm. (c, nm, m))
         (left_join (map cr_Name (filter (\<lambda>r. cr_ChatJID r = c) (filter (\<lambda>r. cr_TenantID r = t) (chats d))))))
       (addressing ready d (m_ChatJID m))))
       (filter (\<lambda>m. m_TenantID m = t) (messages d)))"
  unfolding named_rows_def by (intro arg_cong [where f = concat] map_cong refl) (simp add: conj_commute)

lemma reads_isolated:
  assumes v: "tenant_view t d d'"
  shows "fst (message_ListByChat E t a n d) = fst (message_ListByChat E t a n d')"
    and "fst (message_OldestByChat E t a d) = fst (message_OldestByChat E t a d')"
    and "fst (message_SearchChats E t q n d) = fst (message_SearchChats E t q n d')"
    and "fst (message_ListChats E t n d) = fst (message_ListChats E t n d')"
    and "message_Search E t q n d = message_Search E t q n d'"
    and "message_GetByID E t i d = message_GetByID E t i d'"
proof -
  have m: "filter (\<lambda>m. m_TenantID m = t) (messages d) = filter (\<lambda>m. m_TenantID m = t) (messages d')"
    and c: "filter (\<lambda>r. cr_TenantID r = t) (chats d) = filter (\<lambda>r. cr_TenantID r = t) (chats d')"
    and l: "lid_map d = lid_map d'" "lidMap d = lidMap d'"
    using v by (simp_all add: tenant_view_def)
  have al: "fst (chatAliases E a d) = fst (chatAliases E a d')" by (rule chatAliases_cong [OF l])
  have rdy: "fst (lidMapReady E d) = fst (lidMapReady E d')" by (rule lidMapReady_cong(1) [OF l])
  have addr: "addressing ready (snd (lidMapReady E d)) = addressing ready (snd (lidMapReady E d'))" for ready
    by (rule addressing_cong) (simp add: l)
  have rows: "chat_rows (snd (chatAliases E a d)) t as = chat_rows (snd (chatAliases E a d')) t as" for as
    by (simp only: chat_rows_filter chatAliases_snd m)
  show "fst (message_ListByChat E t a n d) = fst (message_ListByChat E t a n d')"
    by (simp add: message_ListByChat_def case_prod_beta al rows)
  show "fst (message_OldestByChat E t a d) = fst (message_OldestByChat E t a d')"
    by (simp add: message_OldestByChat_def case_prod_beta al rows split: sum.split list.split)
  have srows: "search_rows ready (snd (lidMapReady E d)) t p = search_rows ready (snd (lidMapReady E d')) t p" for ready p
    by (simp only: search_rows_tenant lidMapReady_snd m addr)
  show "fst (message_SearchChats E t q n d) = fst (message_SearchChats E t q n d')"
    by (simp add: message_SearchChats_def case_prod_beta rdy l srows Let_def)
  have nrows: "named_rows ready (snd (lidMapReady E d)) t = named_rows ready (snd (lidMapReady E d')) t" for ready
    by (simp only: named_rows_tenant lidMapReady_snd m c addr)
  show "fst (message_ListChats E t n d) = fst (message_ListChats E t n d')"
    by (simp add: message_ListChats_def case_prod_beta rdy l nrows Let_def)
  show "message_Search E t q n d = message_Search E t q n d'"
    by (simp only: message_Search_def filter_tenant_conj m)
  show "message_GetByID E t i d = message_GetByID E t i d'"
    by (simp only: message_GetByID_def filter_tenant_conj m)
qed

section \<open>One conversation\<close>

definition conversation :: "db \<Rightarrow> string \<Rightarrow> string \<Rightarrow> Message list" where
  "conversation d t a =
     filter (\<lambda>m. m_TenantID m = t \<and> m_ChatJID m \<in> conversation_addresses d a) (messages d)"

lemma chat_rows_conversation:
  assumes "lid_map_ok d" and "\<not> fault E 0" "\<not> fault E 1"
  shows "chat_rows (snd (chatAliases E a d)) t (fst (chatAliases E a d)) = conversation d t a"
  by (simp add: chat_rows_def conversation_def chatAliases_spec [OF assms])

lemma message_ListByChat_conversation:
  assumes "lid_map_ok d" and "\<forall>i. \<not> fault E i"
  shows "fst (message_ListByChat E t a n d) =
    Inr (page_desc message_order (nat (normalizeLimit n)) (conversation d t a))"
  using assms chat_rows_conversation [of d E a t]
  by (simp add: message_ListByChat_def case_prod_beta collectMessages_def)

lemma message_OldestByChat_conversation:
  assumes "lid_map_ok d" and "\<forall>i. \<not> fault E i"
  shows "fst (message_OldestByChat E t a d) =
    (case order_asc message_order (conversation d t a) of [] \<Rightarrow> Inl ErrNotFound | m # _ \<Rightarrow> Inr m)"
  using assms chat_rows_conversation [of d E a t]
  by (simp add: message_OldestByChat_def case_prod_beta collectMessages_def split: list.split)

lemma conversation_alias:
  "lid_map_ok d \<Longrightarrow> same_person d (nonADAddress a) b \<Longrightarrow> conversation d t b = conversation d t a"
  by (simp add: conversation_def conversation_addresses_alias)

lemma conversation_device: "conversation d t (nonADAddress a) = conversation d t a"
  by (simp add: conversation_def conversation_addresses_def)

lemma oldest_is_first:
  assumes "order_asc message_order ms = m # rest"
  shows "m \<in> set ms \<and> (\<forall>m'\<in>set ms. message_order m \<le> message_order m')"
proof -
  have "set ms = set (m # rest)" using assms set_order_asc [of message_order ms] by simp
  moreover have "sorted (map message_order (m # rest))" using assms sorted_order_asc [of message_order ms] by simp
  ultimately show ?thesis by auto
qed

section \<open>One summary per conversation\<close>

definition canonical_address :: "db \<Rightarrow> string \<Rightarrow> string" where
  "canonical_address d jid =
     (case find (\<lambda>r. jid = fst r @ CHR ''@'' # lidServer) (lid_rows d) of
        None \<Rightarrow> jid
      | Some r \<Rightarrow> snd r @ CHR ''@'' # phoneServer)"

lemma filter_at_most_one:
  assumes "distinct (map f xs)" and "\<And>x y. x \<in> set xs \<Longrightarrow> y \<in> set xs \<Longrightarrow> P x \<Longrightarrow> P y \<Longrightarrow> f x = f y"
  shows "filter P xs = (case find P xs of None \<Rightarrow> [] | Some x \<Rightarrow> [x])"
  using assms
proof (induction xs)
  case (Cons x xs)
  have "filter P xs = []" if "P x"
    unfolding filter_empty_conv using Cons.prems that by (auto simp: image_iff)
  with Cons show ?case by auto
qed simp

lemma addressing_canonical:
  assumes ok: "lid_map_ok d" and r: "r \<longleftrightarrow> lid_map d \<noteq> None"
  shows "addressing r d jid = [canonical_address d jid]"
proof -
  have "filter (\<lambda>r. jid = fst r @ CHR ''@'' # lidServer) (lid_rows d) =
      (case find (\<lambda>r. jid = fst r @ CHR ''@'' # lidServer) (lid_rows d) of None \<Rightarrow> [] | Some x \<Rightarrow> [x])"
    using ok by (intro filter_at_most_one [of fst]) (auto simp: lid_map_ok_def)
  then show ?thesis
    by (auto simp: addressing_def canonical_address_def left_join_def canonical_column_def r
        lid_map_None_rows split: option.split)
qed

lemma canonical_lid:
  "lid_map_ok d \<Longrightarrow> (lid, pn) \<in> set (lid_rows d) \<Longrightarrow>
   canonical_address d (lid @ CHR ''@'' # lidServer) = pn @ CHR ''@'' # phoneServer"
  using find_unique [of fst "lid_rows d" "(lid, pn)"]
  by (simp add: canonical_address_def lid_map_ok_def eq_commute [of lid])

lemma canonical_cases:
  assumes "lid_map_ok d"
  obtains (same) "canonical_address d j = j" "\<forall>(lid, pn)\<in>set (lid_rows d). j \<noteq> lid @ CHR ''@'' # lidServer"
    | (lid) lid pn where "(lid, pn) \<in> set (lid_rows d)" "j = lid @ CHR ''@'' # lidServer"
        "canonical_address d j = pn @ CHR ''@'' # phoneServer"
proof (cases "find (\<lambda>r. j = fst r @ CHR ''@'' # lidServer) (lid_rows d)")
  case None
  then show ?thesis
    by (intro same) (simp add: canonical_address_def, force simp: find_None_iff)
next
  case (Some r)
  then show ?thesis using lid [of "fst r" "snd r"] find_SomeD [OF Some] by (simp add: canonical_address_def)
qed

lemma canonical_phone:
  assumes ok: "lid_map_ok d" and pn: "bare_user pn"
  shows "canonical_address d (pn @ CHR ''@'' # phoneServer) = pn @ CHR ''@'' # phoneServer"
  using ok
proof (cases rule: canonical_cases [of d "pn @ CHR ''@'' # phoneServer"])
  case (lid l p)
  then show ?thesis using lid_map_ok_bare [OF ok lid(1)] pn by (simp add: append_at_inject)
qed

lemma canonical_conversation:
  assumes ok: "lid_map_ok d" and c: "c = canonical_address d j0" and j0: "nonADAddress j0 = j0"
  shows "canonical_address d j = c \<longleftrightarrow> j \<in> conversation_addresses d c"
proof -
  have fix_c: "canonical_address d c = c" and na: "nonADAddress c = c"
    using canonical_cases [OF ok, of j0] c j0 canonical_phone [OF ok] lid_map_ok_bare [OF ok] nonADAddress_bare
    by (metis servers_ne(1))+
  have fwd: "same_person d c j" if "canonical_address d j = c" "j \<noteq> c"
    using ok that by (cases rule: canonical_cases [of d j]) (auto simp: same_person_def)
  have bwd: "canonical_address d j = c" if sp: "same_person d c j"
  proof -
    obtain lid pn where r: "(lid, pn) \<in> set (lid_rows d)"
      and alt: "c = lid @ CHR ''@'' # lidServer \<or> c = pn @ CHR ''@'' # phoneServer \<and> j = lid @ CHR ''@'' # lidServer"
      using sp unfolding same_person_def by blast
    have "c \<noteq> lid @ CHR ''@'' # lidServer"
      using canonical_lid [OF ok r] fix_c lid_map_ok_bare [OF ok r] append_at_inject by auto
    with alt show ?thesis using canonical_lid [OF ok r] by simp
  qed
  show ?thesis using fwd bwd fix_c na by (auto simp: conversation_addresses_def)
qed

lemma sort_key_map: "sort_key f (map g xs) = map g (sort_key (\<lambda>x. f (g x)) xs)"
proof (induction xs)
  case (Cons x xs)
  have "insort_key f (g x) (map g ys) = map g (insort_key (\<lambda>x. f (g x)) x ys)" for ys
    by (induction ys) auto
  with Cons show ?case by simp
qed simp

lemma page_desc_map: "page_desc f n (map g xs) = map g (page_desc (\<lambda>x. f (g x)) n xs)"
  by (simp add: page_desc_def sort_key_map rev_map take_map)

text \<open>With the keys of both joined tables unique, a message is one row of the query.\<close>

definition stored_name :: "db \<Rightarrow> string \<Rightarrow> string \<Rightarrow> string option" where
  "stored_name d t c = map_option cr_Name (find (\<lambda>r. cr_TenantID r = t \<and> cr_ChatJID r = c) (chats d))"

lemma named_rows_single:
  assumes ok: "lid_map_ok d" and r: "r \<longleftrightarrow> lid_map d \<noteq> None"
    and pk: "distinct (map (\<lambda>r. (cr_TenantID r, cr_ChatJID r)) (chats d))"
  shows "named_rows r d t =
    map (\<lambda>m. (canonical_address d (m_ChatJID m), stored_name d t (canonical_address d (m_ChatJID m)), m))
      (filter (\<lambda>m. m_TenantID m = t) (messages d))"
proof -
  have one: "left_join (map cr_Name (filter (\<lambda>r. cr_TenantID r = t \<and> cr_ChatJID r = c) (chats d))) = [stored_name d t c]" for c
  proof -
    have "filter (\<lambda>r. cr_TenantID r = t \<and> cr_ChatJID r = c) (chats d) =
        (case find (\<lambda>r. cr_TenantID r = t \<and> cr_ChatJID r = c) (chats d) of None \<Rightarrow> [] | Some x \<Rightarrow> [x])"
      using pk by (rule filter_at_most_one) auto
    then show ?thesis by (simp add: left_join_def stored_name_def split: option.split)
  qed
  have cs: "concat (map (\<lambda>m. [f m]) ms) = map f ms" for f :: "Message \<Rightarrow> string \<times> string option \<times> Message" and ms
    by (induction ms) simp_all
  show ?thesis
    unfolding named_rows_def addressing_canonical [OF ok r]
    by (subst cs [symmetric], rule arg_cong [where f = concat], rule map_cong) (auto simp: one)
qed

lemma summarise_simps [simp]: "c_ChatJID (summarise rows c) = c"
  "c_MessageCount (summarise rows c) = length (filter (\<lambda>r. fst r = c) rows)"
  by (simp_all add: summarise_def Let_def case_prod_beta)

lemma distinct_take_map: "distinct (map f xs) \<Longrightarrow> distinct (map f (take n xs))"
  by (metis distinct_take take_map)

lemma order_asc_distinct: "distinct (map f xs) \<Longrightarrow> distinct (map f (order_asc k xs))"
  by (auto simp: distinct_map order_asc_def)

lemma message_ListChats_distinct:
  "fst (message_ListChats E t n d) = Inr cs \<Longrightarrow> distinct (map c_ChatJID cs) \<and> length cs \<le> nat (normalizeLimit n)"
  by (auto simp: message_ListChats_def case_prod_beta Let_def o_def
      intro!: distinct_take_map order_asc_distinct split: if_splits)

lemma summarise_conversation:
  assumes ok: "lid_map_ok d" and pk: "distinct (map (\<lambda>r. (cr_TenantID r, cr_ChatJID r)) (chats d))"
    and na: "\<forall>m\<in>set (messages d). m_TenantID m = t \<longrightarrow> nonADAddress (m_ChatJID m) = m_ChatJID m"
    and r: "r \<longleftrightarrow> lid_map d \<noteq> None" and c: "c \<in> fst ` set (named_rows r d t)"
  shows "filter (\<lambda>r. fst r = c) (named_rows r d t) =
      map (\<lambda>m. (c, stored_name d t c, m)) (conversation d t c)"
    and "conversation d t c \<noteq> []"
proof -
  note rows = named_rows_single [OF ok r pk, of t]
  obtain m0 where m0: "m0 \<in> set (messages d)" "m_TenantID m0 = t" "c = canonical_address d (m_ChatJID m0)"
    using c by (auto simp: rows)
  have mem: "canonical_address d j = c \<longleftrightarrow> j \<in> conversation_addresses d c" for j
    using canonical_conversation [OF ok m0(3)] na m0(1,2) by blast
  have "filter (\<lambda>m. m_TenantID m = t \<and> canonical_address d (m_ChatJID m) = c) (messages d) = conversation d t c"
    by (simp add: conversation_def mem)
  moreover have "filter (\<lambda>r. fst r = c) (map (\<lambda>m. (k m, stored_name d t (k m), m)) ms) =
     map (\<lambda>m. (c, stored_name d t c, m)) (filter (\<lambda>m. k m = c) ms)" for k :: "Message \<Rightarrow> string" and ms
    by (induction ms) auto
  ultimately show "filter (\<lambda>r. fst r = c) (named_rows r d t) =
      map (\<lambda>m. (c, stored_name d t c, m)) (conversation d t c)"
    by (simp add: rows conj_commute)
  show "conversation d t c \<noteq> []"
    using m0 mem [of "m_ChatJID m0"] by (auto simp: conversation_def filter_empty_conv)
qed

lemma message_ListChats_conversation:
  assumes ok: "lid_map_ok d" and pk: "distinct (map (\<lambda>r. (cr_TenantID r, cr_ChatJID r)) (chats d))"
    and na: "\<forall>m\<in>set (messages d). m_TenantID m = t \<longrightarrow> nonADAddress (m_ChatJID m) = m_ChatJID m"
    and up: "\<forall>i. \<not> fault E i"
    and cs: "fst (message_ListChats E t n d) = Inr cs" and ch: "ch \<in> set cs"
  shows "c_MessageCount ch = length (conversation d t (c_ChatJID ch))"
    and "\<exists>m. page_desc message_order 1 (conversation d t (c_ChatJID ch)) = [m] \<and>
      c_LastMessageAt ch = m_Timestamp m \<and> c_LastMessageBody ch = m_Body m \<and> c_LastDirection ch = m_Direction m"
    and "c_Name ch = (case stored_name d t (c_ChatJID ch) of None \<Rightarrow> [] | Some nm \<Rightarrow> nm)"
proof -
  obtain r where r: "r \<longleftrightarrow> lid_map d \<noteq> None" by blast
  define rows where "rows = named_rows r d t"
  have rdy: "lidMapReady E d = (r, d\<lparr>lidMap := r\<rparr>)"
    unfolding r using up ok by (intro lidMapReady_calm) (auto simp: lid_map_ok_def)
  have "named_rows r (d\<lparr>lidMap := r\<rparr>) t = rows"
    by (cases r) (simp_all add: rows_def named_rows_def addressing_def)
  then have "ch \<in> set (map (summarise rows) (remdups (map fst rows)))"
    using cs ch up unfolding message_ListChats_def rdy
    by (auto simp: Let_def dest!: in_set_takeD split: if_splits)
  then obtain c where c: "c \<in> fst ` set rows" "ch = summarise rows c" by auto
  note part = summarise_conversation [OF ok pk na r c(1) [unfolded rows_def], folded rows_def]
  show "c_MessageCount ch = length (conversation d t (c_ChatJID ch))" by (simp add: c(2) part(1))
  have "length (page_desc message_order 1 (conversation d t c)) = 1"
    using part(2) by (cases "conversation d t c") auto
  then obtain m where m: "page_desc message_order 1 (conversation d t c) = [m]"
    by (auto simp: length_Suc_conv simp del: length_page_desc)
  then have "ch = \<lparr>c_ChatJID = c, c_Name = (case stored_name d t c of None \<Rightarrow> [] | Some nm \<Rightarrow> nm),
      c_LastMessageAt = m_Timestamp m, c_LastMessageBody = m_Body m, c_LastDirection = m_Direction m,
      c_MessageCount = length (conversation d t c)\<rparr>"
    by (simp add: c(2) summarise_def Let_def part(1) page_desc_map)
  with m show "\<exists>m. page_desc message_order 1 (conversation d t (c_ChatJID ch)) = [m] \<and>
      c_LastMessageAt ch = m_Timestamp m \<and> c_LastMessageBody ch = m_Body m \<and> c_LastDirection ch = m_Direction m"
    and "c_Name ch = (case stored_name d t (c_ChatJID ch) of None \<Rightarrow> [] | Some nm \<Rightarrow> nm)"
    by auto
qed

end
