(* ===== verification/Store.thy ===== *)
theory Store
  imports ApiKeyRepo SessionRepo MessageReads ChatRepo
begin

text \<open>
  The store as a whole: the constraints of \<open>internal/store/migrations/\<close> as an invariant
  \<open>db_ok\<close> of the database, what no operation ever loses (\<open>db_grows\<close>), and the runs of the
  gateway over it. The locale \<open>store_operation\<close> is the contract every writing operation of
  \<open>internal/store/repositories.go\<close> keeps; each is interpreted below. \<open>SetMaxOpenConns(1)\<close> gives
  the process one connection, so two operations never overlap inside a statement or a
  transaction: a run is a sequence of steps, each a whole operation with an outside of its
  own, or whatsmeow writing its own table.
\<close>

section \<open>Invariant and growth\<close>

definition tenants_ok :: "db \<Rightarrow> bool" where
  "tenants_ok d \<longleftrightarrow> distinct (map t_ID (tenants d)) \<and> [] \<notin> t_ID ` set (tenants d)"

definition keys_ok :: "db \<Rightarrow> bool" where
  "keys_ok d \<longleftrightarrow>
     distinct (map kr_ID (api_keys d)) \<and> distinct (map kr_KeyHash (api_keys d)) \<and>
     [] \<notin> kr_KeyHash ` set (api_keys d) \<and> kr_TenantID ` set (api_keys d) \<subseteq> t_ID ` set (tenants d)"

definition sessions_ok :: "db \<Rightarrow> bool" where
  "sessions_ok d \<longleftrightarrow>
     distinct (map s_ID (sessions d)) \<and> distinct (map s_TenantID (sessions d)) \<and>
     s_TenantID ` set (sessions d) \<subseteq> t_ID ` set (tenants d) \<and>
     (\<forall>s\<in>set (sessions d). SessionStatus_Valid (s_Status s) \<and> s_WAJID s \<noteq> Some [])"

definition messages_ok :: "db \<Rightarrow> bool" where
  "messages_ok d \<longleftrightarrow>
     distinct (map m_ID (messages d)) \<and>
     distinct (map (\<lambda>m. (m_TenantID m, m_WAMessageID m)) (messages d)) \<and>
     m_TenantID ` set (messages d) \<subseteq> t_ID ` set (tenants d) \<and>
     (\<forall>m\<in>set (messages d). Direction_Valid (m_Direction m) \<and> m_ChatJID m \<noteq> [] \<and> m_WAMessageID m \<noteq> [])"

definition chats_ok :: "db \<Rightarrow> bool" where
  "chats_ok d \<longleftrightarrow>
     distinct (map (\<lambda>r. (cr_TenantID r, cr_ChatJID r)) (chats d)) \<and>
     cr_TenantID ` set (chats d) \<subseteq> t_ID ` set (tenants d) \<and>
     (\<forall>r\<in>set (chats d). cr_Name r \<noteq> [] \<and> TrimSpace (cr_Name r) = cr_Name r)"

definition db_ok :: "db \<Rightarrow> bool" where
  "db_ok d \<longleftrightarrow> tenants_ok d \<and> keys_ok d \<and> sessions_ok d \<and> messages_ok d \<and> chats_ok d"

lemmas db_ok_defs = db_ok_def tenants_ok_def keys_ok_def sessions_ok_def messages_ok_def chats_ok_def

lemma ok_frames [simp]:
  "tenants_ok (d\<lparr>api_keys := ks\<rparr>) = tenants_ok d"
  "tenants_ok (d\<lparr>sessions := ss\<rparr>) = tenants_ok d"
  "tenants_ok (d\<lparr>messages := ms\<rparr>) = tenants_ok d"
  "tenants_ok (d\<lparr>chats := cs\<rparr>) = tenants_ok d"
  "tenants_ok (d\<lparr>lid_map := l\<rparr>) = tenants_ok d"
  "tenants_ok (d\<lparr>lidMap := b\<rparr>) = tenants_ok d"
  "keys_ok (d\<lparr>sessions := ss\<rparr>) = keys_ok d"
  "keys_ok (d\<lparr>messages := ms\<rparr>) = keys_ok d"
  "keys_ok (d\<lparr>chats := cs\<rparr>) = keys_ok d"
  "keys_ok (d\<lparr>lid_map := l\<rparr>) = keys_ok d"
  "keys_ok (d\<lparr>lidMap := b\<rparr>) = keys_ok d"
  "sessions_ok (d\<lparr>api_keys := ks\<rparr>) = sessions_ok d"
  "sessions_ok (d\<lparr>messages := ms\<rparr>) = sessions_ok d"
  "sessions_ok (d\<lparr>chats := cs\<rparr>) = sessions_ok d"
  "sessions_ok (d\<lparr>lid_map := l\<rparr>) = sessions_ok d"
  "sessions_ok (d\<lparr>lidMap := b\<rparr>) = sessions_ok d"
  "messages_ok (d\<lparr>api_keys := ks\<rparr>) = messages_ok d"
  "messages_ok (d\<lparr>sessions := ss\<rparr>) = messages_ok d"
  "messages_ok (d\<lparr>chats := cs\<rparr>) = messages_ok d"
  "messages_ok (d\<lparr>lid_map := l\<rparr>) = messages_ok d"
  "messages_ok (d\<lparr>lidMap := b\<rparr>) = messages_ok d"
  "chats_ok (d\<lparr>api_keys := ks\<rparr>) = chats_ok d"
  "chats_ok (d\<lparr>sessions := ss\<rparr>) = chats_ok d"
  "chats_ok (d\<lparr>messages := ms\<rparr>) = chats_ok d"
  "chats_ok (d\<lparr>lid_map := l\<rparr>) = chats_ok d"
  "chats_ok (d\<lparr>lidMap := b\<rparr>) = chats_ok d"
  by (simp_all add: tenants_ok_def keys_ok_def sessions_ok_def messages_ok_def chats_ok_def)

text \<open>Rows are appended and updated in place, never removed.\<close>

definition rows_grow :: "('r \<Rightarrow> 'r \<Rightarrow> bool) \<Rightarrow> 'r list \<Rightarrow> 'r list \<Rightarrow> bool" where
  "rows_grow R old new \<longleftrightarrow> length old \<le> length new \<and> list_all2 R old (take (length old) new)"

definition session_step :: "Session \<Rightarrow> Session \<Rightarrow> bool" where
  "session_step r r' \<longleftrightarrow>
     s_ID r' = s_ID r \<and> s_TenantID r' = s_TenantID r \<and> s_CreatedAt r' = s_CreatedAt r \<and>
     (s_WAJID r \<noteq> None \<longrightarrow> s_WAJID r' \<noteq> None)"

definition message_step :: "Message \<Rightarrow> Message \<Rightarrow> bool" where
  "message_step r r' \<longleftrightarrow> forget_fetch r' = forget_fetch r \<and> (m_MediaPath r \<noteq> None \<longrightarrow> m_MediaPath r' \<noteq> None)"

definition db_grows :: "db \<Rightarrow> db \<Rightarrow> bool" where
  "db_grows d d' \<longleftrightarrow>
     rows_grow (=) (tenants d) (tenants d') \<and> rows_grow key_row_step (api_keys d) (api_keys d') \<and>
     rows_grow session_step (sessions d) (sessions d') \<and> rows_grow message_step (messages d) (messages d') \<and>
     rows_grow (\<lambda>r r'. cr_TenantID r' = cr_TenantID r \<and> cr_ChatJID r' = cr_ChatJID r) (chats d) (chats d')"

lemma rows_grow_refl: "(\<And>r. R r r) \<Longrightarrow> rows_grow R rows rows"
  by (simp add: rows_grow_def list.rel_refl)

lemma rows_grow_append: "(\<And>r. R r r) \<Longrightarrow> rows_grow R rows (rows @ new)"
  by (simp add: rows_grow_def list.rel_refl)

lemma rows_grow_all2: "list_all2 R rows rows' \<Longrightarrow> rows_grow R rows rows'"
  using list_all2_lengthD [of R rows rows'] by (simp add: rows_grow_def)

lemma rows_grow_map: "(\<And>r. R r (f r)) \<Longrightarrow> rows_grow R rows (map f rows)"
  by (rule rows_grow_all2) (simp add: list_all2_conv_all_nth)

lemma rows_grow_trans:
  assumes "\<And>a b c. R a b \<Longrightarrow> R b c \<Longrightarrow> R a c" and "rows_grow R x y" and "rows_grow R y z"
  shows "rows_grow R x z"
  using assms unfolding rows_grow_def list_all2_conv_all_nth by (auto simp: min_def)

lemma rows_grow_member: "rows_grow R old new \<Longrightarrow> r \<in> set old \<Longrightarrow> \<exists>r'\<in>set new. R r r'"
  unfolding rows_grow_def by (meson all2_left in_set_takeD)

lemma session_step_refl [simp]: "session_step r r"
  by (simp add: session_step_def)

lemma message_step_refl [simp]: "message_step r r"
  by (simp add: message_step_def)

lemma db_grows_refl [simp]: "db_grows d d"
  by (simp add: db_grows_def rows_grow_refl)

lemma db_grows_trans: "db_grows a b \<Longrightarrow> db_grows b c \<Longrightarrow> db_grows a c"
  unfolding db_grows_def
  by (elim conjE, intro conjI; erule (1) rows_grow_trans [rotated])
     (auto intro: key_row_step_trans simp: session_step_def message_step_def)

section \<open>The contract of a writing operation\<close>

locale store_operation =
  fixes run :: "env \<Rightarrow> db \<Rightarrow> db"
  assumes keeps_ok: "db_ok d \<Longrightarrow> db_ok (run E d)"
    and grows: "db_grows d (run E d)"
begin

text \<open>However often and under whatever faults an operation is run, nothing is lost.\<close>

lemma repeated_ok: "db_ok d \<Longrightarrow> db_ok (fold run Es d)"
  by (induction Es arbitrary: d) (auto simp: keeps_ok)

lemma repeated_grows: "db_grows d (fold run Es d)"
proof (induction Es arbitrary: d)
  case (Cons E Es)
  show ?case using db_grows_trans [OF grows Cons] by simp
qed simp

lemma dead_stays_dead:
  assumes ok: "db_ok d" and r: "r \<in> set (api_keys d)" "kr_RevokedAt r \<noteq> None"
  shows "live_key (run E d) (kr_KeyHash r) = None"
proof -
  have keys_grow: "rows_grow key_row_step (api_keys d) (api_keys (run E d))"
    using grows [of d E] by (simp add: db_grows_def)
  obtain r' where r': "r' \<in> set (api_keys (run E d))" "key_row_step r r'"
    using rows_grow_member [OF keys_grow r(1)] by blast
  then have "kr_KeyHash r' = kr_KeyHash r" "kr_RevokedAt r' \<noteq> None"
    using r(2) by (auto simp: key_row_step_def)
  with keeps_ok [OF ok] r'(1) show ?thesis
    using live_key_revoked_row [of "run E d" r'] by (simp add: db_ok_def keys_ok_def)
qed

end

section \<open>The operations of the store keep the contract\<close>

interpretation tenant_create: store_operation "\<lambda>E d. snd (tenant_Create E t d)" for t
proof
  show "db_ok (snd (tenant_Create E t d))" if "db_ok d" for E d
    using that by (auto simp: tenant_Create_def Let_def db_ok_defs)
  show "db_grows d (snd (tenant_Create E t d))" for E d
    by (auto simp: tenant_Create_def Let_def db_grows_def rows_grow_refl rows_grow_append)
qed

interpretation key_create: store_operation "\<lambda>E d. snd (apikey_Create E k d)" for k
proof
  show "db_ok (snd (apikey_Create E k d))" if "db_ok d" for E d
    using that by (auto simp: apikey_Create_def Let_def key_row_def db_ok_defs)
  show "db_grows d (snd (apikey_Create E k d))" for E d
    by (auto simp: apikey_Create_def Let_def db_grows_def rows_grow_refl rows_grow_append)
qed

lemma keys_ok_step:
  assumes "keys_ok d" and "list_all2 key_row_step (api_keys d) (api_keys d')" and "tenants d' = tenants d"
  shows "keys_ok d'"
proof -
  note same = distinct_step [OF assms(2)]
  from same(1,3) have "kr_KeyHash ` set (api_keys d') = kr_KeyHash ` set (api_keys d)"
    "kr_TenantID ` set (api_keys d') = kr_TenantID ` set (api_keys d)"
    by (metis list.set_map)+
  with assms(1,3) same(1,2) show ?thesis by (simp add: keys_ok_def)
qed

lemma keys_step_contract:
  assumes "list_all2 key_row_step (api_keys d) (api_keys d')"
    and "tenants d' = tenants d \<and> sessions d' = sessions d \<and> messages d' = messages d \<and> chats d' = chats d"
  shows "db_ok d \<Longrightarrow> db_ok d'" and "db_grows d d'"
  using assms keys_ok_step [OF _ assms(1)]
  by (auto simp: db_ok_def tenants_ok_def sessions_ok_def messages_ok_def chats_ok_def db_grows_def
      rows_grow_refl rows_grow_all2)

interpretation key_revoke: store_operation "\<lambda>E d. snd (apikey_Revoke E t i d)" for t i
  by unfold_locales
     (use keys_step_contract [OF apikey_Revoke_step [OF prod.collapse [symmetric]]]
        apikey_Revoke_frame [OF prod.collapse [symmetric]] in blast)+

interpretation key_used: store_operation "\<lambda>E d. snd (apikey_MarkUsed E i d)" for i
  by unfold_locales
     (use keys_step_contract [OF apikey_MarkUsed_step [OF prod.collapse [symmetric]]]
        apikey_MarkUsed_frame [OF prod.collapse [symmetric]] in blast)+

lemma insert_session_contract:
  assumes "insert_session s d = Some d'" and "SessionStatus_Valid (s_Status s)" and "s_WAJID s = None"
  shows "db_ok d \<Longrightarrow> db_ok d'" and "db_grows d d'"
proof -
  have d': "d' = d \<or> d' = d\<lparr>sessions := sessions d @ [s]\<rparr> \<and> s_TenantID s \<notin> s_TenantID ` set (sessions d) \<and>
      s_ID s \<notin> s_ID ` set (sessions d) \<and> tenant_exists d (s_TenantID s)"
    using assms(1) by (auto simp: insert_session_def split: if_splits)
  show "db_ok d'" if "db_ok d"
    using d' that assms(2,3) by (elim disjE) (simp_all add: db_ok_def sessions_ok_def)
  show "db_grows d d'"
    using d' by (elim disjE) (simp_all add: db_grows_def rows_grow_refl rows_grow_append)
qed

lemma SessionPending_Valid [simp]: "SessionStatus_Valid SessionPending"
  by (simp add: SessionStatus_Valid_def)

lemma session_Ensure_insert:
  "snd (session_EnsureForTenant E t d) = d \<or>
   (\<exists>s. insert_session s d = Some (snd (session_EnsureForTenant E t d)) \<and> s_Status s = SessionPending \<and> s_WAJID s = None)"
  by (auto simp: session_EnsureForTenant_def Let_def split: sum.split store_error.split option.split)

interpretation session_ensure: store_operation "\<lambda>E d. snd (session_EnsureForTenant E t d)" for t
proof
  show "db_ok (snd (session_EnsureForTenant E t d))" if "db_ok d" for E d
    using session_Ensure_insert [of E t d] insert_session_contract(1) that by auto
  show "db_grows d (snd (session_EnsureForTenant E t d))" for E d
    using session_Ensure_insert [of E t d] insert_session_contract(2) by auto
qed

lemma session_set_step: "session_step r (session_set t st j now r)"
  by (simp add: session_step_def session_set_def)

lemma sessions_set_ok:
  assumes "sessions_ok d" and "SessionStatus_Valid st"
  shows "sessions_ok (d\<lparr>sessions := map (session_set t st j now) (sessions d)\<rparr>)"
  using assms
  by (auto simp: sessions_ok_def o_def image_image) (auto simp: session_set_def split: if_splits)

interpretation session_update: store_operation "\<lambda>E d. snd (session_UpdateStatus E t st j d)" for t st j
proof
  show "db_ok (snd (session_UpdateStatus E t st j d))" if "db_ok d" for E d
    using session_UpdateStatus_db [OF prod.collapse [symmetric], of E t st j d] that
      sessions_set_ok [of d st t j "nowAt E 0"]
    by (elim disjE) (simp_all add: db_ok_def)
  show "db_grows d (snd (session_UpdateStatus E t st j d))" for E d
    using session_UpdateStatus_db [OF prod.collapse [symmetric], of E t st j d]
    by (auto simp: db_grows_def rows_grow_refl rows_grow_map session_set_step)
qed

lemma insertMessage_contract:
  assumes "insertMessage m d = Some (n, d')"
    and "Direction_Valid (m_Direction m)" "m_ChatJID m \<noteq> []" "m_WAMessageID m \<noteq> []"
  shows "db_ok d \<Longrightarrow> db_ok d'" and "db_grows d d'"
proof -
  show "db_ok d'" if "db_ok d"
    using assms(1)
  proof (cases rule: insertMessage_Some)
    case new
    then have "(m_TenantID m, m_WAMessageID m) \<notin> (\<lambda>r. (m_TenantID r, m_WAMessageID r)) ` set (messages d)"
      by (force simp: list_ex_iff same_wa_message_def)
    with new assms(2-) that show ?thesis by (simp add: db_ok_def messages_ok_def)
  qed (use that in simp)
  show "db_grows d d'"
    using assms(1)
    by (cases rule: insertMessage_Some) (simp_all add: db_grows_def rows_grow_refl rows_grow_append)
qed

interpretation message_append: store_operation "\<lambda>E d. snd (message_Append E m d)" for m
proof
  have step: "snd (message_Append E m d) = d \<or> (\<exists>m'. insertMessage m' d = Some (1, snd (message_Append E m d)) \<and>
      Direction_Valid (m_Direction m') \<and> m_ChatJID m' \<noteq> [] \<and> m_WAMessageID m' \<noteq> [])" for E d
    using message_Append_db [OF prod.collapse [symmetric], of E m d] prepareMessage_Inr by metis
  show "db_ok (snd (message_Append E m d))" if "db_ok d" for E d
    using step [of E d] insertMessage_contract(1) that by metis
  show "db_grows d (snd (message_Append E m d))" for E d
    using step [of E d] insertMessage_contract(2) db_grows_refl by metis
qed

lemma exec_batch_contract:
  assumes "exec_batch E i ms k d = Inr (n, d')"
    and "\<forall>m\<in>set ms. Direction_Valid (m_Direction m) \<and> m_ChatJID m \<noteq> [] \<and> m_WAMessageID m \<noteq> []"
  shows "(db_ok d \<longrightarrow> db_ok d') \<and> db_grows d d'"
  using assms
proof (induction E i ms k d arbitrary: n d' rule: exec_batch.induct)
  case (2 E i m ms k d)
  from 2(2) obtain a d1 where ins: "insertMessage m d = Some (a, d1)"
    and f: "\<not> fault E i" "\<not> fault E (Suc i)"
    and rest: "exec_batch E (Suc (Suc i)) ms (k + a) d1 = Inr (n, d')"
    by (auto split: if_splits option.splits)
  have "(db_ok d1 \<longrightarrow> db_ok d') \<and> db_grows d1 d'"
    using 2(1) [OF f(1) ins refl f(2) rest] 2(3) by simp
  moreover have "db_ok d \<longrightarrow> db_ok d1" and "db_grows d d1"
    using insertMessage_contract [OF ins] 2(3) by auto
  ultimately show ?case using db_grows_trans by blast
qed simp

lemma prepare_batch_wf:
  "prepare_batch E i ms = Inr rs \<Longrightarrow>
   \<forall>m\<in>set rs. Direction_Valid (m_Direction m) \<and> m_ChatJID m \<noteq> [] \<and> m_WAMessageID m \<noteq> []"
  by (induction E i ms arbitrary: rs rule: prepare_batch.induct)
     (auto split: sum.splits simp: prepareMessage_Inr)

lemma message_AppendBatch_exec:
  "snd (message_AppendBatch E ms d) = d \<or>
   (\<exists>rs n. prepare_batch E 0 ms = Inr rs \<and> exec_batch E 3 rs 0 d = Inr (n, snd (message_AppendBatch E ms d)))"
  by (auto simp: message_AppendBatch_def split: sum.split)

interpretation message_batch: store_operation "\<lambda>E d. snd (message_AppendBatch E ms d)" for ms
proof
  have both: "(db_ok d \<longrightarrow> db_ok (snd (message_AppendBatch E ms d))) \<and> db_grows d (snd (message_AppendBatch E ms d))" for E d
    using message_AppendBatch_exec [of E ms d]
  proof
    assume "\<exists>rs n. prepare_batch E 0 ms = Inr rs \<and> exec_batch E 3 rs 0 d = Inr (n, snd (message_AppendBatch E ms d))"
    then show ?thesis using exec_batch_contract prepare_batch_wf by blast
  qed simp
  then show "db_ok (snd (message_AppendBatch E ms d))" if "db_ok d" for E d using that by blast
  show "db_grows d (snd (message_AppendBatch E ms d))" for E d using both by blast
qed

lemma set_media_step: "message_step r (set_media upd r)"
  by (simp add: message_step_def) (simp add: set_media_def split: option.split)

lemma messages_map_ok:
  assumes ok: "messages_ok d" and t: "t' = tenants d"
    and f: "\<And>m. m_ID (f m) = m_ID m \<and> m_TenantID (f m) = m_TenantID m \<and> m_WAMessageID (f m) = m_WAMessageID m \<and>
      m_Direction (f m) = m_Direction m \<and> m_ChatJID (f m) = m_ChatJID m"
  shows "messages_ok (d\<lparr>messages := map f (messages d)\<rparr>)"
  using ok f by (simp add: messages_ok_def o_def image_image)

interpretation media_update: store_operation "\<lambda>E d. snd (message_UpdateMedia E t i upd d)" for t i upd
proof
  show "db_ok (snd (message_UpdateMedia E t i upd d))" if ok: "db_ok d" for E d
    using message_UpdateMedia_db [OF prod.collapse [symmetric], of E t i upd d]
  proof
    assume "\<exists>upd'. snd (message_UpdateMedia E t i upd d) =
      d\<lparr>messages := map (\<lambda>r. if m_TenantID r = t \<and> m_ID r = i then set_media upd' r else r) (messages d)\<rparr> \<and>
      mu_Path upd' = mu_Path upd \<and> mu_Status upd' = mu_Status upd \<and> mu_Error upd' = mu_Error upd"
    then obtain upd' where "snd (message_UpdateMedia E t i upd d) =
      d\<lparr>messages := map (\<lambda>r. if m_TenantID r = t \<and> m_ID r = i then set_media upd' r else r) (messages d)\<rparr>" by blast
    moreover have "messages_ok (d\<lparr>messages := map (\<lambda>r. if m_TenantID r = t \<and> m_ID r = i then set_media upd' r else r) (messages d)\<rparr>)"
      using ok by (intro messages_map_ok) (auto simp: db_ok_def)
    ultimately show ?thesis
      using ok by (simp add: db_ok_def)
  qed (use ok in simp)
  show "db_grows d (snd (message_UpdateMedia E t i upd d))" for E d
    using message_UpdateMedia_db [OF prod.collapse [symmetric], of E t i upd d]
    by (auto simp: db_grows_def rows_grow_refl rows_grow_map set_media_step)
qed

lemma chats_rename_ok:
  assumes "chats_ok d" and "n \<noteq> []" and "TrimSpace n = n"
  shows "chats_ok (d\<lparr>chats := map (rename_chat t c n now) (chats d)\<rparr>)"
proof -
  have "cr_TenantID (rename_chat t c n now r) = cr_TenantID r" "cr_ChatJID (rename_chat t c n now r) = cr_ChatJID r" for r
    by (simp_all add: rename_chat_def)
  then show ?thesis
    using assms by (auto simp: chats_ok_def o_def image_image) (auto simp: rename_chat_def split: if_splits)
qed

lemma upsertChat_contract:
  assumes "upsertChat t c n now d = Some d'" and "n \<noteq> []" and "TrimSpace n = n"
  shows "db_ok d \<Longrightarrow> db_ok d'" and "db_grows d d'"
proof -
  show "db_grows d d'"
    using assms(1)
    by (auto simp: upsertChat_def db_grows_def rows_grow_refl rows_grow_append rename_chat_def
        intro!: rows_grow_map split: if_splits)
  show "db_ok d'" if "db_ok d"
  proof (cases "list_ex (\<lambda>r. cr_TenantID r = t \<and> cr_ChatJID r = c) (chats d)")
    case True
    then have "d' = d\<lparr>chats := map (rename_chat t c n now) (chats d)\<rparr>"
      using assms(1) by (simp add: upsertChat_def split: if_splits)
    then show ?thesis
      using chats_rename_ok [of d n t c now] assms(2,3) that
      by (simp add: db_ok_def)
  next
    case False
    then have "d' = d\<lparr>chats := chats d @ [\<lparr>cr_TenantID = t, cr_ChatJID = c, cr_Name = n, cr_UpdatedAt = now\<rparr>]\<rparr>"
      and "tenant_exists d t"
      using assms(1) by (simp_all add: upsertChat_def split: if_splits)
    with False show ?thesis
      using assms(2,3) that by (auto simp: db_ok_def chats_ok_def list_ex_iff)
  qed
qed

interpretation chat_upsert: store_operation "\<lambda>E d. snd (chat_Upsert E t c d)" for t c
proof
  have step: "snd (chat_Upsert E t c d) = d \<or> TrimSpace (n_Name c) \<noteq> [] \<and>
      upsertChat t (n_ChatJID c) (TrimSpace (n_Name c)) (nowAt E 0) d = Some (snd (chat_Upsert E t c d))" for E d
    by (auto simp: chat_Upsert_def Let_def split: option.split)
  show "db_ok (snd (chat_Upsert E t c d))" if "db_ok d" for E d
    using step [of E d] upsertChat_contract(1) that by auto
  show "db_grows d (snd (chat_Upsert E t c d))" for E d
    using step [of E d] upsertChat_contract(2) by auto
qed

lemma upsert_all_contract:
  "upsert_all E i t now cs d = Some d' \<Longrightarrow> (db_ok d \<longrightarrow> db_ok d') \<and> db_grows d d'"
proof (induction E i t now cs d rule: upsert_all.induct)
  case (2 E i t now chat cs d)
  show ?case
  proof (cases "TrimSpace (n_Name chat) = []")
    case False
    then obtain d1 where d1: "upsertChat t (n_ChatJID chat) (TrimSpace (n_Name chat)) now d = Some d1"
      "upsert_all E (Suc i) t now cs d1 = Some d'" "\<not> fault E i"
      using 2(3) by (auto simp: Let_def split: if_splits option.splits)
    have "(db_ok d \<longrightarrow> db_ok d1) \<and> db_grows d d1" using upsertChat_contract [OF d1(1) False] by simp
    with 2(2) [OF refl False d1(3,1,2)] show ?thesis using db_grows_trans by blast
  qed (use 2 in simp)
qed simp

interpretation chat_batch: store_operation "\<lambda>E d. snd (chat_UpsertBatch E t cs d)" for t cs
proof
  have "snd (chat_UpsertBatch E t cs d) = d \<or>
      upsert_all E 3 t (nowAt E 0) cs d = Some (snd (chat_UpsertBatch E t cs d))" for E d
    by (auto simp: chat_UpsertBatch_def split: option.split)
  then have both: "(db_ok d \<longrightarrow> db_ok (snd (chat_UpsertBatch E t cs d))) \<and> db_grows d (snd (chat_UpsertBatch E t cs d))" for E d
    using upsert_all_contract db_grows_refl by metis
  then show "db_ok (snd (chat_UpsertBatch E t cs d))" if "db_ok d" for E d using that by blast
  show "db_grows d (snd (chat_UpsertBatch E t cs d))" for E d using both by blast
qed

section \<open>Runs\<close>

text \<open>
  The reads that go through \<open>lidMapReady\<close> move the flag \<open>lidMap\<close>; all of them do so by that
  one function, so one step stands for them.
\<close>

inductive store_step :: "db \<Rightarrow> db \<Rightarrow> bool" where
  create_tenant: "store_step d (snd (tenant_Create E t d))"
| create_key: "store_step d (snd (apikey_Create E k d))"
| revoke_key: "store_step d (snd (apikey_Revoke E t i d))"
| mark_used: "store_step d (snd (apikey_MarkUsed E i d))"
| ensure_session: "store_step d (snd (session_EnsureForTenant E t d))"
| update_status: "store_step d (snd (session_UpdateStatus E t st j d))"
| append: "store_step d (snd (message_Append E m d))"
| append_batch: "store_step d (snd (message_AppendBatch E ms d))"
| update_media: "store_step d (snd (message_UpdateMedia E t i upd d))"
| upsert_chat: "store_step d (snd (chat_Upsert E t c d))"
| upsert_chats: "store_step d (snd (chat_UpsertBatch E t cs d))"
| look_for_lids: "store_step d (snd (lidMapReady E d))"
| whatsmeow_lids: "store_step d (d\<lparr>lid_map := Some rows\<rparr>)"

inductive_cases store_step_cases: "store_step d d'"

lemma lidMapReady_eq: "\<exists>b. snd (lidMapReady E d) = d\<lparr>lidMap := b\<rparr>"
  by (auto simp: lidMapReady_def tableExists_def intro: exI [of _ "lidMap d"])

lemma lidMap_contract: "db_ok (d\<lparr>lidMap := b\<rparr>) = db_ok d" "db_grows d (d\<lparr>lidMap := b\<rparr>)"
  by (simp_all add: db_ok_def db_grows_def rows_grow_refl)

lemma store_step_ok: "store_step d d' \<Longrightarrow> db_ok d \<Longrightarrow> db_ok d'"
proof (induction rule: store_step.induct)
  case (look_for_lids d E)
  then show ?case using lidMapReady_eq [of E d] lidMap_contract by auto
next
  case (whatsmeow_lids d rows)
  then show ?case by (simp add: db_ok_def)
qed (simp_all add: tenant_create.keeps_ok key_create.keeps_ok key_revoke.keeps_ok key_used.keeps_ok
    session_ensure.keeps_ok session_update.keeps_ok message_append.keeps_ok message_batch.keeps_ok
    media_update.keeps_ok chat_upsert.keeps_ok chat_batch.keeps_ok)

lemma store_step_grows: "store_step d d' \<Longrightarrow> db_grows d d'"
proof (induction rule: store_step.induct)
  case (look_for_lids d E)
  then show ?case using lidMapReady_eq [of E d] lidMap_contract by auto
next
  case (whatsmeow_lids d rows)
  then show ?case by (simp add: db_grows_def rows_grow_refl)
qed (simp_all add: tenant_create.grows key_create.grows key_revoke.grows key_used.grows
    session_ensure.grows session_update.grows message_append.grows message_batch.grows
    media_update.grows chat_upsert.grows chat_batch.grows)

lemma store_run_ok: "store_step\<^sup>*\<^sup>* d d' \<Longrightarrow> db_ok d \<Longrightarrow> db_ok d'"
  by (induction rule: rtranclp_induct) (auto dest: store_step_ok)

lemma store_run_grows: "store_step\<^sup>*\<^sup>* d d' \<Longrightarrow> db_grows d d'"
  by (induction rule: rtranclp_induct) (auto dest: store_step_grows intro: db_grows_trans)

lemma empty_db_ok [simp]: "db_ok empty_db"
  by (simp add: db_ok_defs empty_db_def)

definition reachable_db :: "db \<Rightarrow> bool" where
  "reachable_db d \<longleftrightarrow> store_step\<^sup>*\<^sup>* empty_db d"

lemma reachable_db_ok: "reachable_db d \<Longrightarrow> db_ok d"
  unfolding reachable_db_def by (erule store_run_ok) simp

lemma reachable_db_empty [simp]: "reachable_db empty_db"
  by (simp add: reachable_db_def)

lemma reachable_db_step: "reachable_db d \<Longrightarrow> store_step d d' \<Longrightarrow> reachable_db d'"
  unfolding reachable_db_def by (rule rtranclp.rtrancl_into_rtrancl)

lemma run_live_key_dead:
  assumes "store_step\<^sup>*\<^sup>* d d'" and "db_ok d" and "r \<in> set (api_keys d)" and "kr_RevokedAt r \<noteq> None"
  shows "live_key d' (kr_KeyHash r) = None"
proof -
  have "rows_grow key_row_step (api_keys d) (api_keys d')"
    using store_run_grows [OF assms(1)] by (simp add: db_grows_def)
  then obtain r' where r': "r' \<in> set (api_keys d')" "key_row_step r r'"
    using rows_grow_member assms(3) by metis
  moreover have "keys_ok d'" using store_run_ok [OF assms(1,2)] by (simp add: db_ok_def)
  ultimately show ?thesis
    using live_key_revoked_row [of d' r'] assms(4) by (auto simp: keys_ok_def key_row_step_def)
qed

text \<open>A key that was never revoked keeps its tenant and its scopes as long as it lives.\<close>

lemma run_live_key_same:
  assumes run: "store_step\<^sup>*\<^sup>* d d'" and ok: "db_ok d" and k: "live_key d h = Some k" and k': "live_key d' h = Some k'"
  shows "k_ID k' = k_ID k \<and> k_TenantID k' = k_TenantID k \<and> k_Scopes k' = k_Scopes k"
proof -
  obtain r where r: "r \<in> set (api_keys d)" "k = scanAPIKey r" "kr_KeyHash r = h"
    using live_key_tenant [OF k] by blast
  have "rows_grow key_row_step (api_keys d) (api_keys d')"
    using store_run_grows [OF run] by (simp add: db_grows_def)
  then obtain r1 where r1: "r1 \<in> set (api_keys d')" "key_row_step r r1"
    using rows_grow_member r(1) by metis
  obtain r2 where r2: "r2 \<in> set (api_keys d')" "k' = scanAPIKey r2" "kr_KeyHash r2 = h"
    using live_key_tenant [OF k'] by blast
  have "keys_ok d'" using store_run_ok [OF run ok] by (simp add: db_ok_def)
  then have "r2 = r1"
    using r1 r2(1,3) r(3) by (auto simp: keys_ok_def key_row_step_def distinct_map dest: inj_onD)
  then show ?thesis using r1(2) r(2) r2(2) by (simp add: scanAPIKey_def key_row_step_def)
qed

end
