(* ===== verification/Migrate.thy ===== *)
theory Migrate
  imports Prelude
begin

text \<open>
  \<open>Migrate\<close>, \<open>ensureLIDMapReadable\<close> and \<open>applyMigration\<close> of \<open>internal/store/store.go\<close>. The
  database is an abstract state: what one SQL file does to it is the parameter \<open>sql\<close>, where
  \<open>None\<close> is a statement the driver refuses. \<open>applied\<close> is the table \<open>wc_schema_migrations\<close> and
  \<open>standin\<close> says whether the temporary view that stands in for \<open>whatsmeow_lid_map\<close> exists. The
  embedded files are an argument, because \<open>go:embed\<close> fixes them at build time. \<open>fault i\<close> is the
  failure of driver call \<open>i\<close>; the calls of the n-th migration are \<open>3 + 4 * n\<close> onwards.
\<close>

datatype migrate_error = MigrateError string

record 'd schema =
  content :: 'd
  applied :: "string list"
  lid_table :: bool
  standin :: bool

fun apply_sql :: "('n \<Rightarrow> 'd \<Rightarrow> 'd option) \<Rightarrow> 'n \<Rightarrow> bool \<Rightarrow> 'd schema \<Rightarrow> 'd schema option" where
  "apply_sql sql name f s = (if f then None else map_option (\<lambda>c. s\<lparr>content := c\<rparr>) (sql name (content s)))"

definition applyMigration ::
  "(string \<Rightarrow> 'd \<Rightarrow> 'd option) \<Rightarrow> (nat \<Rightarrow> bool) \<Rightarrow> string \<Rightarrow> 'd schema \<Rightarrow> migrate_error option \<times> 'd schema" where
  "applyMigration sql fault name s =
     (if fault 0 then (Some (MigrateError ''store: check migration''), s)
      else if name \<in> set (applied s) then (None, s)
      else if fault 1 then (Some (MigrateError ''store: begin migration''), s)
      else case apply_sql sql name (fault 2) s of
        None \<Rightarrow> (Some (MigrateError ''store: apply migration''), s)
      | Some s1 \<Rightarrow>
          (let s2 = s1\<lparr>applied := applied s1 @ [name]\<rparr> in
           if fault 3 then (Some (MigrateError ''store: record or commit migration''), s)
           else (None, s2)))"

fun apply_each ::
  "(string \<Rightarrow> 'd \<Rightarrow> 'd option) \<Rightarrow> (nat \<Rightarrow> bool) \<Rightarrow> string list \<Rightarrow> 'd schema \<Rightarrow> migrate_error option \<times> 'd schema" where
  "apply_each sql fault [] s = (None, s)"
| "apply_each sql fault (n # ns) s =
     (case applyMigration sql fault n s of
        (Some e, s') \<Rightarrow> (Some e, s')
      | (None, s') \<Rightarrow> apply_each sql (\<lambda>i. fault (i + 4)) ns s')"

definition sql_file :: "string \<Rightarrow> bool" where
  "sql_file name = suffix ''.sql'' name"

text \<open>Whether a stand-in is needed; \<open>None\<close> in the second place is a failed look-up or CREATE.\<close>

definition ensureLIDMapReadable ::
  "(nat \<Rightarrow> bool) \<Rightarrow> 'd schema \<Rightarrow> migrate_error option \<times> bool \<times> 'd schema" where
  "ensureLIDMapReadable fault s =
     (if fault 0 then (Some (MigrateError ''store: look up table''), False, s)
      else if lid_table s then (None, False, s)
      else if fault 1 \<or> standin s then (Some (MigrateError ''store: create lid map stand-in''), False, s)
      else (None, True, s\<lparr>standin := True\<rparr>))"

definition drop_standin :: "(nat \<Rightarrow> bool) \<Rightarrow> bool \<Rightarrow> 'd schema \<Rightarrow> migrate_error option \<times> 'd schema" where
  "drop_standin fault made s =
     (if \<not> made then (None, s)
      else if fault 2 then (Some (MigrateError ''store: drop lid map stand-in''), s)
      else (None, s\<lparr>standin := False\<rparr>))"

text \<open>\<open>Migrate\<close> with its deferred cleanup, whose error is reported only when there is no other.\<close>

definition Migrate ::
  "(string \<Rightarrow> 'd \<Rightarrow> 'd option) \<Rightarrow> (nat \<Rightarrow> bool) \<Rightarrow> string list \<Rightarrow> 'd schema \<Rightarrow> migrate_error option \<times> 'd schema" where
  "Migrate sql fault entries s =
     (case ensureLIDMapReadable fault s of
        (Some e, _, s1) \<Rightarrow> (Some e, s1)
      | (None, made, s1) \<Rightarrow>
          (case (if fault 3 then (Some (MigrateError ''store: create migrations table''), s1)
                 else apply_each sql (\<lambda>i. fault (i + 4)) (sort (filter sql_file entries)) s1) of
             (e, s2) \<Rightarrow>
               (case drop_standin fault made s2 of
                  (cleanup, s3) \<Rightarrow> (case e of None \<Rightarrow> (cleanup, s3) | Some e' \<Rightarrow> (Some e', s3)))))"

section \<open>What a migration run guarantees\<close>

lemma applyMigration_ok:
  "applyMigration sql f n s = (None, s') \<Longrightarrow> n \<in> set (applied s') \<and> (\<exists>new. applied s' = applied s @ new \<and> set new \<subseteq> {n})"
  by (auto simp: applyMigration_def Let_def split: if_splits option.splits)

lemma applyMigration_error: "applyMigration sql f n s = (Some e, s') \<Longrightarrow> s' = s"
  by (auto simp: applyMigration_def Let_def split: if_splits option.splits)

lemma applyMigration_once:
  "n \<in> set (applied s) \<Longrightarrow> applyMigration sql f n s = (if f 0 then Some (MigrateError ''store: check migration'') else None, s)"
  by (simp add: applyMigration_def)

lemma applyMigration_keeps:
  "applyMigration sql f n s = (e, s') \<Longrightarrow> distinct (applied s) \<Longrightarrow>
   distinct (applied s') \<and> set (applied s) \<subseteq> set (applied s') \<and> set (applied s') \<subseteq> insert n (set (applied s)) \<and>
   standin s' = standin s \<and> lid_table s' = lid_table s"
  by (auto simp: applyMigration_def Let_def split: if_splits option.splits)

lemma apply_each_keeps:
  "apply_each sql f ns s = (e, s') \<Longrightarrow> distinct (applied s) \<Longrightarrow>
   distinct (applied s') \<and> set (applied s) \<subseteq> set (applied s') \<and> set (applied s') \<subseteq> set ns \<union> set (applied s) \<and>
   standin s' = standin s \<and> lid_table s' = lid_table s"
proof (induction sql f ns s arbitrary: s' rule: apply_each.induct)
  case (2 sql f n ns s)
  obtain e1 s1 where s1: "applyMigration sql f n s = (e1, s1)" by fastforce
  note k = applyMigration_keeps [OF s1 2(3)]
  show ?case
  proof (cases e1)
    case None
    with 2(2) s1 have "apply_each sql (\<lambda>i. f (i + 4)) ns s1 = (e, s')" by simp
    from 2(1) [OF s1 [symmetric] None this] k show ?thesis by auto
  next
    case (Some x)
    with 2(2) s1 k show ?thesis by auto
  qed
qed simp

lemma apply_each_ok: "apply_each sql f ns s = (None, s') \<Longrightarrow> distinct (applied s) \<Longrightarrow> set ns \<subseteq> set (applied s')"
proof (induction sql f ns s arbitrary: s' rule: apply_each.induct)
  case (2 sql f n ns s)
  obtain s1 where s1: "applyMigration sql f n s = (None, s1)" "apply_each sql (\<lambda>i. f (i + 4)) ns s1 = (None, s')"
    using 2(2) by (auto split: prod.splits option.splits)
  have d: "distinct (applied s1)" using applyMigration_keeps [OF s1(1) 2(3)] by blast
  have "n \<in> set (applied s')"
    using applyMigration_ok [OF s1(1)] apply_each_keeps [OF s1(2) d] by blast
  with 2(1) [OF s1(1) [symmetric] refl s1(2) d] show ?case by simp
qed simp

lemma apply_each_done:
  "set ns \<subseteq> set (applied s) \<Longrightarrow> \<forall>i. \<not> f i \<Longrightarrow> apply_each sql f ns s = (None, s)"
  by (induction sql f ns s rule: apply_each.induct) (auto simp: applyMigration_once)

end
