(* ===== verification/Middleware.thy ===== *)
theory Middleware
  imports ApiErr Key
begin

text \<open>
  \<open>internal/auth/middleware.go\<close>: bearer tokens turned into principals. A handler is a function
  of the request and of the state behind it; middleware takes the next handler and gives a
  handler. The resolver is the interface \<open>KeyResolver\<close> (with the optional
  \<open>KeyUsageRecorder\<close>) and its promise is the locale \<open>key_resolver\<close>: what the middleware
  guarantees is proved once there, over any resolver that keeps the promise.
\<close>

section \<open>Requests and principals\<close>

record Principal =
  IsAdmin :: bool
  TenantID :: string
  KeyID :: string
  Scopes :: "string list"

text \<open>
  A JSON request body as the decoder sees it: absent, not a JSON object, or an object whose
  members are null, strings, lists of strings, integers or anything else.
\<close>

datatype json_value = JNull | JString string | JStrings "string list" | JInt int | JOther

datatype json_body = EmptyBody | BadBody | JObject "(string \<times> json_value) list"

record request =
  r_Method :: string
  r_Path :: string
  r_Authorization :: string
  r_Origin :: string
  r_PathValues :: "(string \<times> string) list"
  r_Query :: "(string \<times> string) list"
  r_Body :: json_body
  r_Principal :: "Principal option"

type_synonym ('st, 'p) handler = "request \<Rightarrow> 'st \<Rightarrow> 'p response \<times> 'st"

definition WithPrincipal :: "request \<Rightarrow> Principal \<Rightarrow> request" where
  "WithPrincipal r p = r\<lparr>r_Principal := Some p\<rparr>"

definition PrincipalFrom :: "request \<Rightarrow> Principal option" where
  "PrincipalFrom r = r_Principal r"

definition principal_HasScope :: "Principal \<Rightarrow> string \<Rightarrow> bool" where
  "principal_HasScope p required = HasScope (Scopes p) required"

section \<open>The middleware\<close>

datatype resolve_error = ErrKeyNotFound | ResolverFailure

record 'st KeyResolver =
  ResolveKeyHash :: "string \<Rightarrow> 'st \<Rightarrow> resolve_error + Principal"
  MarkKeyUsed :: "(string \<Rightarrow> 'st \<Rightarrow> bool \<times> 'st) option"

record 'st Middleware =
  adminToken :: string
  resolver :: "'st KeyResolver"

definition BearerToken :: "request \<Rightarrow> string" where
  "BearerToken r =
     (let (scheme, token, found) = Cut (r_Authorization r) (CHR '' '') in
      if \<not> found \<or> \<not> EqualFold scheme ''Bearer'' then [] else TrimSpace token)"

definition RequireAdmin :: "'st Middleware \<Rightarrow> ('st, 'p) handler \<Rightarrow> ('st, 'p) handler" where
  "RequireAdmin m next_h r st =
     (let token = BearerToken r in
      if \<not> VerifyAdminToken (adminToken m) token
      then (Unauthorized ''admin credentials required'', st)
      else next_h (WithPrincipal r \<lparr>IsAdmin = True, TenantID = [], KeyID = [], Scopes = []\<rparr>) st)"

definition authenticateTenant ::
  "'st Middleware \<Rightarrow> request \<Rightarrow> 'st \<Rightarrow> ('p response + Principal) \<times> 'st" where
  "authenticateTenant m r st =
     (let token = BearerToken r in
      if token = [] then (Inl (Unauthorized ''api key required''), st)
      else case ResolveKeyHash (resolver m) (HashKey token) st of
        Inl ErrKeyNotFound \<Rightarrow> (Inl (Unauthorized ''invalid api key''), st)
      | Inl ResolverFailure \<Rightarrow> (Inl Internal, st)
      | Inr p \<Rightarrow>
          (case MarkKeyUsed (resolver m) of
             None \<Rightarrow> (Inr p, st)
           | Some mark \<Rightarrow> (Inr p, snd (mark (KeyID p) st))))"

definition RequireScope :: "'st Middleware \<Rightarrow> string \<Rightarrow> ('st, 'p) handler \<Rightarrow> ('st, 'p) handler" where
  "RequireScope m required next_h r st =
     (case authenticateTenant m r st of
        (Inl resp, st1) \<Rightarrow> (resp, st1)
      | (Inr p, st1) \<Rightarrow>
          if \<not> principal_HasScope p required
          then (Forbidden (''missing required scope: '' @ required), st1)
          else next_h (WithPrincipal r p) st1)"

definition RequireTenant :: "'st Middleware \<Rightarrow> ('st, 'p) handler \<Rightarrow> ('st, 'p) handler" where
  "RequireTenant m next_h r st =
     (case authenticateTenant m r st of
        (Inl resp, st1) \<Rightarrow> (resp, st1)
      | (Inr p, st1) \<Rightarrow> next_h (WithPrincipal r p) st1)"

section \<open>What the credentials decide\<close>

lemma VerifyAdminToken_iff:
  "VerifyAdminToken configured presented \<longleftrightarrow> configured \<noteq> [] \<and> presented = configured"
  by (auto simp: VerifyAdminToken_def)

lemma RequireAdmin_rejects:
  "adminToken m = [] \<or> BearerToken r \<noteq> adminToken m \<Longrightarrow>
   RequireAdmin m next_h r st = (Unauthorized ''admin credentials required'', st)"
  by (auto simp: RequireAdmin_def VerifyAdminToken_iff Let_def)

text \<open>
  A well-formed header gives back the token it was built from, whatever the letter case of
  the scheme.
\<close>

lemma space_not_in_bearer: "CHR '' '' \<notin> set ''bearer''"
  by simp

lemma BearerToken_header:
  assumes "r_Authorization r = scheme @ '' '' @ tok" and "EqualFold scheme ''Bearer''"
    and "TrimSpace tok = tok"
  shows "BearerToken r = tok"
proof -
  have "lower_byte ` set scheme = set ''bearer''"
    using assms(2) unfolding EqualFold_def lower_bearer by (metis list.set_map)
  moreover have "lower_byte (CHR '' '') = CHR '' ''" by (simp add: char_eval)
  ultimately have "CHR '' '' \<notin> set scheme" by (metis (no_types) imageI space_not_in_bearer)
  then show ?thesis using assms by (simp add: BearerToken_def)
qed

section \<open>The promise of a key resolver\<close>

text \<open>
  \<open>live st h\<close> is the principal behind a digest in state \<open>st\<close>, if a live key has it. A resolver
  answers with that principal and no other, reports \<open>ErrKeyNotFound\<close> only when there is
  none, never makes an administrator, and recording a use changes no principal.
\<close>

locale key_resolver =
  fixes res :: "'st KeyResolver"
    and live :: "'st \<Rightarrow> string \<Rightarrow> Principal option"
  assumes resolve_live: "ResolveKeyHash res h st = Inr p \<Longrightarrow> live st h = Some p"
    and resolve_missing: "ResolveKeyHash res h st = Inl ErrKeyNotFound \<Longrightarrow> live st h = None"
    and live_not_admin: "live st h = Some p \<Longrightarrow> \<not> IsAdmin p"
    and mark_keeps_live: "MarkKeyUsed res = Some mark \<Longrightarrow> live (snd (mark k st)) h = live st h"
begin

lemma authenticate_cases:
  assumes "resolver m = res" and "authenticateTenant m r st = (out, st1)"
  shows "live st1 = live st \<and>
    (case out of
       Inr p \<Rightarrow> BearerToken r \<noteq> [] \<and> live st (HashKey (BearerToken r)) = Some p \<and> \<not> IsAdmin p
     | Inl resp \<Rightarrow> status resp = 401 \<or> status resp = 500)"
  using assms(2) unfolding authenticateTenant_def Let_def assms(1)
  by (auto simp: fun_eq_iff dest: resolve_live resolve_missing live_not_admin
      intro: mark_keeps_live
      split: if_splits sum.splits resolve_error.splits option.splits)

lemma authenticate_dead:
  assumes "resolver m = res" and "live st (HashKey (BearerToken r)) = None"
    and "authenticateTenant m r st = (out, st1)"
  shows "\<exists>resp. out = Inl resp \<and> (status resp = 401 \<or> status resp = 500)"
  using authenticate_cases [OF assms(1,3)] assms(2) by (cases out) auto

text \<open>The scope guard lets a request through only as the principal of a live key with the scope.\<close>

lemma scope_guard:
  fixes next_h :: "('st, 'p) handler"
  assumes "resolver m = res"
  shows "(\<exists>p st1. live st (HashKey (BearerToken r)) = Some p \<and> HasScope (Scopes p) required \<and>
            live st1 = live st \<and>
            RequireScope m required next_h r st = next_h (WithPrincipal r p) st1) \<or>
         (\<exists>resp st1. RequireScope m required next_h r st = (resp, st1) \<and> live st1 = live st \<and>
            status resp \<in> {401, 403, 500})"
proof -
  obtain out :: "'p response + Principal" and st1 where a: "authenticateTenant m r st = (out, st1)"
    by (rule prod.exhaust)
  show ?thesis
    using authenticate_cases [OF assms a] a
    by (cases out) (auto simp: RequireScope_def principal_HasScope_def)
qed

lemma tenant_guard:
  fixes next_h :: "('st, 'p) handler"
  assumes "resolver m = res"
  shows "(\<exists>p st1. live st (HashKey (BearerToken r)) = Some p \<and> live st1 = live st \<and>
            RequireTenant m next_h r st = next_h (WithPrincipal r p) st1) \<or>
         (\<exists>resp st1. RequireTenant m next_h r st = (resp, st1) \<and> live st1 = live st \<and>
            status resp \<in> {401, 500})"
proof -
  obtain out :: "'p response + Principal" and st1 where a: "authenticateTenant m r st = (out, st1)"
    by (rule prod.exhaust)
  show ?thesis
    using authenticate_cases [OF assms a] a by (cases out) (auto simp: RequireTenant_def)
qed

end

end
