(* ===== verification/Resolver.thy ===== *)
theory Resolver
  imports Store Middleware
begin

text \<open>
  The adapter \<open>keyResolver\<close> of \<open>internal/httpapi/server.go\<close> between the key repository and the
  auth middleware, and the state of the gateway: the database and whatever the WhatsApp
  engine keeps (\<open>'w\<close>). A request brings a sequence of outsides, one per repository call; the
  resolver uses numbers 0 and 1.
\<close>

record 'w gateway =
  gw_db :: db
  gw_wa :: 'w

definition principal_of :: "APIKey \<Rightarrow> Principal" where
  "principal_of key =
     \<lparr>IsAdmin = False, TenantID = k_TenantID key, KeyID = k_ID key, Scopes = k_Scopes key\<rparr>"

definition resolver_ResolveKeyHash :: "env \<Rightarrow> string \<Rightarrow> 'w gateway \<Rightarrow> resolve_error + Principal" where
  "resolver_ResolveKeyHash E keyHash g =
     (case apikey_GetByHash E keyHash (gw_db g) of
        Inl ErrNotFound \<Rightarrow> Inl ErrKeyNotFound
      | Inl (StoreError _) \<Rightarrow> Inl ResolverFailure
      | Inr key \<Rightarrow> Inr (principal_of key))"

definition resolver_MarkKeyUsed :: "env \<Rightarrow> string \<Rightarrow> 'w gateway \<Rightarrow> bool \<times> 'w gateway" where
  "resolver_MarkKeyUsed E keyID g =
     (case apikey_MarkUsed E keyID (gw_db g) of (e, d') \<Rightarrow> (e = None, g\<lparr>gw_db := d'\<rparr>))"

definition keyResolver :: "(nat \<Rightarrow> env) \<Rightarrow> 'w gateway KeyResolver" where
  "keyResolver E =
     \<lparr>ResolveKeyHash = resolver_ResolveKeyHash (E 0), MarkKeyUsed = Some (resolver_MarkKeyUsed (E 1))\<rparr>"

text \<open>The principal a digest stands for: the abstraction the middleware's guarantees are about.\<close>

definition live_principal :: "'w gateway \<Rightarrow> string \<Rightarrow> Principal option" where
  "live_principal g h = map_option principal_of (live_key (gw_db g) h)"

lemma principal_of_used: "principal_of (k\<lparr>k_LastUsedAt := x\<rparr>) = principal_of k"
  by (simp add: principal_of_def)

lemma live_principal_MarkUsed:
  assumes "apikey_MarkUsed E i d = (e, d')"
  shows "map_option principal_of (live_key d' h) = map_option principal_of (live_key d h)"
  using arg_cong [OF live_key_MarkUsed [OF assms, of h], of "map_option principal_of"]
  by (simp add: option.map_comp o_def principal_of_used)

interpretation kr: key_resolver "keyResolver E" live_principal for E
proof
  fix h :: string and st :: "'a gateway" and p k and mark :: "string \<Rightarrow> 'a gateway \<Rightarrow> bool \<times> 'a gateway"
  show "ResolveKeyHash (keyResolver E) h st = Inr p \<Longrightarrow> live_principal st h = Some p"
    by (auto simp: keyResolver_def resolver_ResolveKeyHash_def live_principal_def
        dest: apikey_GetByHash_live(1) split: sum.splits store_error.splits)
  show "ResolveKeyHash (keyResolver E) h st = Inl ErrKeyNotFound \<Longrightarrow> live_principal st h = None"
    by (auto simp: keyResolver_def resolver_ResolveKeyHash_def live_principal_def
        dest: apikey_GetByHash_live(2) split: sum.splits store_error.splits)
  show "live_principal st h = Some p \<Longrightarrow> \<not> IsAdmin p"
    by (auto simp: live_principal_def principal_of_def)
  show "MarkKeyUsed (keyResolver E) = Some mark \<Longrightarrow> live_principal (snd (mark k st)) h = live_principal st h"
    using live_principal_MarkUsed [OF prod.collapse [symmetric]]
    by (auto simp: keyResolver_def resolver_MarkKeyUsed_def live_principal_def case_prod_beta)
qed

text \<open>With the look-up answered, a live key authenticates as its own tenant.\<close>

lemma authenticate_live:
  assumes "resolver m = keyResolver E" and "\<not> fault (E 0) 0"
    and "live_key (gw_db g) (HashKey (BearerToken r)) = Some k" and "BearerToken r \<noteq> []"
  shows "\<exists>g1. authenticateTenant m r g = (Inr (principal_of k), g1) \<and> live_principal g1 = live_principal g"
proof -
  have "apikey_GetByHash (E 0) (HashKey (BearerToken r)) (gw_db g) = Inr k"
    using apikey_GetByHash_live(3) [OF assms(2,3)] .
  then have a: "authenticateTenant m r g =
      (Inr (principal_of k), snd (resolver_MarkKeyUsed (E 1) (KeyID (principal_of k)) g))"
    using assms(1,4) by (simp add: authenticateTenant_def keyResolver_def resolver_ResolveKeyHash_def)
  then show ?thesis using kr.authenticate_cases [OF assms(1) a] by blast
qed

end
