(* ===== verification/WaSession.thy ===== *)
theory WaSession
  imports Models
begin

text \<open>
  \<open>internal/wa/session.go\<close> and the errors of \<open>internal/wa/media.go\<close>: the errors, the result
  types of the \<open>SessionManager\<close> interface and the sizing of a history request. An error the
  code wraps from elsewhere is \<open>WAFailure\<close> with the text it is wrapped in; an error of the
  store that is passed on as it is stays a store error.
\<close>

datatype wa_error =
    ErrNotPaired | ErrUnknownTenant | ErrInvalidJID | ErrNoAnchorMessage | ErrSyncInProgress
  | ErrSyncTimeout | ErrContext
  | ErrUnknownMessage | ErrNoMedia | ErrMediaUnavailable | ErrMediaTooLarge | ErrMediaTypeNotAllowed
  | ErrUnsafeMediaPath
  | WAFailure string | WAStore store_error

definition DefaultSyncCount :: int where "DefaultSyncCount = 50"
definition MaxSyncCount :: int where "MaxSyncCount = 200"

definition NormalizeSyncCount :: "int \<Rightarrow> int" where
  "NormalizeSyncCount count =
     (if count \<le> 0 then DefaultSyncCount
      else if count > MaxSyncCount then MaxSyncCount
      else count)"

record Contact =
  ct_JID :: string
  ct_Name :: string
  ct_HasMessages :: bool

record SyncResult =
  sr_ChatJID :: string
  sr_Inserted :: nat
  sr_OldestTimestamp :: gotime
  sr_MoreAvailable :: bool

datatype PairingMode = PairingModeCode | PairingModeQR

record PairingResult =
  pr_Mode :: PairingMode
  pr_PairCode :: string
  pr_QR :: string

record SentMessage =
  sm_WAMessageID :: string
  sm_ChatJID :: string
  sm_SenderJID :: string
  sm_Timestamp :: gotime

record SessionStatus =
  ss_TenantID :: string
  ss_Status :: string
  ss_WAJID :: string
  ss_Connected :: bool
  ss_LoggedIn :: bool

record MediaRef =
  mr_MessageID :: string
  mr_MediaType :: string
  mr_MimeType :: string
  mr_Status :: string
  mr_Path :: string
  mr_SizeBytes :: int

lemma NormalizeSyncCount_bounds: "1 \<le> NormalizeSyncCount n \<and> NormalizeSyncCount n \<le> 200"
  by (auto simp: NormalizeSyncCount_def DefaultSyncCount_def MaxSyncCount_def)

lemma NormalizeSyncCount_idem [simp]: "NormalizeSyncCount (NormalizeSyncCount n) = NormalizeSyncCount n"
  by (auto simp: NormalizeSyncCount_def DefaultSyncCount_def MaxSyncCount_def)

definition derefString :: "string option \<Rightarrow> string" where
  "derefString s = (case s of None \<Rightarrow> [] | Some v \<Rightarrow> v)"

lemma derefString_simps [simp]: "derefString None = []" "derefString (Some v) = v"
  by (simp_all add: derefString_def)

end
