(* ===== verification/WaJid.thy ===== *)
theory WaJid
  imports WaSession
begin

text \<open>
  \<open>internal/wa/address.go\<close> and \<open>parseJID\<close> of \<open>internal/wa/manager.go\<close>. The type \<open>types.JID\<close> and
  its functions belong to whatsmeow: they are the parameter \<open>L\<close> of every definition, over an
  arbitrary type \<open>'j\<close> of addresses. What whatsmeow documents of them is \<open>jid_laws\<close>, a hypothesis
  of the properties that need it; \<open>plain_jids\<close> is an instance, so the hypothesis can hold.
\<close>

section \<open>The address library\<close>

record 'j jid_lib =
  jUser :: "'j \<Rightarrow> string"
  jServer :: "'j \<Rightarrow> string"
  jIsEmpty :: "'j \<Rightarrow> bool"
  ToNonAD :: "'j \<Rightarrow> 'j"
  jString :: "'j \<Rightarrow> string"
  ParseJID :: "string \<Rightarrow> 'j option"
  EmptyJID :: 'j
  DefaultUserServer :: string
  HiddenUserServer :: string
  GroupServer :: string
  BroadcastServer :: string
  NewsletterServer :: string
  StatusUser :: string

definition jid_laws :: "'j jid_lib \<Rightarrow> bool" where
  "jid_laws L \<longleftrightarrow>
     (\<forall>j. jUser L (ToNonAD L j) = jUser L j \<and> jServer L (ToNonAD L j) = jServer L j \<and>
          ToNonAD L (ToNonAD L j) = ToNonAD L j \<and> jIsEmpty L (ToNonAD L j) = jIsEmpty L j) \<and>
     (\<forall>j. jUser L j \<noteq> [] \<and> ToNonAD L j = j \<longrightarrow> jString L j = jUser L j @ CHR ''@'' # jServer L j) \<and>
     (\<forall>j. jIsEmpty L j \<longleftrightarrow> jServer L j = []) \<and>
     jIsEmpty L (EmptyJID L) \<and> jUser L (EmptyJID L) = [] \<and>
     distinct [DefaultUserServer L, HiddenUserServer L, GroupServer L, BroadcastServer L, NewsletterServer L] \<and>
     DefaultUserServer L \<noteq> [] \<and> HiddenUserServer L \<noteq> []"

section \<open>Definitions\<close>

text \<open>The LID index of a client: \<open>None\<close> where there is no client, and per LID an error or an address.\<close>

type_synonym 'j lidResolver = "('j \<Rightarrow> 'j option) option"

definition canonicalJID :: "'j jid_lib \<Rightarrow> 'j lidResolver \<Rightarrow> 'j \<Rightarrow> 'j \<Rightarrow> 'j \<times> bool" where
  "canonicalJID L lids jid alt =
     (if jIsEmpty L jid then (jid, True)
      else if jServer L jid \<noteq> HiddenUserServer L then (ToNonAD L jid, True)
      else if jServer L alt = DefaultUserServer L \<and> jUser L alt \<noteq> [] then (ToNonAD L alt, True)
      else
        (case lids of
           None \<Rightarrow> (ToNonAD L jid, False)
         | Some get \<Rightarrow>
             (case get (ToNonAD L jid) of
                None \<Rightarrow> (ToNonAD L jid, False)
              | Some pn \<Rightarrow>
                  if \<not> jIsEmpty L pn then (ToNonAD L pn, True) else (ToNonAD L jid, False))))"

definition is_digit :: "char \<Rightarrow> bool" where
  "is_digit c \<longleftrightarrow> CHR ''0'' \<le> c \<and> c \<le> CHR ''9''"

text \<open>
  \<open>notDigits.ReplaceAllString(raw, "")\<close>: \<open>\D\<close> matches every rune that is no ASCII digit, and a byte
  of a longer or broken rune is never one.
\<close>

definition only_digits :: "string \<Rightarrow> string" where
  "only_digits s = filter is_digit s"

definition parseJID :: "'j jid_lib \<Rightarrow> string \<Rightarrow> wa_error + 'j" where
  "parseJID L raw0 =
     (let raw = TrimSpace raw0 in
      if raw = [] then Inl ErrInvalidJID
      else if CHR ''@'' \<notin> set raw \<and> only_digits raw = [] then Inl ErrInvalidJID
      else
        (let raw' = (if CHR ''@'' \<notin> set raw then only_digits raw @ CHR ''@'' # DefaultUserServer L else raw) in
         case ParseJID L raw' of
           None \<Rightarrow> Inl ErrInvalidJID
         | Some jid \<Rightarrow> if jUser L jid = [] then Inl ErrInvalidJID else Inr jid))"

definition sendDestination ::
  "'j jid_lib \<Rightarrow> 'j lidResolver \<Rightarrow> string \<Rightarrow> wa_error + 'j \<times> bool" where
  "sendDestination L lids toJID =
     (case parseJID L toJID of
        Inl e \<Rightarrow> Inl e
      | Inr jid \<Rightarrow> Inr (canonicalJID L lids jid (EmptyJID L)))"

text \<open>\<open>types.MessageSource\<close>, the fields the gateway reads.\<close>

record 'j MessageSource =
  src_Chat :: 'j
  src_Sender :: 'j
  src_IsFromMe :: bool
  src_IsGroup :: bool
  src_SenderAlt :: 'j
  src_RecipientAlt :: 'j

definition chatAlt :: "'j jid_lib \<Rightarrow> 'j MessageSource \<Rightarrow> 'j" where
  "chatAlt L source =
     (if src_IsGroup source then EmptyJID L
      else if src_IsFromMe source then src_RecipientAlt source
      else src_SenderAlt source)"

section \<open>An instance\<close>

datatype plain_jid = PlainJID (pj_user: string) (pj_device: nat) (pj_server: string)

definition show_plain :: "plain_jid \<Rightarrow> string" where
  "show_plain j =
     (if pj_user j = [] then pj_server j
      else pj_user j @ (if pj_device j = 0 then [] else '':'' @ replicate (pj_device j) (CHR ''1'')) @
        CHR ''@'' # pj_server j)"

definition plain_jids :: "plain_jid jid_lib" where
  "plain_jids =
     \<lparr>jUser = pj_user, jServer = pj_server, jIsEmpty = (\<lambda>j. pj_server j = []),
      ToNonAD = (\<lambda>j. PlainJID (pj_user j) 0 (pj_server j)), jString = show_plain,
      ParseJID = (\<lambda>s. case Cut s (CHR ''@'') of (u, srv, found) \<Rightarrow>
         if \<not> found then Some (PlainJID [] 0 u)
         else case Cut u (CHR '':'') of (u', dev, _) \<Rightarrow> Some (PlainJID u' (length dev) srv)),
      EmptyJID = PlainJID [] 0 [],
      DefaultUserServer = ''s.whatsapp.net'', HiddenUserServer = ''lid'', GroupServer = ''g.us'',
      BroadcastServer = ''broadcast'', NewsletterServer = ''newsletter'', StatusUser = ''status''\<rparr>"

lemma plain_jids_laws: "jid_laws plain_jids"
proof -
  have "show_plain j = pj_user j @ CHR ''@'' # pj_server j" if "pj_user j \<noteq> []" "PlainJID (pj_user j) 0 (pj_server j) = j" for j
    using that by (cases j) (auto simp: show_plain_def)
  then show ?thesis by (simp add: jid_laws_def plain_jids_def)
qed

section \<open>Canonical addresses\<close>

lemma jid_laws_D:
  assumes "jid_laws L"
  shows "jUser L (ToNonAD L j) = jUser L j" "jServer L (ToNonAD L j) = jServer L j"
    "ToNonAD L (ToNonAD L j) = ToNonAD L j" "jIsEmpty L (ToNonAD L j) = jIsEmpty L j"
    "jIsEmpty L j \<longleftrightarrow> jServer L j = []" "jServer L (EmptyJID L) = []" "jUser L (EmptyJID L) = []"
    "DefaultUserServer L \<noteq> HiddenUserServer L" "DefaultUserServer L \<noteq> []" "HiddenUserServer L \<noteq> []"
    "jUser L j \<noteq> [] \<Longrightarrow> ToNonAD L j = j \<Longrightarrow> jString L j = jUser L j @ CHR ''@'' # jServer L j"
  using assms by (auto simp: jid_laws_def)

text \<open>Where a canonical address can come from.\<close>

lemma canonicalJID_cases:
  assumes "canonicalJID L lids jid alt = (c, ok)" and "\<not> jIsEmpty L jid"
  obtains (own) "jServer L jid \<noteq> HiddenUserServer L" "c = ToNonAD L jid" "ok"
    | (alt) "jServer L jid = HiddenUserServer L" "jServer L alt = DefaultUserServer L" "jUser L alt \<noteq> []"
        "c = ToNonAD L alt" "ok"
    | (index) get pn where "jServer L jid = HiddenUserServer L" "lids = Some get"
        "get (ToNonAD L jid) = Some pn" "\<not> jIsEmpty L pn" "c = ToNonAD L pn" "ok"
    | (kept) "jServer L jid = HiddenUserServer L" "c = ToNonAD L jid" "\<not> ok"
  using assms by (auto simp: canonicalJID_def split: if_splits option.splits)

lemma canonicalJID_nonAD:
  assumes "jid_laws L" and "\<not> jIsEmpty L jid"
  shows "ToNonAD L (fst (canonicalJID L lids jid alt)) = fst (canonicalJID L lids jid alt)"
    and "\<not> jIsEmpty L (fst (canonicalJID L lids jid alt))"
proof -
  obtain c ok where c: "canonicalJID L lids jid alt = (c, ok)" by fastforce
  show "ToNonAD L (fst (canonicalJID L lids jid alt)) = fst (canonicalJID L lids jid alt)"
    and "\<not> jIsEmpty L (fst (canonicalJID L lids jid alt))"
    using c assms(2) jid_laws_D [OF assms(1)]
    by (cases rule: canonicalJID_cases; simp)+
qed

lemma canonicalJID_phone_fixed:
  assumes "jid_laws L" and "jServer L c \<noteq> HiddenUserServer L" and "ToNonAD L c = c"
  shows "canonicalJID L lids c alt = (c, True)"
  using assms by (simp add: canonicalJID_def)

lemma parseJID_Inr:
  assumes "parseJID L s = Inr j"
  shows "jUser L j \<noteq> []" and "\<exists>raw. ParseJID L raw = Some j"
  using assms by (auto simp: parseJID_def Let_def split: if_splits option.splits)

end
