(* ===== verification/Pending.thy ===== *)
theory Pending
  imports WaSession
begin

text \<open>
  \<open>internal/wa/pending.go\<close>: the registry in which a history request waits for its reply. A
  channel is a number; \<open>buf\<close> is what its buffer of capacity one holds and \<open>received\<close> which
  channels a caller has read. \<open>deliver\<close> takes its waiter under the mutex and sends after
  unlocking, so it is two steps here, and \<open>inflight\<close> holds the deliveries between them.
  \<open>release\<close> runs its body once per registration (\<open>sync.Once\<close>), which \<open>released\<close> records.
\<close>

section \<open>State and operations\<close>

record historyDelivery =
  hd_Inserted :: nat
  hd_Delivered :: nat
  hd_Oldest :: gotime

record pendingHistory =
  waiters :: "(string \<times> nat) list"
  nextCh :: nat
  buf :: "nat \<Rightarrow> historyDelivery list"
  inflight :: "(nat \<times> historyDelivery) list"
  received :: "nat list"
  released :: "nat list"

definition newPendingHistory :: pendingHistory where
  "newPendingHistory =
     \<lparr>waiters = [], nextCh = 0, buf = (\<lambda>_. []), inflight = [], received = [], released = []\<rparr>"

definition historyKey :: "string \<Rightarrow> string \<Rightarrow> string" where
  "historyKey tenantID chatJID = tenantID @ CHR 0x00 # chatJID"

definition register :: "string \<Rightarrow> pendingHistory \<Rightarrow> (wa_error + nat) \<times> pendingHistory" where
  "register key p =
     (if map_of (waiters p) key \<noteq> None then (Inl ErrSyncInProgress, p)
      else (Inr (nextCh p), p\<lparr>waiters := (key, nextCh p) # waiters p, nextCh := Suc (nextCh p)\<rparr>))"

definition delete_key :: "string \<Rightarrow> (string \<times> nat) list \<Rightarrow> (string \<times> nat) list" where
  "delete_key key ws = filter (\<lambda>w. fst w \<noteq> key) ws"

definition release :: "string \<Rightarrow> nat \<Rightarrow> pendingHistory \<Rightarrow> pendingHistory" where
  "release key ch p =
     (if ch \<in> set (released p) then p
      else
        (let p' = p\<lparr>released := ch # released p\<rparr> in
         if map_of (waiters p) key = Some ch then p'\<lparr>waiters := delete_key key (waiters p)\<rparr> else p'))"

text \<open>The two halves of \<open>deliver\<close>; the send is \<open>None\<close> where the channel's buffer is full.\<close>

definition deliver_take :: "string \<Rightarrow> historyDelivery \<Rightarrow> pendingHistory \<Rightarrow> bool \<times> pendingHistory" where
  "deliver_take key d p =
     (case map_of (waiters p) key of
        None \<Rightarrow> (False, p)
      | Some ch \<Rightarrow> (True, p\<lparr>waiters := delete_key key (waiters p), inflight := (ch, d) # inflight p\<rparr>))"

definition deliver_send :: "nat \<Rightarrow> historyDelivery \<Rightarrow> pendingHistory \<Rightarrow> pendingHistory option" where
  "deliver_send ch d p =
     (if length (buf p ch) < 1
      then Some (p\<lparr>buf := (buf p)(ch := buf p ch @ [d]), inflight := remove1 (ch, d) (inflight p)\<rparr>)
      else None)"

text \<open>A call of \<open>deliver\<close> with nothing between its halves.\<close>

definition deliver :: "string \<Rightarrow> historyDelivery \<Rightarrow> pendingHistory \<Rightarrow> (bool \<times> pendingHistory) option" where
  "deliver key d p =
     (case map_of (waiters p) key of
        None \<Rightarrow> Some (False, p)
      | Some ch \<Rightarrow> map_option (\<lambda>p'. (True, p')) (deliver_send ch d (snd (deliver_take key d p))))"

definition receive :: "nat \<Rightarrow> pendingHistory \<Rightarrow> (historyDelivery \<times> pendingHistory) option" where
  "receive ch p =
     (case buf p ch of
        [] \<Rightarrow> None
      | d # ds \<Rightarrow> Some (d, p\<lparr>buf := (buf p)(ch := ds), received := ch # received p\<rparr>))"

definition waiterCount :: "pendingHistory \<Rightarrow> nat" where
  "waiterCount p = length (waiters p)"

section \<open>Interleavings\<close>

inductive pending_step :: "pendingHistory \<Rightarrow> pendingHistory \<Rightarrow> bool" where
  registers: "register key p = (r, p') \<Longrightarrow> pending_step p p'"
| releases: "ch < nextCh p \<Longrightarrow> pending_step p (release key ch p)"
| takes: "deliver_take key d p = (b, p') \<Longrightarrow> pending_step p p'"
| sends: "(ch, d) \<in> set (inflight p) \<Longrightarrow> deliver_send ch d p = Some p' \<Longrightarrow> pending_step p p'"
| receives: "receive ch p = Some (d, p') \<Longrightarrow> pending_step p p'"

inductive_cases pending_step_cases: "pending_step p p'"

definition reachable_pending :: "pendingHistory \<Rightarrow> bool" where
  "reachable_pending p \<longleftrightarrow> pending_step\<^sup>*\<^sup>* newPendingHistory p"

text \<open>How often a channel still occurs, as a waiter, in flight, buffered or read.\<close>

definition tokens :: "pendingHistory \<Rightarrow> nat \<Rightarrow> nat" where
  "tokens p ch =
     count_list (map snd (waiters p)) ch + count_list (map fst (inflight p)) ch +
     length (buf p ch) + count_list (received p) ch"

definition pending_ok :: "pendingHistory \<Rightarrow> bool" where
  "pending_ok p \<longleftrightarrow>
     distinct (map fst (waiters p)) \<and> (\<forall>ch. tokens p ch \<le> (if ch < nextCh p then 1 else 0))"

lemma delete_key_id: "key \<notin> fst ` set ws \<Longrightarrow> delete_key key ws = ws"
  unfolding delete_key_def by (rule filter_True) auto

lemma delete_key_count:
  "distinct (map fst ws) \<Longrightarrow> map_of ws key = Some ch \<Longrightarrow>
   count_list (map snd ws) c = count_list (map snd (delete_key key ws)) c + (if c = ch then 1 else 0)"
proof (induction ws)
  case (Cons w ws)
  show ?case
  proof (cases "fst w = key")
    case True
    then have "delete_key key (w # ws) = ws"
      using Cons.prems(1) delete_key_id [of key ws] by (simp add: delete_key_def)
    with True Cons.prems(2) show ?thesis by (cases w) auto
  next
    case False
    with Cons show ?thesis by (cases w) (auto simp: delete_key_def)
  qed
qed simp

lemma distinct_delete_key: "distinct (map fst ws) \<Longrightarrow> distinct (map fst (delete_key key ws))"
  unfolding delete_key_def by (rule distinct_map_filter)

lemma count_remove1_fst:
  "(ch, d) \<in> set xs \<Longrightarrow>
   count_list (map fst xs) c = count_list (map fst (remove1 (ch, d) xs)) c + (if c = ch then 1 else 0)"
  by (induction xs) auto

lemma map_of_None_key: "map_of ws key = None \<Longrightarrow> key \<notin> fst ` set ws"
  by (simp add: map_of_eq_None_iff)

lemma pending_ok_new: "pending_ok newPendingHistory"
  by (simp add: pending_ok_def newPendingHistory_def tokens_def)

lemma pending_ok_register: "register key p = (r, p') \<Longrightarrow> pending_ok p \<Longrightarrow> pending_ok p'"
  by (auto simp: register_def pending_ok_def tokens_def less_Suc_eq dest: map_of_None_key split: if_splits)

lemma pending_ok_delete:
  assumes "pending_ok p" and "map_of (waiters p) key = Some ch"
  shows "pending_ok (p\<lparr>waiters := delete_key key (waiters p)\<rparr>)"
  unfolding pending_ok_def
proof (intro conjI allI)
  show "distinct (map fst (waiters (p\<lparr>waiters := delete_key key (waiters p)\<rparr>)))"
    using assms(1) by (simp add: pending_ok_def distinct_delete_key)
  fix c
  have "tokens p c \<le> (if c < nextCh p then 1 else 0)" using assms(1) by (simp add: pending_ok_def)
  then show "tokens (p\<lparr>waiters := delete_key key (waiters p)\<rparr>) c \<le>
      (if c < nextCh (p\<lparr>waiters := delete_key key (waiters p)\<rparr>) then 1 else 0)"
    using delete_key_count [of "waiters p" key ch c] assms by (simp add: pending_ok_def tokens_def)
qed

lemma pending_ok_released [simp]: "pending_ok (p\<lparr>released := x\<rparr>) = pending_ok p"
  by (simp add: pending_ok_def tokens_def)

lemma pending_ok_release: "pending_ok p \<Longrightarrow> pending_ok (release key ch p)"
  using pending_ok_delete [of "p\<lparr>released := ch # released p\<rparr>" key ch]
  by (auto simp: release_def Let_def)

lemma pending_ok_take:
  assumes "deliver_take key d p = (b, p')" and "pending_ok p"
  shows "pending_ok p'"
proof (cases "map_of (waiters p) key")
  case None
  with assms show ?thesis by (simp add: deliver_take_def)
next
  case (Some ch)
  then have p': "p' = p\<lparr>waiters := delete_key key (waiters p), inflight := (ch, d) # inflight p\<rparr>"
    using assms(1) by (simp add: deliver_take_def)
  have "tokens p' c = tokens p c" for c
    using delete_key_count [of "waiters p" key ch c] assms(2) Some by (simp add: p' pending_ok_def tokens_def)
  then show ?thesis using assms(2) by (simp add: pending_ok_def p' distinct_delete_key)
qed

lemma pending_ok_send:
  assumes "(ch, d) \<in> set (inflight p)" and "deliver_send ch d p = Some p'" and "pending_ok p"
  shows "pending_ok p'"
proof -
  have p': "p' = p\<lparr>buf := (buf p)(ch := buf p ch @ [d]), inflight := remove1 (ch, d) (inflight p)\<rparr>"
    using assms(2) by (simp add: deliver_send_def split: if_splits)
  have "tokens p' c = tokens p c" for c
    using count_remove1_fst [OF assms(1), of c] by (simp add: p' tokens_def)
  then show ?thesis using assms(3) by (simp add: pending_ok_def p')
qed

lemma pending_ok_receive:
  assumes "receive ch p = Some (d, p')" and "pending_ok p"
  shows "pending_ok p'"
proof -
  obtain ds where b: "buf p ch = d # ds" and p': "p' = p\<lparr>buf := (buf p)(ch := ds), received := ch # received p\<rparr>"
    using assms(1) by (auto simp: receive_def split: list.splits)
  have "tokens p' c = tokens p c" for c by (cases "c = ch") (simp_all add: p' tokens_def b)
  then show ?thesis using assms(2) by (simp add: pending_ok_def p')
qed

lemma pending_step_ok: "pending_step p p' \<Longrightarrow> pending_ok p \<Longrightarrow> pending_ok p'"
  by (erule pending_step_cases)
     (auto dest: pending_ok_register pending_ok_take pending_ok_send pending_ok_receive simp: pending_ok_release)

lemma reachable_pending_ok: "reachable_pending p \<Longrightarrow> pending_ok p"
  unfolding reachable_pending_def
  by (induction rule: rtranclp_induct) (auto simp: pending_ok_new dest: pending_step_ok)

lemma reachable_pending_step: "reachable_pending p \<Longrightarrow> pending_step p p' \<Longrightarrow> reachable_pending p'"
  unfolding reachable_pending_def by (rule rtranclp.rtrancl_into_rtrancl)

section \<open>What the registry promises\<close>

text \<open>A channel in flight has room, so the send after unlocking never blocks.\<close>

lemma inflight_has_room:
  assumes "pending_ok p" and "(ch, d) \<in> set (inflight p)"
  shows "buf p ch = []" and "ch \<notin> set (received p)" and "ch < nextCh p"
proof -
  have pos: "1 \<le> count_list (map fst (inflight p)) ch"
    using assms(2) by (metis One_nat_def Suc_leI count_list_0_iff fst_conv image_eqI list.set_map not_gr_zero)
  have t: "tokens p ch \<le> (if ch < nextCh p then 1 else 0)" using assms(1) by (simp add: pending_ok_def)
  with pos show "ch < nextCh p" by (auto simp: tokens_def split: if_splits)
  have le: "tokens p ch \<le> 1" using t by (auto split: if_splits)
  have "length (buf p ch) = 0" "count_list (received p) ch = 0"
    using le pos unfolding tokens_def by linarith+
  then show "buf p ch = []" and "ch \<notin> set (received p)" by (simp_all add: count_list_0_iff)
qed

lemma register_then_busy:
  "register key p = (Inr ch, p') \<Longrightarrow> fst (register key p') = Inl ErrSyncInProgress"
  by (auto simp: register_def split: if_splits)

lemma release_own:
  assumes "pending_ok p" and "ch \<notin> set (released p)"
  shows "waiters (release key ch p) = filter (\<lambda>w. w \<noteq> (key, ch)) (waiters p)"
proof (cases "map_of (waiters p) key = Some ch")
  case True
  have "fst w \<noteq> key \<longleftrightarrow> w \<noteq> (key, ch)" if "w \<in> set (waiters p)" for w
  proof -
    have "map_of (waiters p) (fst w) = Some (snd w)"
      using that assms(1) map_of_is_SomeI [of "waiters p" "fst w" "snd w"] by (simp add: pending_ok_def)
    with True show ?thesis by (cases w) auto
  qed
  with True assms(2) show ?thesis by (simp add: release_def delete_key_def cong: filter_cong)
next
  case False
  then have "(key, ch) \<notin> set (waiters p)"
    using assms(1) map_of_is_SomeI [of "waiters p" key ch] by (auto simp: pending_ok_def)
  then have "filter (\<lambda>w. w \<noteq> (key, ch)) (waiters p) = waiters p" by (intro filter_True) auto
  with False assms(2) show ?thesis by (simp add: release_def)
qed

lemma release_released: "ch \<in> set (released (release key ch p))"
  by (simp add: release_def Let_def)

lemma release_again: "release key ch (release key ch p) = release key ch p"
  unfolding release_def [of key ch "release key ch p"] by (simp only: release_released if_True)

lemma historyKey_inj:
  assumes "CHR 0x00 \<notin> set t" and "CHR 0x00 \<notin> set t'"
  shows "historyKey t c = historyKey t' c' \<longleftrightarrow> t = t' \<and> c = c'"
proof
  assume "historyKey t c = historyKey t' c'"
  then have "Cut (t @ CHR 0x00 # c) (CHR 0x00) = Cut (t' @ CHR 0x00 # c') (CHR 0x00)"
    unfolding historyKey_def by (rule arg_cong)
  then show "t = t' \<and> c = c'" unfolding Cut_append [OF assms(1)] Cut_append [OF assms(2)] by simp
qed simp

end
