(* ===== verification/MediaReference.thy ===== *)
theory MediaReference
  imports WaSession
begin

text \<open>
  \<open>internal/wa/media_reference.go\<close>, with \<open>extractText\<close> of \<open>internal/wa/manager.go\<close> and
  \<open>mediaTypeFor\<close> of \<open>internal/wa/media.go\<close>. \<open>proto_message\<close> is the part of the generated
  \<open>waE2E.Message\<close> the gateway reads: a field per getter it calls, an unset field being \<open>None\<close>. The
  five wrappers hold a \<open>FutureProofMessage\<close>, whose own message can be missing. Which key class
  whatsmeow derives for an attachment (\<open>whatsmeow.GetMediaType\<close>) is the parameter \<open>gmt\<close>.
\<close>

section \<open>Messages as WhatsApp delivers them\<close>

record attachment =
  at_Mimetype :: string
  at_FileLength :: nat
  at_DirectPath :: string
  at_MediaKey :: string
  at_FileEncSHA256 :: string
  at_FileSHA256 :: string
  at_Caption :: string
  at_Flag :: bool

text \<open>\<open>at_Flag\<close> is \<open>PTT\<close> on an audio part and \<open>GifPlayback\<close> on a video part.\<close>

datatype proto_message = ProtoMessage
  (Conversation: string)
  (ExtendedTextMessage: "string option")
  (ImageMessage: "attachment option")
  (StickerMessage: "attachment option")
  (DocumentMessage: "attachment option")
  (AudioMessage: "attachment option")
  (VideoMessage: "attachment option")
  (ContactMessage: bool)
  (LocationMessage: bool)
  (LiveLocationMessage: bool)
  (EphemeralMessage: "proto_message option option")
  (ViewOnceMessage: "proto_message option option")
  (ViewOnceMessageV2: "proto_message option option")
  (ViewOnceMessageV2Extension: "proto_message option option")
  (DocumentWithCaptionMessage: "proto_message option option")

datatype part_kind = ImagePart | StickerPart | DocumentPart | AudioPart | VideoPart

datatype wa_media_type = MediaImage | MediaAudio | MediaVideo | MediaDocument | OtherMedia string

type_synonym media_classes = "part_kind \<Rightarrow> wa_media_type"

section \<open>Definitions\<close>

record mediaRef =
  ref_MediaType :: string
  ref_MMSType :: string
  ref_MimeType :: string
  ref_DirectPath :: string
  ref_MediaKey :: string
  ref_FileEncSHA256 :: string
  ref_FileSHA256 :: string
  ref_FileLength :: int

definition emptyRef :: mediaRef where
  "emptyRef =
     \<lparr>ref_MediaType = [], ref_MMSType = [], ref_MimeType = [], ref_DirectPath = [], ref_MediaKey = [],
      ref_FileEncSHA256 = [], ref_FileSHA256 = [], ref_FileLength = 0\<rparr>"

definition downloadable :: "mediaRef \<Rightarrow> bool" where
  "downloadable r \<longleftrightarrow> ref_DirectPath r \<noteq> []"

definition mmsTypeFor :: "wa_media_type \<Rightarrow> string" where
  "mmsTypeFor t =
     (case t of MediaImage \<Rightarrow> ''image'' | MediaAudio \<Rightarrow> ''audio'' | MediaVideo \<Rightarrow> ''video''
      | MediaDocument \<Rightarrow> ''document'' | OtherMedia _ \<Rightarrow> [])"

definition mediaTypeFor :: "unicode_lower \<Rightarrow> string \<Rightarrow> wa_media_type" where
  "mediaTypeFor utl mmsType =
     (let t = ToLower utl (TrimSpace mmsType) in
      if t = ''image'' then MediaImage
      else if t = ''audio'' then MediaAudio
      else if t = ''video'' then MediaVideo
      else if t = ''document'' then MediaDocument
      else OtherMedia [])"

text \<open>The conversion \<open>int64(length)\<close> of a \<open>uint64\<close>.\<close>

definition int64_of_uint64 :: "nat \<Rightarrow> int" where
  "int64_of_uint64 n = (if int n mod 2 ^ 64 < 2 ^ 63 then int n mod 2 ^ 64 else int n mod 2 ^ 64 - 2 ^ 64)"

definition downloadRef :: "media_classes \<Rightarrow> string \<Rightarrow> part_kind \<Rightarrow> attachment \<Rightarrow> mediaRef" where
  "downloadRef gmt mediaType kind part =
     \<lparr>ref_MediaType = mediaType, ref_MMSType = mmsTypeFor (gmt kind), ref_MimeType = at_Mimetype part,
      ref_DirectPath = at_DirectPath part, ref_MediaKey = at_MediaKey part,
      ref_FileEncSHA256 = at_FileEncSHA256 part, ref_FileSHA256 = at_FileSHA256 part,
      ref_FileLength = int64_of_uint64 (at_FileLength part)\<rparr>"

text \<open>The cases of \<open>mediaReference\<close> after the wrappers.\<close>

definition partReference :: "media_classes \<Rightarrow> proto_message \<Rightarrow> mediaRef" where
  "partReference gmt msg =
     (case ImageMessage msg of Some part \<Rightarrow> downloadRef gmt ''image'' ImagePart part | None \<Rightarrow>
      case StickerMessage msg of Some part \<Rightarrow> downloadRef gmt ''sticker'' StickerPart part | None \<Rightarrow>
      case DocumentMessage msg of Some part \<Rightarrow> downloadRef gmt ''document'' DocumentPart part | None \<Rightarrow>
      case AudioMessage msg of
        Some part \<Rightarrow> downloadRef gmt (if at_Flag part then ''ptt'' else ''audio'') AudioPart part | None \<Rightarrow>
      case VideoMessage msg of
        Some part \<Rightarrow> downloadRef gmt (if at_Flag part then ''gif'' else ''video'') VideoPart part | None \<Rightarrow>
      if ContactMessage msg then emptyRef\<lparr>ref_MediaType := ''vcard''\<rparr>
      else if LocationMessage msg \<or> LiveLocationMessage msg then emptyRef\<lparr>ref_MediaType := ''location''\<rparr>
      else emptyRef)"

lemma wrapped_smaller:
  "EphemeralMessage msg = Some inner \<or> ViewOnceMessage msg = Some inner \<or> ViewOnceMessageV2 msg = Some inner \<or>
   ViewOnceMessageV2Extension msg = Some inner \<or> DocumentWithCaptionMessage msg = Some inner \<Longrightarrow>
   size_option size inner < Suc (size msg)"
  by (cases msg) auto

text \<open>\<open>None\<close> is a nil message.\<close>

function mediaReference :: "media_classes \<Rightarrow> proto_message option \<Rightarrow> mediaRef" where
  "mediaReference gmt None = emptyRef"
| "mediaReference gmt (Some msg) =
     (case EphemeralMessage msg of Some inner \<Rightarrow> mediaReference gmt inner | None \<Rightarrow>
      case ViewOnceMessage msg of Some inner \<Rightarrow> mediaReference gmt inner | None \<Rightarrow>
      case ViewOnceMessageV2 msg of Some inner \<Rightarrow> mediaReference gmt inner | None \<Rightarrow>
      case ViewOnceMessageV2Extension msg of Some inner \<Rightarrow> mediaReference gmt inner | None \<Rightarrow>
      case DocumentWithCaptionMessage msg of Some inner \<Rightarrow> mediaReference gmt inner | None \<Rightarrow>
      partReference gmt msg)"
  by pat_completeness auto
termination
  by (relation "measure (\<lambda>p. size_option size (snd p))") (auto simp: wrapped_smaller)

definition applyMediaReference :: "Message \<Rightarrow> mediaRef \<Rightarrow> Message" where
  "applyMediaReference record0 ref =
     (let r1 = (if ref_MediaType ref \<noteq> [] then record0\<lparr>m_MediaType := Some (ref_MediaType ref)\<rparr> else record0) in
      if \<not> downloadable ref then r1
      else
        (let r2 = r1\<lparr>m_DirectPath := Some (ref_DirectPath ref), m_MediaKey := ref_MediaKey ref,
                     m_FileEncSHA256 := ref_FileEncSHA256 ref, m_FileSHA256 := ref_FileSHA256 ref\<rparr>;
             r3 = (if ref_MimeType ref \<noteq> [] then r2\<lparr>m_MimeType := Some (ref_MimeType ref)\<rparr> else r2);
             r4 = (if ref_MMSType ref \<noteq> [] then r3\<lparr>m_MMSType := Some (ref_MMSType ref)\<rparr> else r3)
         in if ref_FileLength ref > 0 then r4\<lparr>m_FileLength := Some (ref_FileLength ref)\<rparr> else r4))"

definition extractText :: "proto_message option \<Rightarrow> string" where
  "extractText m =
     (case m of None \<Rightarrow> []
      | Some msg \<Rightarrow>
          if Conversation msg \<noteq> [] then Conversation msg
          else case ExtendedTextMessage msg of Some t \<Rightarrow> t | None \<Rightarrow>
               case ImageMessage msg of Some p \<Rightarrow> at_Caption p | None \<Rightarrow>
               case VideoMessage msg of Some p \<Rightarrow> at_Caption p | None \<Rightarrow>
               case DocumentMessage msg of Some p \<Rightarrow> at_Caption p | None \<Rightarrow> [])"

section \<open>Lemmas\<close>

definition emptyProto :: proto_message where
  "emptyProto = ProtoMessage [] None None None None None None False False False None None None None None"

text \<open>The message inside all wrappers.\<close>

inductive unwraps :: "proto_message option \<Rightarrow> proto_message option \<Rightarrow> bool" where
  here: "unwraps m m"
| ephemeral: "EphemeralMessage msg = Some inner \<Longrightarrow> unwraps inner m \<Longrightarrow> unwraps (Some msg) m"
| once: "EphemeralMessage msg = None \<Longrightarrow> ViewOnceMessage msg = Some inner \<Longrightarrow> unwraps inner m \<Longrightarrow>
    unwraps (Some msg) m"
| once2: "EphemeralMessage msg = None \<Longrightarrow> ViewOnceMessage msg = None \<Longrightarrow> ViewOnceMessageV2 msg = Some inner \<Longrightarrow>
    unwraps inner m \<Longrightarrow> unwraps (Some msg) m"
| once2x: "EphemeralMessage msg = None \<Longrightarrow> ViewOnceMessage msg = None \<Longrightarrow> ViewOnceMessageV2 msg = None \<Longrightarrow>
    ViewOnceMessageV2Extension msg = Some inner \<Longrightarrow> unwraps inner m \<Longrightarrow> unwraps (Some msg) m"
| captioned: "EphemeralMessage msg = None \<Longrightarrow> ViewOnceMessage msg = None \<Longrightarrow> ViewOnceMessageV2 msg = None \<Longrightarrow>
    ViewOnceMessageV2Extension msg = None \<Longrightarrow> DocumentWithCaptionMessage msg = Some inner \<Longrightarrow>
    unwraps inner m \<Longrightarrow> unwraps (Some msg) m"

lemma mediaReference_unwraps: "unwraps m0 m \<Longrightarrow> mediaReference gmt m0 = mediaReference gmt m"
  by (induction rule: unwraps.induct) simp_all

lemma partReference_class:
  "downloadable (partReference gmt msg) \<Longrightarrow> \<exists>kind. ref_MMSType (partReference gmt msg) = mmsTypeFor (gmt kind)"
  by (auto simp: partReference_def downloadRef_def downloadable_def emptyRef_def split: option.splits if_splits)

text \<open>Every reference is the one of some unwrapped message, or of none.\<close>

lemma case_wrapper:
  "(\<And>inner. w = Some inner \<Longrightarrow> P (f inner)) \<Longrightarrow> (w = None \<Longrightarrow> P r) \<Longrightarrow>
   P (case w of Some inner \<Rightarrow> f inner | None \<Rightarrow> r)"
  by (cases w) simp_all

lemma mediaReference_inner:
  assumes "P emptyRef" and "\<And>msg. P (partReference gmt msg)"
  shows "P (mediaReference gmt m)"
proof (induction "size_option size m" arbitrary: m rule: less_induct)
  case less
  show ?case
  proof (cases m)
    case None
    then show ?thesis using assms(1) by simp
  next
    case (Some msg)
    have inner: "P (mediaReference gmt inner)"
      if "EphemeralMessage msg = Some inner \<or> ViewOnceMessage msg = Some inner \<or> ViewOnceMessageV2 msg = Some inner \<or>
        ViewOnceMessageV2Extension msg = Some inner \<or> DocumentWithCaptionMessage msg = Some inner" for inner
      using less [of inner] wrapped_smaller [OF that] Some by simp
    show ?thesis
      unfolding Some mediaReference.simps
      by (rule case_wrapper [where P = P], rule inner, simp)+ (rule assms(2))
  qed
qed

lemma mediaReference_class:
  assumes "downloadable (mediaReference gmt m)"
  shows "\<exists>kind. ref_MMSType (mediaReference gmt m) = mmsTypeFor (gmt kind)"
proof -
  have "downloadable (mediaReference gmt m) \<longrightarrow> (\<exists>kind. ref_MMSType (mediaReference gmt m) = mmsTypeFor (gmt kind))"
    by (rule mediaReference_inner [where P = "\<lambda>r. downloadable r \<longrightarrow> (\<exists>kind. ref_MMSType r = mmsTypeFor (gmt kind))"])
       (simp add: downloadable_def emptyRef_def, intro impI partReference_class)
  with assms show ?thesis by blast
qed

lemma mms_literals:
  "TrimSpace ''image'' = ''image''" "TrimSpace ''audio'' = ''audio''"
  "TrimSpace ''video'' = ''video''" "TrimSpace ''document'' = ''document''"
  by (simp_all add: trim_eval)

lemma mms_lower:
  "ToLower utl ''image'' = ''image''" "ToLower utl ''audio'' = ''audio''"
  "ToLower utl ''video'' = ''video''" "ToLower utl ''document'' = ''document''"
  by (simp_all add: ToLower_def is_ascii_def char_eval)

lemma mediaTypeFor_mms: "t \<in> {MediaImage, MediaAudio, MediaVideo, MediaDocument} \<Longrightarrow> mediaTypeFor utl (mmsTypeFor t) = t"
  by (auto simp: mediaTypeFor_def mmsTypeFor_def mms_literals mms_lower)

lemma applyMediaReference_keeps:
  "m_ID (applyMediaReference r ref) = m_ID r" "m_TenantID (applyMediaReference r ref) = m_TenantID r"
  "m_ChatJID (applyMediaReference r ref) = m_ChatJID r" "m_SenderJID (applyMediaReference r ref) = m_SenderJID r"
  "m_WAMessageID (applyMediaReference r ref) = m_WAMessageID r" "m_Direction (applyMediaReference r ref) = m_Direction r"
  "m_Body (applyMediaReference r ref) = m_Body r" "m_Timestamp (applyMediaReference r ref) = m_Timestamp r"
  "m_MediaPath (applyMediaReference r ref) = m_MediaPath r" "m_MediaStatus (applyMediaReference r ref) = m_MediaStatus r"
  "m_CreatedAt (applyMediaReference r ref) = m_CreatedAt r"
  by (simp_all add: applyMediaReference_def Let_def)

lemma applyMediaReference_row:
  assumes "m_DirectPath r = None" and "m_MMSType r = None" and "m_MediaType r = None"
  shows "HasMediaReference (applyMediaReference r ref) \<longleftrightarrow> downloadable ref"
    and "downloadable ref \<Longrightarrow> derefString (m_MMSType (applyMediaReference r ref)) = ref_MMSType ref"
    and "derefString (m_MediaType (applyMediaReference r ref)) = ref_MediaType ref"
  using assms by (auto simp: applyMediaReference_def HasMediaReference_def downloadable_def Let_def)

lemma int64_of_uint64_small: "n < 2 ^ 63 \<Longrightarrow> int64_of_uint64 n = int n"
  by (simp add: int64_of_uint64_def)

end
