(* ===== verification/MediaPath.thy ===== *)
theory MediaPath
  imports WaSession Sha256
begin

text \<open>
  The path construction of \<open>internal/wa/media.go\<close>, and what it uses of \<open>path/filepath\<close> on Unix:
  \<open>Clean\<close>, \<open>Join\<close> of two elements, \<open>Rel\<close> and \<open>IsAbs\<close>. \<open>Clean\<close> is written over the segments
  between slashes: an empty segment and \<open>.\<close> vanish, \<open>..\<close> takes back the segment before it, and
  at the start of a path that is not rooted it stays.
\<close>

section \<open>Package path/filepath\<close>

definition dot :: string where "dot = ''.''"
definition dotdot :: string where "dotdot = ''..''"
definition slash :: char where "slash = CHR ''/''"

text \<open>The segments kept so far are the list \<open>acc\<close>, last one first.\<close>

definition clean_step :: "bool \<Rightarrow> string \<Rightarrow> string list \<Rightarrow> string list" where
  "clean_step rooted seg acc =
     (if seg = [] \<or> seg = dot then acc
      else if seg = dotdot then
        (case acc of
           [] \<Rightarrow> if rooted then [] else [dotdot]
         | x # xs \<Rightarrow> if x = dotdot then dotdot # acc else xs)
      else seg # acc)"

definition rooted_path :: "string \<Rightarrow> bool" where
  "rooted_path p \<longleftrightarrow> p \<noteq> [] \<and> hd p = slash"

definition clean_segs :: "string \<Rightarrow> string list" where
  "clean_segs p = rev (fold (clean_step (rooted_path p)) (Split p slash) [])"

definition render :: "bool \<Rightarrow> string list \<Rightarrow> string" where
  "render rooted segs =
     (if rooted then slash # Join segs slash else if segs = [] then dot else Join segs slash)"

definition Clean :: "string \<Rightarrow> string" where
  "Clean p = (if p = [] then dot else render (rooted_path p) (clean_segs p))"

definition filepath_Join :: "string \<Rightarrow> string \<Rightarrow> string" where
  "filepath_Join a b =
     (if a \<noteq> [] then Clean (a @ slash # b) else if b \<noteq> [] then Clean b else [])"

fun strip_common :: "string list \<Rightarrow> string list \<Rightarrow> string list \<times> string list" where
  "strip_common (b # bs) (t # ts) = (if b = t then strip_common bs ts else (b # bs, t # ts))"
| "strip_common bs ts = (bs, ts)"

definition rel_segs :: "string \<Rightarrow> string list" where
  "rel_segs p =
     (let q = (if rooted_path p then tl p else p) in if q = [] then [] else Split q slash)"

definition Rel :: "string \<Rightarrow> string \<Rightarrow> string option" where
  "Rel basepath targpath =
     (let base0 = Clean basepath; targ = Clean targpath in
      if targ = base0 then Some dot
      else
        (let base = (if base0 = dot then [] else base0) in
         if rooted_path base \<noteq> rooted_path targ then None
         else
           (case strip_common (rel_segs base) (rel_segs targ) of (bs, ts) \<Rightarrow>
              if bs \<noteq> [] \<and> hd bs = dotdot then None
              else Some (Join (replicate (length bs) dotdot @ ts) slash))))"

section \<open>Definitions\<close>

definition maxTenantSegment :: nat where "maxTenantSegment = 64"

definition segment_char :: "char \<Rightarrow> bool" where
  "segment_char c \<longleftrightarrow>
     list_ex (\<lambda>(lo, hi). lo \<le> c \<and> c \<le> hi)
       [(CHR ''a'', CHR ''z''), (CHR ''A'', CHR ''Z''), (CHR ''0'', CHR ''9'')] \<or> c \<in> {CHR ''-'', CHR ''_'', CHR ''.''}"

fun contains_dotdot :: "string \<Rightarrow> bool" where
  "contains_dotdot (a # b # s) = (a = CHR ''.'' \<and> b = CHR ''.'' \<or> contains_dotdot (b # s))"
| "contains_dotdot s = False"

definition safeTenantSegment :: "string \<Rightarrow> bool" where
  "safeTenantSegment tenantID =
     (if tenantID = [] \<or> length tenantID > maxTenantSegment then False
      else if tenantID = dot \<or> tenantID = dotdot \<or> contains_dotdot tenantID then False
      else list_all segment_char tenantID)"

definition withinDir :: "string \<Rightarrow> string \<Rightarrow> bool" where
  "withinDir dir path =
     (case Rel (Clean dir) (Clean path) of
        None \<Rightarrow> False
      | Some rel \<Rightarrow> rel \<noteq> dotdot \<and> \<not> prefix (dotdot @ [slash]) rel \<and> \<not> rooted_path rel)"

definition mediaExtensions :: "(string \<times> string) list" where
  "mediaExtensions =
     [(''image/jpeg'', ''.jpg''), (''image/png'', ''.png''), (''image/webp'', ''.webp''), (''image/gif'', ''.gif''),
      (''audio/ogg'', ''.ogg''), (''audio/opus'', ''.opus''), (''audio/mpeg'', ''.mp3''), (''audio/mp4'', ''.m4a''),
      (''audio/aac'', ''.aac''), (''audio/amr'', ''.amr''), (''audio/wav'', ''.wav''), (''video/mp4'', ''.mp4''),
      (''video/3gpp'', ''.3gp''), (''video/quicktime'', ''.mov''), (''video/webm'', ''.webm''),
      (''application/pdf'', ''.pdf'')]"

definition mediaExtension :: "unicode_lower \<Rightarrow> string \<Rightarrow> string" where
  "mediaExtension utl mimeType =
     (case Cut mimeType (CHR '';'') of (base, _, _) \<Rightarrow>
        (case map_of mediaExtensions (ToLower utl (TrimSpace base)) of
           Some ext \<Rightarrow> ext
         | None \<Rightarrow> ''.bin''))"

definition media_name :: "unicode_lower \<Rightarrow> string \<Rightarrow> string \<Rightarrow> string" where
  "media_name utl messageID mimeType =
     EncodeToString (Sum256 (string_bytes messageID)) @ mediaExtension utl mimeType"

definition mediaPathFor :: "unicode_lower \<Rightarrow> string \<Rightarrow> string \<Rightarrow> string \<Rightarrow> string \<Rightarrow> wa_error + string" where
  "mediaPathFor utl root tenantID messageID mimeType =
     (if TrimSpace root = [] then Inl ErrUnsafeMediaPath
      else if \<not> safeTenantSegment tenantID then Inl ErrUnsafeMediaPath
      else if TrimSpace messageID = [] then Inl ErrUnsafeMediaPath
      else
        (let name = media_name utl messageID mimeType;
             dir = filepath_Join root tenantID;
             path = filepath_Join dir name
         in if \<not> withinDir dir path then Inl ErrUnsafeMediaPath else Inr path))"

section \<open>Cleaned paths\<close>

text \<open>What \<open>clean_step\<close> accumulates: no empty segment, no \<open>.\<close>, and \<open>..\<close> only at the start.\<close>

fun kept :: "bool \<Rightarrow> string list \<Rightarrow> bool" where
  "kept rooted [] = True"
| "kept rooted (x # xs) =
     (x \<noteq> [] \<and> x \<noteq> dot \<and> slash \<notin> set x \<and> kept rooted xs \<and>
      (x = dotdot \<longrightarrow> \<not> rooted \<and> list_all (\<lambda>y. y = dotdot) xs))"

lemma dots [simp]: "dot \<noteq> []" "dotdot \<noteq> []" "dot \<noteq> dotdot" "dotdot \<noteq> dot" "slash \<notin> set dot" "slash \<notin> set dotdot"
  by (simp_all add: dot_def dotdot_def slash_def)

lemma kept_step: "kept r acc \<Longrightarrow> slash \<notin> set seg \<Longrightarrow> kept r (clean_step r seg acc)"
  by (cases acc) (auto simp: clean_step_def)

lemma kept_fold: "kept r acc \<Longrightarrow> \<forall>s\<in>set segs. slash \<notin> set s \<Longrightarrow> kept r (fold (clean_step r) segs acc)"
  by (induction segs arbitrary: acc) (auto simp: kept_step)

lemma kept_clean_segs: "kept (rooted_path p) (rev (clean_segs p))"
  unfolding clean_segs_def rev_rev_ident by (intro kept_fold) (auto dest: Split_parts_no_sep)

lemma kept_again: "kept r acc \<Longrightarrow> fold (clean_step r) (rev acc) [] = acc"
proof (induction acc)
  case (Cons x xs)
  then have "fold (clean_step r) (rev (x # xs)) [] = clean_step r x xs" by simp
  also have "\<dots> = x # xs" using Cons.prems by (cases xs) (auto simp: clean_step_def)
  finally show ?case .
qed simp

lemma kept_no_slash: "kept r acc \<Longrightarrow> s \<in> set acc \<Longrightarrow> slash \<notin> set s \<and> s \<noteq> []"
  by (induction acc) auto

lemma Split_append_sep: "Split (a @ c # b) c = Split a c @ Split b c"
  by (induction a) (auto split: list.splits)

lemma Split_render:
  assumes "kept r (rev segs)" and "segs \<noteq> []"
  shows "Split (render r segs) slash = (if r then [[]] else []) @ segs"
proof -
  have "Split (Join segs slash) slash = segs"
    using assms kept_no_slash [OF assms(1)] by (intro Split_Join) auto
  then show ?thesis using assms(2) by (simp add: render_def)
qed

lemma Join_hd: "segs \<noteq> [] \<Longrightarrow> hd segs \<noteq> [] \<Longrightarrow> Join segs c \<noteq> [] \<and> hd (Join segs c) = hd (hd segs)"
  by (induction segs c rule: Join.induct) auto

lemma rooted_render:
  assumes "kept r (rev segs)" and "segs \<noteq> []"
  shows "rooted_path (render r segs) = r"
proof -
  have "hd segs \<noteq> []" "slash \<notin> set (hd segs)" using kept_no_slash [OF assms(1)] assms(2) by auto
  then have "Join segs slash \<noteq> []" "hd (Join segs slash) \<noteq> slash"
    using Join_hd [OF assms(2), of slash] by (metis, metis hd_in_set)
  then show ?thesis using assms(2) by (simp add: rooted_path_def render_def)
qed

lemma clean_segs_render:
  assumes "kept r (rev segs)" and "segs \<noteq> []"
  shows "clean_segs (render r segs) = segs"
proof -
  have "fold (clean_step r) ((if r then [[]] else []) @ segs) [] = fold (clean_step r) segs []"
    by (simp add: clean_step_def)
  also have "\<dots> = rev segs" using kept_again [OF assms(1)] by simp
  finally show ?thesis by (simp add: clean_segs_def rooted_render [OF assms] Split_render [OF assms])
qed

lemma render_ne: "kept r (rev segs) \<Longrightarrow> segs \<noteq> [] \<Longrightarrow> render r segs \<noteq> []"
  using Split_render [of r segs] by (auto simp: render_def dest: kept_no_slash)

lemma Clean_render:
  assumes "kept r (rev segs)" and "segs \<noteq> []"
  shows "Clean (render r segs) = render r segs"
  by (simp add: Clean_def clean_segs_render [OF assms] rooted_render [OF assms] render_ne [OF assms])

text \<open>A plain name below a path: neither empty nor \<open>.\<close> nor \<open>..\<close>, and with no slash.\<close>

definition plain_name :: "string \<Rightarrow> bool" where
  "plain_name n \<longleftrightarrow> n \<noteq> [] \<and> n \<noteq> dot \<and> n \<noteq> dotdot \<and> slash \<notin> set n"

lemma rooted_append: "p \<noteq> [] \<Longrightarrow> rooted_path (p @ q) = rooted_path p"
  by (simp add: rooted_path_def)

lemma Join_plain:
  assumes "p \<noteq> []" and "plain_name n"
  shows "filepath_Join p n = render (rooted_path p) (clean_segs p @ [n])"
    and "kept (rooted_path p) (rev (clean_segs p @ [n]))"
proof -
  have sp: "Split (p @ slash # n) slash = Split p slash @ [n]"
    using assms(2) by (simp add: Split_append_sep Split_no_sep plain_name_def)
  have "clean_segs (p @ slash # n) = clean_segs p @ [n]"
    using assms by (simp add: clean_segs_def sp rooted_append clean_step_def plain_name_def)
  then show "filepath_Join p n = render (rooted_path p) (clean_segs p @ [n])"
    using assms(1) by (simp add: filepath_Join_def Clean_def rooted_append)
  show "kept (rooted_path p) (rev (clean_segs p @ [n]))"
    using kept_clean_segs [of p] assms(2) by (simp add: plain_name_def)
qed

lemma strip_common_prefix: "strip_common xs (xs @ ys) = ([], ys)"
proof (induction xs)
  case Nil
  then show ?case by (cases ys) simp_all
qed simp

lemma rel_segs_render:
  assumes "kept r (rev segs)" and "segs \<noteq> []"
  shows "rel_segs (render r segs) = segs"
proof -
  have "hd segs \<noteq> []" using kept_no_slash [OF assms(1)] assms(2) by auto
  then have ne: "Join segs slash \<noteq> []" using Join_hd [OF assms(2), of slash] by simp
  have "Split (Join segs slash) slash = segs"
    using assms kept_no_slash [OF assms(1)] by (intro Split_Join) auto
  with ne assms(2) show ?thesis
    using rooted_render [OF assms] by (simp add: rel_segs_def) (simp add: render_def)
qed

lemma render_not_dot: "kept r (rev segs) \<Longrightarrow> segs \<noteq> [] \<Longrightarrow> render r segs \<noteq> dot"
  using rel_segs_render [of r segs] by (auto simp: rel_segs_def rooted_path_def dot_def slash_def)

lemma Rel_below:
  assumes k: "kept r (rev segs)" and ne: "segs \<noteq> []" and n: "plain_name n"
  shows "Rel (render r segs) (render r (segs @ [n])) = Some n"
proof -
  have k': "kept r (rev (segs @ [n]))" using k n by (simp add: plain_name_def)
  have "render r (segs @ [n]) \<noteq> render r segs"
    using clean_segs_render [OF k ne] clean_segs_render [OF k'] by (metis append_is_Nil_conv not_Cons_self2 self_append_conv)
  then show ?thesis
    using render_not_dot [OF k ne] rooted_render [OF k ne] rooted_render [OF k'] rel_segs_render [OF k ne]
      rel_segs_render [OF k'] Clean_render [OF k ne] Clean_render [OF k']
    by (simp add: Rel_def Let_def strip_common_prefix)
qed

lemma withinDir_below:
  assumes k: "kept r (rev segs)" and ne: "segs \<noteq> []" and n: "plain_name n"
  shows "withinDir (render r segs) (render r (segs @ [n]))"
proof -
  have k': "kept r (rev (segs @ [n]))" using k n by (simp add: plain_name_def)
  have "\<not> prefix (dotdot @ [slash]) n" using n set_mono_prefix [of "dotdot @ [slash]" n] by (auto simp: plain_name_def)
  moreover have "\<not> rooted_path n" using n by (auto simp: plain_name_def rooted_path_def dest: hd_in_set)
  ultimately show ?thesis
    using n Clean_render [OF k ne] Clean_render [OF k'] Rel_below [OF assms]
    by (simp add: withinDir_def plain_name_def)
qed

section \<open>Media paths\<close>

lemma safe_plain: "safeTenantSegment t \<Longrightarrow> plain_name t"
proof -
  assume "safeTenantSegment t"
  then have "t \<noteq> []" "t \<noteq> dot" "t \<noteq> dotdot" "list_all segment_char t"
    by (auto simp: safeTenantSegment_def split: if_splits)
  moreover have "\<not> segment_char slash" by (simp add: segment_char_def slash_def less_eq_char_def)
  ultimately show "plain_name t" by (auto simp: plain_name_def list_all_iff)
qed

lemma mediaExtension_cases:
  "mediaExtension utl mime = ''.bin'' \<or> mediaExtension utl mime \<in> snd ` set mediaExtensions"
  by (auto simp: mediaExtension_def split: prod.splits option.splits dest: map_of_SomeD intro: rev_image_eqI)

lemma mediaExtension_no_slash: "slash \<notin> set (mediaExtension utl mime)"
  using mediaExtension_cases [of utl mime] by (auto simp: mediaExtensions_def slash_def)

lemma media_name_plain: "plain_name (media_name utl i mime)"
proof -
  let ?h = "EncodeToString (Sum256 (string_bytes i))"
  have len: "length ?h = 64" by (simp add: length_EncodeToString length_Sum256)
  have "slash \<notin> set ?h"
    using EncodeToString_set [of "Sum256 (string_bytes i)"] by (auto simp: hex_digits_def slash_def)
  then have "slash \<notin> set (media_name utl i mime)" by (simp add: media_name_def mediaExtension_no_slash)
  moreover have "length (media_name utl i mime) \<ge> 64" using len by (simp add: media_name_def)
  then have "media_name utl i mime \<noteq> []" "media_name utl i mime \<noteq> dot" "media_name utl i mime \<noteq> dotdot"
    by (auto simp: dot_def dotdot_def)
  ultimately show ?thesis by (simp add: plain_name_def)
qed

text \<open>The finished path: the cleaned root, then the tenant, then the file name.\<close>

definition media_file :: "unicode_lower \<Rightarrow> string \<Rightarrow> string \<Rightarrow> string \<Rightarrow> string \<Rightarrow> string" where
  "media_file utl root t i mime = render (rooted_path root) (clean_segs root @ [t, media_name utl i mime])"

lemma TrimSpace_ne: "TrimSpace s \<noteq> [] \<Longrightarrow> s \<noteq> []"
  by auto

lemma mediaPathFor_spec:
  "mediaPathFor utl root t i mime =
     (if TrimSpace root = [] \<or> \<not> safeTenantSegment t \<or> TrimSpace i = [] then Inl ErrUnsafeMediaPath
      else Inr (media_file utl root t i mime))"
proof (cases "TrimSpace root = [] \<or> \<not> safeTenantSegment t \<or> TrimSpace i = []")
  case True
  then show ?thesis by (auto simp: mediaPathFor_def)
next
  case False
  then have root: "root \<noteq> []" and t: "plain_name t" by (auto dest: safe_plain)
  let ?n = "media_name utl i mime"
  define segs where "segs = clean_segs root @ [t]"
  note dir = Join_plain [OF root t, folded segs_def]
  have ne: "segs \<noteq> []" by (simp add: segs_def)
  have dne: "filepath_Join root t \<noteq> []" unfolding dir(1) using render_ne [OF dir(2) ne] .
  have path: "filepath_Join (filepath_Join root t) ?n = render (rooted_path root) (segs @ [?n])"
    using Join_plain(1) [OF dne media_name_plain, of utl i mime]
    unfolding dir(1) by (simp add: clean_segs_render [OF dir(2) ne] rooted_render [OF dir(2) ne])
  have "withinDir (filepath_Join root t) (filepath_Join (filepath_Join root t) ?n)"
    unfolding path unfolding dir(1) using withinDir_below [OF dir(2) ne media_name_plain] .
  then show ?thesis
    using False path by (simp add: mediaPathFor_def Let_def media_file_def segs_def)
qed

lemma kept_media_file:
  assumes "root \<noteq> []" and "safeTenantSegment t"
  shows "kept (rooted_path root) (rev (clean_segs root @ [t, media_name utl i mime]))"
  using kept_clean_segs [of root] safe_plain [OF assms(2)] media_name_plain [of utl i mime]
  by (simp add: plain_name_def)

lemma clean_segs_media_file:
  assumes "root \<noteq> []" and "safeTenantSegment t"
  shows "clean_segs (media_file utl root t i mime) = clean_segs root @ [t, media_name utl i mime]"
  unfolding media_file_def by (rule clean_segs_render) (simp_all add: kept_media_file assms del: rev_append)

lemma mediaPathFor_ne: "mediaPathFor utl root t i mime = Inr path \<Longrightarrow> path \<noteq> []"
proof -
  assume "mediaPathFor utl root t i mime = Inr path"
  then have p: "path = media_file utl root t i mime" "root \<noteq> []" "safeTenantSegment t"
    by (auto simp: mediaPathFor_spec split: if_splits)
  show "path \<noteq> []"
    unfolding p(1) media_file_def by (rule render_ne [OF kept_media_file [OF p(2,3)]]) simp
qed

text \<open>Two attachments share a file only within one tenant, and only with equal digests.\<close>

lemma append_same_length: "a @ x = b @ y \<Longrightarrow> length a = length b \<Longrightarrow> a = b"
  by simp

lemma media_file_inj:
  assumes "root \<noteq> []" and "safeTenantSegment t" and "safeTenantSegment t'"
    and "media_file utl root t i mime = media_file utl root t' i' mime'"
  shows "t = t' \<and> Sum256 (string_bytes i) = Sum256 (string_bytes i')"
proof -
  have "clean_segs root @ [t, media_name utl i mime] = clean_segs root @ [t', media_name utl i' mime']"
    using clean_segs_media_file [OF assms(1,2)] clean_segs_media_file [OF assms(1,3)] assms(4) by metis
  then have "t = t'" and "media_name utl i mime = media_name utl i' mime'" by simp_all
  moreover from this(2) have "EncodeToString (Sum256 (string_bytes i)) = EncodeToString (Sum256 (string_bytes i'))"
    unfolding media_name_def by (rule append_same_length) (simp add: length_EncodeToString length_Sum256)
  ultimately show ?thesis using EncodeToString_inj by blast
qed

end
