(* ===== verification/MediaFetch.thy ===== *)
theory MediaFetch
  imports MediaReference MediaPath MessageReads
begin

text \<open>
  \<open>fetch\<close>, \<open>recordFailure\<close> and their helpers of \<open>internal/wa/media.go\<close>. The fetcher holds the
  message repository as an interface, so the state behind it is a type variable; the locale
  \<open>media_rows\<close> is what the fetcher relies on, and the repository of the store is its
  interpretation. The world is that state, the files \<open>os.Stat\<close> sees and the requests that
  reached the media servers, oldest last. The downloader is whatsmeow's: per tenant either
  no paired client or an answer per request. \<open>errtext\<close> is \<open>cause.Error()\<close>.
\<close>

section \<open>The outside of the fetcher\<close>

datatype fnode = RegularFile string | Directory

record dl_request =
  dq_DirectPath :: string
  dq_EncHash :: string
  dq_Hash :: string
  dq_Key :: string
  dq_MediaType :: wa_media_type
  dq_MMSType :: string

datatype fetch_cause = DownloadHTTP nat | DownloadOther | WriteFailed

text \<open>A write succeeds, or fails and leaves something or nothing at the path.\<close>

datatype write_outcome = WriteOK | WriteFails "fnode option"

type_synonym downloader = "dl_request \<Rightarrow> fetch_cause + string"

record 's media_world =
  mw_store :: 's
  mw_files :: "string \<Rightarrow> fnode option"
  mw_net :: "dl_request list"

record 's messages_iface =
  if_GetByID :: "string \<Rightarrow> string \<Rightarrow> 's \<Rightarrow> store_error + Message"
  if_UpdateMedia :: "string \<Rightarrow> string \<Rightarrow> MediaUpdate \<Rightarrow> 's \<Rightarrow> store_error option \<times> 's"

record 's mediaFetcher =
  mf_messages :: "'s messages_iface"
  mf_dir :: string
  mf_maxBytes :: int
  mf_allowed :: "string list"
  mf_downloaderFor :: "string \<Rightarrow> wa_error + downloader"

section \<open>Definitions\<close>

definition allowedMediaTypes :: "unicode_lower \<Rightarrow> string list \<Rightarrow> string list" where
  "allowedMediaTypes utl types = filter (\<lambda>t. t \<noteq> []) (map (\<lambda>t. ToLower utl (TrimSpace t)) types)"

definition isExpiredMedia :: "fetch_cause \<Rightarrow> bool" where
  "isExpiredMedia cause = (case cause of DownloadHTTP code \<Rightarrow> code \<in> {403, 404, 410} | _ \<Rightarrow> False)"

definition writeMediaFile ::
  "write_outcome \<Rightarrow> string \<Rightarrow> string \<Rightarrow> (string \<Rightarrow> fnode option) \<Rightarrow> bool \<times> (string \<Rightarrow> fnode option)" where
  "writeMediaFile out path data fs =
     (case out of
        WriteOK \<Rightarrow> (True, fs(path := Some (RegularFile data)))
      | WriteFails left \<Rightarrow> (False, fs(path := left)))"

definition recordFailure ::
  "'s mediaFetcher \<Rightarrow> (fetch_cause \<Rightarrow> string) \<Rightarrow> gotime \<Rightarrow> string \<Rightarrow> string \<Rightarrow> fetch_cause \<Rightarrow> 's \<Rightarrow> wa_error \<times> 's" where
  "recordFailure F errtext now tenantID messageID cause s =
     (let status = (if isExpiredMedia cause then MediaUnavailable else MediaFailed);
          outcome = (if isExpiredMedia cause then ErrMediaUnavailable else WAFailure ''wa: download media'')
      in case if_UpdateMedia (mf_messages F) tenantID messageID
            \<lparr>mu_Path = None, mu_Status = status, mu_Error = errtext cause, mu_FetchedAt = now\<rparr> s of
           (_, s') \<Rightarrow> (outcome, s'))"

definition emptyMediaRef :: MediaRef where
  "emptyMediaRef = \<lparr>mr_MessageID = [], mr_MediaType = [], mr_MimeType = [], mr_Status = [], mr_Path = [], mr_SizeBytes = 0\<rparr>"

definition mediaRefOf :: "Message \<Rightarrow> MediaRef" where
  "mediaRefOf message =
     emptyMediaRef\<lparr>mr_MessageID := m_ID message, mr_MediaType := derefString (m_MediaType message),
       mr_MimeType := derefString (m_MimeType message)\<rparr>"

text \<open>\<open>os.Stat\<close> finds a regular file.\<close>

definition onDisk :: "(string \<Rightarrow> fnode option) \<Rightarrow> string \<Rightarrow> string option" where
  "onDisk fs path =
     (if path = [] then None
      else case fs path of Some (RegularFile data) \<Rightarrow> Some data | _ \<Rightarrow> None)"

definition requestFor :: "unicode_lower \<Rightarrow> Message \<Rightarrow> dl_request" where
  "requestFor utl m =
     \<lparr>dq_DirectPath = derefString (m_DirectPath m), dq_EncHash = m_FileEncSHA256 m, dq_Hash = m_FileSHA256 m,
      dq_Key = m_MediaKey m, dq_MediaType = mediaTypeFor utl (derefString (m_MMSType m)),
      dq_MMSType = derefString (m_MMSType m)\<rparr>"

text \<open>The part of \<open>fetch\<close> from the download on.\<close>

definition download ::
  "'s mediaFetcher \<Rightarrow> unicode_lower \<Rightarrow> (fetch_cause \<Rightarrow> string) \<Rightarrow> gotime \<Rightarrow> write_outcome \<Rightarrow> downloader \<Rightarrow>
   string \<Rightarrow> string \<Rightarrow> MediaRef \<Rightarrow> Message \<Rightarrow> 's media_world \<Rightarrow> (MediaRef \<times> wa_error option) \<times> 's media_world" where
  "download F utl errtext now out dl path tenantID ref message W0 =
     (let W = W0\<lparr>mw_net := requestFor utl message # mw_net W0\<rparr> in
      case dl (requestFor utl message) of
        Inl cause \<Rightarrow>
          (case recordFailure F errtext now tenantID (m_ID message) cause (mw_store W) of
             (e, s') \<Rightarrow> ((ref, Some e), W\<lparr>mw_store := s'\<rparr>))
      | Inr data \<Rightarrow>
          if int (length data) > mf_maxBytes F then ((ref, Some ErrMediaTooLarge), W)
          else
            (case writeMediaFile out path data (mw_files W) of
               (False, fs') \<Rightarrow>
                 (case recordFailure F errtext now tenantID (m_ID message) WriteFailed (mw_store W) of
                    (e, s') \<Rightarrow> ((ref, Some e), W\<lparr>mw_files := fs', mw_store := s'\<rparr>))
             | (True, fs') \<Rightarrow>
                 (case if_UpdateMedia (mf_messages F) tenantID (m_ID message)
                     \<lparr>mu_Path = Some path, mu_Status = MediaAvailable, mu_Error = [], mu_FetchedAt = now\<rparr> (mw_store W) of
                    (Some e, s') \<Rightarrow> ((ref, Some (WAStore e)), W\<lparr>mw_files := fs', mw_store := s'\<rparr>)
                  | (None, s') \<Rightarrow>
                      ((ref\<lparr>mr_Status := MediaAvailable, mr_Path := path, mr_SizeBytes := int (length data)\<rparr>, None),
                       W\<lparr>mw_files := fs', mw_store := s'\<rparr>))))"

definition fetch ::
  "'s mediaFetcher \<Rightarrow> unicode_lower \<Rightarrow> (fetch_cause \<Rightarrow> string) \<Rightarrow> gotime \<Rightarrow> write_outcome \<Rightarrow>
   string \<Rightarrow> string \<Rightarrow> 's media_world \<Rightarrow> (MediaRef \<times> wa_error option) \<times> 's media_world" where
  "fetch F utl errtext now out tenantID messageID W =
     (case if_GetByID (mf_messages F) tenantID messageID (mw_store W) of
        Inl ErrNotFound \<Rightarrow> ((emptyMediaRef, Some ErrUnknownMessage), W)
      | Inl (StoreError e) \<Rightarrow> ((emptyMediaRef, Some (WAStore (StoreError e))), W)
      | Inr message \<Rightarrow>
          if \<not> HasMediaReference message then ((emptyMediaRef, Some ErrNoMedia), W)
          else
            (let ref = mediaRefOf message
             in if derefString (m_MediaStatus message) = MediaUnavailable
                then ((ref\<lparr>mr_Status := MediaUnavailable\<rparr>, Some ErrMediaUnavailable), W)
                else case onDisk (mw_files W) (derefString (m_MediaPath message)) of
                  Some data \<Rightarrow>
                    ((ref\<lparr>mr_Status := MediaAvailable, mr_Path := derefString (m_MediaPath message),
                          mr_SizeBytes := int (length data)\<rparr>, None), W)
                | None \<Rightarrow>
                    if ToLower utl (mr_MediaType ref) \<notin> set (mf_allowed F) then ((ref, Some ErrMediaTypeNotAllowed), W)
                    else if (case m_FileLength message of None \<Rightarrow> False | Some n \<Rightarrow> n > mf_maxBytes F)
                      then ((ref, Some ErrMediaTooLarge), W)
                    else case mediaPathFor utl (mf_dir F) tenantID (m_ID message) (mr_MimeType ref) of
                      Inl e \<Rightarrow> ((ref, Some e), W)
                    | Inr path \<Rightarrow>
                        (case mf_downloaderFor F tenantID of
                           Inl e \<Rightarrow> ((ref, Some e), W)
                         | Inr dl \<Rightarrow> download F utl errtext now out dl path tenantID ref message W)))"

section \<open>When a fetch reaches the network\<close>

text \<open>Everything \<open>fetch\<close> checks before it downloads.\<close>

definition admitted ::
  "'s mediaFetcher \<Rightarrow> unicode_lower \<Rightarrow> string \<Rightarrow> string \<Rightarrow> 's media_world \<Rightarrow> Message \<Rightarrow> string \<Rightarrow> downloader \<Rightarrow> bool" where
  "admitted F utl t i W m path dl \<longleftrightarrow>
     if_GetByID (mf_messages F) t i (mw_store W) = Inr m \<and> HasMediaReference m \<and>
     derefString (m_MediaStatus m) \<noteq> MediaUnavailable \<and>
     onDisk (mw_files W) (derefString (m_MediaPath m)) = None \<and>
     ToLower utl (derefString (m_MediaType m)) \<in> set (mf_allowed F) \<and>
     (\<forall>n. m_FileLength m = Some n \<longrightarrow> n \<le> mf_maxBytes F) \<and>
     mediaPathFor utl (mf_dir F) t (m_ID m) (derefString (m_MimeType m)) = Inr path \<and>
     mf_downloaderFor F t = Inr dl"

lemma mediaRefOf_simps [simp]:
  "mr_MessageID (mediaRefOf m) = m_ID m" "mr_MediaType (mediaRefOf m) = derefString (m_MediaType m)"
  "mr_MimeType (mediaRefOf m) = derefString (m_MimeType m)"
  by (simp_all add: mediaRefOf_def)

lemma download_net: "mw_net (snd (download F utl errtext now out dl path t ref m W)) = requestFor utl m # mw_net W"
  by (simp add: download_def Let_def split: sum.split prod.split bool.split option.split)

lemma download_files:
  "p \<noteq> path \<Longrightarrow> mw_files (snd (download F utl errtext now out dl path t ref m W)) p = mw_files W p"
  by (auto simp: download_def writeMediaFile_def Let_def
      split: sum.split prod.split bool.split option.split write_outcome.splits)

lemma fetch_admitted:
  "admitted F utl t i W m path dl \<Longrightarrow>
   fetch F utl errtext now out t i W = download F utl errtext now out dl path t (mediaRefOf m) m W"
  by (auto simp: admitted_def fetch_def Let_def not_less split: option.splits)

lemma fetch_unadmitted:
  assumes "\<nexists>m path dl. admitted F utl t i W m path dl"
  shows "(\<exists>r e. fetch F utl errtext now out t i W = ((r, Some e), W)) \<or>
    (\<exists>m data. if_GetByID (mf_messages F) t i (mw_store W) = Inr m \<and> HasMediaReference m \<and>
       derefString (m_MediaStatus m) \<noteq> MediaUnavailable \<and>
       onDisk (mw_files W) (derefString (m_MediaPath m)) = Some data \<and>
       fetch F utl errtext now out t i W =
         (((mediaRefOf m)\<lparr>mr_Status := MediaAvailable, mr_Path := derefString (m_MediaPath m),
            mr_SizeBytes := int (length data)\<rparr>, None), W))"
proof (cases "if_GetByID (mf_messages F) t i (mw_store W)")
  case (Inl e)
  then show ?thesis by (cases e) (simp_all add: fetch_def)
next
  case (Inr m)
  consider (no) "\<not> HasMediaReference m \<or> derefString (m_MediaStatus m) = MediaUnavailable"
    | (disk) data where "HasMediaReference m" "derefString (m_MediaStatus m) \<noteq> MediaUnavailable"
        "onDisk (mw_files W) (derefString (m_MediaPath m)) = Some data"
    | (fetch) "HasMediaReference m" "derefString (m_MediaStatus m) \<noteq> MediaUnavailable"
        "onDisk (mw_files W) (derefString (m_MediaPath m)) = None"
    by (cases "onDisk (mw_files W) (derefString (m_MediaPath m))") auto
  then show ?thesis
  proof cases
    case fetch
    then show ?thesis
      using Inr assms
      by (cases "mediaPathFor utl (mf_dir F) t (m_ID m) (derefString (m_MimeType m))";
          cases "mf_downloaderFor F t"; cases "m_FileLength m")
         (auto simp: fetch_def admitted_def Let_def not_less)
  qed (use Inr in \<open>auto simp: fetch_def Let_def\<close>)
qed

lemma fetch_refused:
  "\<nexists>m path dl. admitted F utl t i W m path dl \<Longrightarrow> snd (fetch F utl errtext now out t i W) = W"
  by (drule fetch_unadmitted [of F utl t i W errtext now out]) auto

section \<open>The interface to the message rows\<close>

locale media_rows =
  fixes msgs :: "'s messages_iface"
  assumes get_tenant: "if_GetByID msgs t i s = Inr m \<Longrightarrow> m_TenantID m = t"
    and update_get: "if_GetByID msgs t i s = Inr m \<Longrightarrow> if_UpdateMedia msgs t (m_ID m) u s = (None, s') \<Longrightarrow>
      \<exists>at. if_GetByID msgs t i s' = Inr (set_media (u\<lparr>mu_FetchedAt := at\<rparr>) m)"
begin

text \<open>A completed fetch is answered from the disk from then on.\<close>

lemma fetch_done:
  assumes F: "mf_messages F = msgs"
    and f: "fetch F utl errtext now out t i W = ((ref, None), W')"
  shows "\<exists>m. if_GetByID msgs t i (mw_store W') = Inr m \<and> HasMediaReference m \<and>
    derefString (m_MediaStatus m) \<noteq> MediaUnavailable \<and> derefString (m_MediaPath m) = mr_Path ref \<and>
    (\<exists>data. onDisk (mw_files W') (mr_Path ref) = Some data \<and> mr_SizeBytes ref = int (length data)) \<and>
    mr_MessageID ref = m_ID m"
proof (cases "\<exists>m path dl. admitted F utl t i W m path dl")
  case False
  then show ?thesis using f F fetch_unadmitted [OF False, of errtext now out] by auto
next
  case True
  then obtain m path dl where a: "admitted F utl t i W m path dl" by blast
  then have get: "if_GetByID msgs t i (mw_store W) = Inr m" and ref: "HasMediaReference m"
    and pth: "mediaPathFor utl (mf_dir F) t (m_ID m) (derefString (m_MimeType m)) = Inr path"
    by (simp_all add: admitted_def F)
  from f fetch_admitted [OF a, of errtext now out]
  have d: "download F utl errtext now out dl path t (mediaRefOf m) m W = ((ref, None), W')" by simp
  obtain data s' where "out = WriteOK"
    and upd: "if_UpdateMedia msgs t (m_ID m)
       \<lparr>mu_Path = Some path, mu_Status = MediaAvailable, mu_Error = [], mu_FetchedAt = now\<rparr> (mw_store W) = (None, s')"
    and ref': "ref = (mediaRefOf m)\<lparr>mr_Status := MediaAvailable, mr_Path := path, mr_SizeBytes := int (length data)\<rparr>"
    and W': "mw_store W' = s'" "mw_files W' = (mw_files W)(path := Some (RegularFile data))"
    using d
    by (auto simp: download_def writeMediaFile_def recordFailure_def Let_def F
        split: sum.splits prod.splits if_splits option.splits write_outcome.splits)
  have "path \<noteq> []"
    using pth by (rule mediaPathFor_ne)
  show ?thesis
    using update_get [OF get upd] ref \<open>path \<noteq> []\<close>
    by (auto simp: ref' W' onDisk_def set_media_def HasMediaReference_def)
qed

lemma fetch_again:
  assumes F: "mf_messages F = msgs" and f: "fetch F utl errtext now out t i W = ((ref, None), W')"
    and F': "mf_messages F' = msgs"
  shows "\<exists>ref'. fetch F' utl' errtext' now' out' t i W' = ((ref', None), W') \<and>
    mr_Path ref' = mr_Path ref \<and> mr_SizeBytes ref' = mr_SizeBytes ref \<and> mr_MessageID ref' = mr_MessageID ref"
  using fetch_done [OF F f] by (auto simp: fetch_def Let_def F')

text \<open>Expired media is asked for once.\<close>

lemma fetch_expired:
  assumes F: "mf_messages F = msgs" and a: "admitted F utl t i W m path dl"
    and dl: "dl (requestFor utl m) = Inl (DownloadHTTP code)" "code \<in> {403, 404, 410}"
    and up: "fst (if_UpdateMedia msgs t (m_ID m)
       \<lparr>mu_Path = None, mu_Status = MediaUnavailable, mu_Error = errtext (DownloadHTTP code), mu_FetchedAt = now\<rparr> (mw_store W)) = None"
    and F': "mf_messages F' = msgs"
  shows "\<exists>ref W'. fetch F utl errtext now out t i W = ((ref, Some ErrMediaUnavailable), W') \<and>
    mw_net W' = requestFor utl m # mw_net W \<and>
    (\<exists>ref'. fetch F' utl' errtext' now' out' t i W' = ((ref', Some ErrMediaUnavailable), W'))"
proof -
  let ?u = "\<lparr>mu_Path = None, mu_Status = MediaUnavailable, mu_Error = errtext (DownloadHTTP code), mu_FetchedAt = now\<rparr>"
  obtain s' where s': "if_UpdateMedia msgs t (m_ID m) ?u (mw_store W) = (None, s')"
    using up by (metis prod.collapse)
  have get: "if_GetByID msgs t i (mw_store W) = Inr m" and ref: "HasMediaReference m" using a by (simp_all add: admitted_def F)
  let ?W = "W\<lparr>mw_net := requestFor utl m # mw_net W, mw_store := s'\<rparr>"
  have "fetch F utl errtext now out t i W = ((mediaRefOf m, Some ErrMediaUnavailable), ?W)"
    unfolding fetch_admitted [OF a]
    using dl s' by (auto simp: download_def recordFailure_def isExpiredMedia_def F Let_def)
  moreover obtain at where "if_GetByID msgs t i s' = Inr (set_media (?u\<lparr>mu_FetchedAt := at\<rparr>) m)"
    using update_get [OF get s'] by blast
  then have "\<exists>ref'. fetch F' utl' errtext' now' out' t i ?W = ((ref', Some ErrMediaUnavailable), ?W)"
    using ref by (simp add: fetch_def F' Let_def set_media_def HasMediaReference_def)
  ultimately show ?thesis by (intro exI [of _ "mediaRefOf m"] exI [of _ ?W]) simp
qed

end

section \<open>The store provides the interface\<close>

definition store_messages :: "env \<Rightarrow> db messages_iface" where
  "store_messages E = \<lparr>if_GetByID = message_GetByID E, if_UpdateMedia = message_UpdateMedia E\<rparr>"

lemma message_GetByID_row:
  "message_GetByID E t i d = Inr m \<longleftrightarrow> t \<noteq> [] \<and> i \<noteq> [] \<and> \<not> fault E 2 \<and> \<not> fault E 3 \<and>
   (\<exists>rest. page_desc message_order 1
     (filter (\<lambda>m. m_TenantID m = t \<and> (m_ID m = i \<or> m_WAMessageID m = i)) (messages d)) = m # rest)"
  by (auto simp: message_GetByID_def collectMessages_def split: list.splits)

lemma message_GetByID_found:
  assumes "message_GetByID E t i d = Inr m"
  shows "m \<in> set (messages d)" and "m_TenantID m = t" and "m_ID m = i \<or> m_WAMessageID m = i"
proof -
  let ?rows = "filter (\<lambda>m. m_TenantID m = t \<and> (m_ID m = i \<or> m_WAMessageID m = i)) (messages d)"
  obtain rest where "page_desc message_order 1 ?rows = m # rest"
    using assms message_GetByID_row by blast
  then have "m \<in> set ?rows" using page_desc_subset [of message_order 1 ?rows] by auto
  then show "m \<in> set (messages d)" and "m_TenantID m = t" and "m_ID m = i \<or> m_WAMessageID m = i" by auto
qed

lemma update_media_get:
  assumes get: "message_GetByID E t i d = Inr m" and upd: "message_UpdateMedia E' t (m_ID m) u d = (None, d')"
  shows "\<exists>at. message_GetByID E t i d' = Inr (set_media (u\<lparr>mu_FetchedAt := at\<rparr>) m)"
proof -
  let ?P = "\<lambda>m. m_TenantID m = t \<and> (m_ID m = i \<or> m_WAMessageID m = i)"
  define at where "at = (if IsZero (mu_FetchedAt u) then nowAt E' 0 else mu_FetchedAt u)"
  have d': "d' = d\<lparr>messages := map (\<lambda>r. if m_TenantID r = t \<and> m_ID r = m_ID m
      then set_media (u\<lparr>mu_FetchedAt := at\<rparr>) r else r) (messages d)\<rparr>"
    using upd by (cases "IsZero (mu_FetchedAt u)")
      (auto simp: message_UpdateMedia_def Let_def at_def split: if_splits)
  let ?f = "\<lambda>r. if m_TenantID r = t \<and> m_ID r = m_ID m then set_media (u\<lparr>mu_FetchedAt := at\<rparr>) r else r"
  obtain rest where g: "t \<noteq> []" "i \<noteq> []" "\<not> fault E 2" "\<not> fault E 3"
    "page_desc message_order 1 (filter ?P (messages d)) = m # rest"
    using get message_GetByID_row by blast
  have "filter ?P (map ?f (messages d)) = map ?f (filter ?P (messages d))"
    by (induction "messages d") (auto simp: filter_map o_def intro!: arg_cong [where f = "map ?f"] filter_cong)
  moreover have "(\<lambda>r. message_order (?f r)) = message_order" by (rule ext) (simp add: message_order_def)
  ultimately have "page_desc message_order 1 (filter ?P (messages d')) = map ?f (m # rest)"
    unfolding d' using g(5) by (simp add: page_desc_map)
  moreover have "m_TenantID m = t" using message_GetByID_found(2) [OF get] .
  ultimately show ?thesis using g by (auto simp: message_GetByID_row)
qed

interpretation sm: media_rows "store_messages E" for E
proof
  fix t i s m u s'
  show "if_GetByID (store_messages E) t i s = Inr m \<Longrightarrow> m_TenantID m = t"
    using message_GetByID_found(2) by (simp add: store_messages_def)
  show "if_GetByID (store_messages E) t i s = Inr m \<Longrightarrow> if_UpdateMedia (store_messages E) t (m_ID m) u s = (None, s') \<Longrightarrow>
      \<exists>at. if_GetByID (store_messages E) t i s' = Inr (set_media (u\<lparr>mu_FetchedAt := at\<rparr>) m)"
    using update_media_get by (simp add: store_messages_def)
qed

end
