(* ===== verification/History.thy ===== *)
theory History
  imports WaJid MediaReference
begin

text \<open>
  The mapping of \<open>internal/wa/history.go\<close> from a history sync onto rows. It needs no client and
  touches no state: how much of a conversation is kept (\<open>historyDecisionFor\<close>), the rows of one
  conversation (\<open>historyRecords\<close>) and the anchor of one that is not kept whole
  (\<open>newestRecord\<close>). An entry of a sync is the fields the code reads of \<open>waWeb.WebMessageInfo\<close>.
\<close>

section \<open>Definitions\<close>

definition HistorySyncScopeDM :: string where "HistorySyncScopeDM = ''dm''"
definition HistorySyncScopeDMGroup :: string where "HistorySyncScopeDMGroup = ''dm,group''"
definition HistorySyncScopeAll :: string where "HistorySyncScopeAll = ''all''"

lemma scope_distinct [simp]:
  "HistorySyncScopeDM \<noteq> HistorySyncScopeDMGroup" "HistorySyncScopeDM \<noteq> HistorySyncScopeAll"
  "HistorySyncScopeDMGroup \<noteq> HistorySyncScopeAll"
  by (simp_all add: HistorySyncScopeDM_def HistorySyncScopeDMGroup_def HistorySyncScopeAll_def)

datatype historyDecision = historySkipChat | historyAnchorOnly | historyPersistAll

definition historyDecisionFor :: "'j jid_lib \<Rightarrow> string \<Rightarrow> 'j \<Rightarrow> historyDecision" where
  "historyDecisionFor L scope chat =
     (if jServer L chat = BroadcastServer L \<and> jUser L chat = StatusUser L then historySkipChat
      else if jServer L chat = NewsletterServer L then
        (if scope = HistorySyncScopeAll then historyPersistAll else historySkipChat)
      else if jServer L chat = GroupServer L then
        (if scope = HistorySyncScopeDMGroup \<or> scope = HistorySyncScopeAll then historyPersistAll
         else historyAnchorOnly)
      else if jServer L chat = DefaultUserServer L \<or> jServer L chat = HiddenUserServer L then historyPersistAll
      else if scope = HistorySyncScopeAll then historyPersistAll
      else historyAnchorOnly)"

record message_key =
  mk_ID :: string
  mk_FromMe :: bool
  mk_Participant :: string

record history_entry =
  he_Key :: "message_key option"
  he_Message :: "proto_message option"
  he_Timestamp :: nat

text \<open>
  \<open>time.Unix(int64(ts), 0)\<close> in nanoseconds from Go's zero time: the seconds between the two
  epochs are added in \<open>int64\<close>, which wraps.
\<close>

definition wrap64 :: "int \<Rightarrow> int" where
  "wrap64 x = (x + 2 ^ 63) mod 2 ^ 64 - 2 ^ 63"

definition unixTime :: "nat \<Rightarrow> gotime" where
  "unixTime ts = wrap64 (int64_of_uint64 ts + 62135596800) * 1000000000"

definition historySender :: "'j jid_lib \<Rightarrow> 'j \<Rightarrow> 'j \<Rightarrow> bool \<Rightarrow> string \<Rightarrow> string" where
  "historySender L ownJID chat fromMe participant =
     (if fromMe then jString L ownJID
      else if participant \<noteq> [] then participant
      else jString L chat)"

definition historyMediaType :: "media_classes \<Rightarrow> proto_message option \<Rightarrow> string" where
  "historyMediaType gmt msg = ref_MediaType (mediaReference gmt msg)"

text \<open>One turn of the loop; \<open>None\<close> is its \<open>continue\<close>.\<close>

definition historyRecord ::
  "env \<Rightarrow> nat \<Rightarrow> 'j jid_lib \<Rightarrow> media_classes \<Rightarrow> string \<Rightarrow> 'j \<Rightarrow> 'j \<Rightarrow> history_entry \<Rightarrow> Message option" where
  "historyRecord E i L gmt tenantID ownJID chat entry =
     (case he_Key entry of
        None \<Rightarrow> None
      | Some key \<Rightarrow>
          if mk_ID key = [] then None
          else
            (let r0 = emptyMessage\<lparr>m_ID := NewID E i, m_TenantID := tenantID, m_ChatJID := jString L chat,
                        m_SenderJID := historySender L ownJID chat (mk_FromMe key) (mk_Participant key),
                        m_WAMessageID := mk_ID key, m_Direction := DirectionIn,
                        m_Body := extractText (he_Message entry), m_Timestamp := unixTime (he_Timestamp entry),
                        m_CreatedAt := nowAt E 0\<rparr>;
                 r1 = (if mk_FromMe key then r0\<lparr>m_Direction := DirectionOut\<rparr> else r0)
             in Some (applyMediaReference r1 (mediaReference gmt (he_Message entry)))))"

fun historyLoop ::
  "env \<Rightarrow> nat \<Rightarrow> 'j jid_lib \<Rightarrow> media_classes \<Rightarrow> string \<Rightarrow> 'j \<Rightarrow> 'j \<Rightarrow> history_entry list \<Rightarrow> Message list" where
  "historyLoop E i L gmt tenantID ownJID chat [] = []"
| "historyLoop E i L gmt tenantID ownJID chat (entry # es) =
     (case historyRecord E i L gmt tenantID ownJID chat entry of
        None \<Rightarrow> historyLoop E i L gmt tenantID ownJID chat es
      | Some r \<Rightarrow> r # historyLoop E (Suc i) L gmt tenantID ownJID chat es)"

fun newestLoop :: "Message \<Rightarrow> Message list \<Rightarrow> Message" where
  "newestLoop newest [] = newest"
| "newestLoop newest (r # rs) =
     newestLoop (if m_Timestamp r > m_Timestamp newest then r else newest) rs"

definition newestRecord :: "Message list \<Rightarrow> Message list" where
  "newestRecord records = (case records of [] \<Rightarrow> [] | r # rs \<Rightarrow> [newestLoop r rs])"

definition historyRecords ::
  "env \<Rightarrow> 'j jid_lib \<Rightarrow> media_classes \<Rightarrow> string \<Rightarrow> 'j \<Rightarrow> 'j \<Rightarrow> historyDecision \<Rightarrow> history_entry list \<Rightarrow> Message list" where
  "historyRecords E L gmt tenantID ownJID chat decision es =
     (if decision = historySkipChat \<or> es = [] then []
      else
        (let records = historyLoop E 0 L gmt tenantID ownJID chat es in
         if decision = historyAnchorOnly then newestRecord records else records))"

section \<open>Lemmas\<close>

lemma newestLoop_spec:
  "newestLoop m rs \<in> set (m # rs) \<and> (\<forall>r\<in>set (m # rs). m_Timestamp r \<le> m_Timestamp (newestLoop m rs))"
proof (induction rs arbitrary: m)
  case (Cons r rs)
  let ?n = "if m_Timestamp r > m_Timestamp m then r else m"
  have "newestLoop ?n rs \<in> set (?n # rs)" "\<forall>x\<in>set (?n # rs). m_Timestamp x \<le> m_Timestamp (newestLoop ?n rs)"
    using Cons [of ?n] by blast+
  then show ?case by (auto split: if_splits)
qed simp

lemma newestRecord_spec:
  assumes "records \<noteq> []"
  shows "\<exists>r. newestRecord records = [r] \<and> r \<in> set records \<and> (\<forall>x\<in>set records. m_Timestamp x \<le> m_Timestamp r)"
  using assms newestLoop_spec by (cases records) (auto simp: newestRecord_def)

lemma newestRecord_Nil [simp]: "newestRecord [] = []"
  by (simp add: newestRecord_def)

lemma historyRecord_row:
  assumes "historyRecord E i L gmt t own chat entry = Some r"
  shows "m_TenantID r = t" "m_ChatJID r = jString L chat" "m_WAMessageID r \<noteq> []" "Direction_Valid (m_Direction r)"
    "m_MediaPath r = None" "m_MediaStatus r = None"
    "\<exists>key. he_Key entry = Some key \<and> m_WAMessageID r = mk_ID key \<and>
       (m_Direction r = DirectionOut \<longleftrightarrow> mk_FromMe key) \<and>
       m_SenderJID r = historySender L own chat (mk_FromMe key) (mk_Participant key)"
  using assms
  by (auto simp: historyRecord_def applyMediaReference_keeps emptyMessage_def Let_def split: option.splits if_splits)

lemma historyLoop_rows:
  "r \<in> set (historyLoop E i L gmt t own chat es) \<Longrightarrow>
   \<exists>j entry. entry \<in> set es \<and> historyRecord E j L gmt t own chat entry = Some r"
  by (induction es arbitrary: i) (fastforce split: option.splits)+

text \<open>A message with an identifier is kept, whatever else is wrong with its neighbours.\<close>

definition identified :: "history_entry \<Rightarrow> bool" where
  "identified entry \<longleftrightarrow> (\<exists>key. he_Key entry = Some key \<and> mk_ID key \<noteq> [])"

lemma historyRecord_None: "historyRecord E i L gmt t own chat entry = None \<longleftrightarrow> \<not> identified entry"
  by (auto simp: historyRecord_def identified_def Let_def split: option.splits)

lemma historyLoop_ids:
  "map m_WAMessageID (historyLoop E i L gmt t own chat es) =
   map (\<lambda>e. mk_ID (the (he_Key e))) (filter identified es)"
proof (induction es arbitrary: i)
  case (Cons e es)
  show ?case
  proof (cases "historyRecord E i L gmt t own chat e")
    case None
    then show ?thesis using Cons historyRecord_None [of E i L gmt t own chat e] by simp
  next
    case (Some r)
    then have "identified e" using historyRecord_None [of E i L gmt t own chat e] by auto
    with Some historyRecord_row(7) [OF Some] Cons show ?thesis by auto
  qed
qed simp

lemma historyRecords_subset:
  "set (historyRecords E L gmt t own chat dec es) \<subseteq> set (historyLoop E 0 L gmt t own chat es)"
  using newestRecord_spec [of "historyLoop E 0 L gmt t own chat es"]
  by (cases "historyLoop E 0 L gmt t own chat es = []") (auto simp: historyRecords_def Let_def)

lemma historyRecords_row:
  assumes "r \<in> set (historyRecords E L gmt t own chat dec es)"
  shows "m_TenantID r = t \<and> m_ChatJID r = jString L chat \<and> m_WAMessageID r \<noteq> [] \<and> Direction_Valid (m_Direction r) \<and>
    m_MediaPath r = None \<and> m_MediaStatus r = None"
proof -
  have "r \<in> set (historyLoop E 0 L gmt t own chat es)" by (rule subsetD [OF historyRecords_subset assms])
  then obtain j entry where "historyRecord E j L gmt t own chat entry = Some r"
    using historyLoop_rows [of r E 0 L gmt t own chat es] by auto
  then show ?thesis by (simp add: historyRecord_row)
qed

text \<open>A chat that is not skipped and delivered anything usable ends with at least its anchor.\<close>

lemma historyRecords_anchor:
  assumes "dec \<noteq> historySkipChat" and "\<exists>e\<in>set es. identified e"
  shows "historyRecords E L gmt t own chat dec es \<noteq> []"
proof -
  have "historyLoop E 0 L gmt t own chat es \<noteq> []"
    using historyLoop_ids [of E 0 L gmt t own chat es] assms(2) by (metis filter_empty_conv list.simps(8) map_is_Nil_conv)
  then show ?thesis
    using assms newestRecord_spec [of "historyLoop E 0 L gmt t own chat es"]
    by (auto simp: historyRecords_def Let_def)
qed

end
