(* ===== verification/Manager.thy ===== *)
theory Manager
  imports Store History Pending MediaFetch
begin

text \<open>
  The state and the handlers of \<open>internal/wa/manager.go\<close>, \<open>internal/wa/history.go\<close> and
  \<open>internal/wa/groups.go\<close>. The manager's state is the database its repositories write, the
  registry of pending history requests, the counter of addresses that stayed LIDs and the
  clients by tenant. A client is what the gateway reads of it: its own address, its LID index
  and its two flags. What a call into whatsmeow answers is an argument of the operation that
  makes it. Operations that make several repository calls take an outside per call.

  \<open>SyncHistory\<close> is two functions, up to the request it sends and from the wake-up on, because
  other operations run while it waits. A handler returns \<open>None\<close> where it would block for ever
  on a channel.
\<close>

section \<open>State\<close>

record 'j client =
  cl_ID :: "'j option"
  cl_LIDs :: "'j lidResolver"
  cl_LoggedIn :: bool
  cl_Connected :: bool

record 'j manager =
  mg_db :: db
  mg_pending :: pendingHistory
  mg_unresolved :: "64 word"
  mg_clients :: "string \<Rightarrow> 'j client option"
  mg_scope :: string

definition ownJID :: "'j jid_lib \<Rightarrow> string \<Rightarrow> 'j manager \<Rightarrow> 'j" where
  "ownJID L tenantID m =
     (case mg_clients m tenantID of
        None \<Rightarrow> EmptyJID L
      | Some client \<Rightarrow> (case cl_ID client of None \<Rightarrow> EmptyJID L | Some j \<Rightarrow> ToNonAD L j))"

definition lidsFor :: "string \<Rightarrow> 'j manager \<Rightarrow> 'j lidResolver" where
  "lidsFor tenantID m = (case mg_clients m tenantID of None \<Rightarrow> None | Some client \<Rightarrow> cl_LIDs client)"

definition countUnresolved :: "bool \<Rightarrow> bool \<Rightarrow> 'j manager \<Rightarrow> 'j manager" where
  "countUnresolved chatCanonical senderCanonical m =
     (let unresolved = (if \<not> chatCanonical then 1 else 0) + (if \<not> senderCanonical then 1 else 0) in
      if unresolved = 0 then m else m\<lparr>mg_unresolved := mg_unresolved m + unresolved\<rparr>)"

definition updateStatus :: "env \<Rightarrow> string \<Rightarrow> string \<Rightarrow> string \<Rightarrow> 'j manager \<Rightarrow> 'j manager" where
  "updateStatus E tenantID status waJID m =
     m\<lparr>mg_db := snd (session_UpdateStatus E tenantID status waJID (mg_db m))\<rparr>"

section \<open>Live messages\<close>

record 'j live_message =
  lm_Source :: "'j MessageSource"
  lm_ID :: string
  lm_Timestamp :: gotime
  lm_MediaType :: string
  lm_Message :: "proto_message option"

definition liveRecord ::
  "env \<Rightarrow> 'j jid_lib \<Rightarrow> media_classes \<Rightarrow> string \<Rightarrow> 'j live_message \<Rightarrow> 'j \<Rightarrow> 'j \<Rightarrow> Message" where
  "liveRecord E L gmt tenantID e chat sender =
     (let direction = (if src_IsFromMe (lm_Source e) then DirectionOut else DirectionIn);
          r0 = emptyMessage\<lparr>m_ID := NewID E 0, m_TenantID := tenantID,
                 m_ChatJID := jString L (ToNonAD L chat), m_SenderJID := jString L (ToNonAD L sender),
                 m_WAMessageID := lm_ID e, m_Direction := direction, m_Body := extractText (lm_Message e),
                 m_Timestamp := lm_Timestamp e, m_CreatedAt := nowAt E 0\<rparr>;
          r1 = applyMediaReference r0 (mediaReference gmt (lm_Message e))
      in if lm_MediaType e \<noteq> [] then r1\<lparr>m_MediaType := Some (lm_MediaType e)\<rparr> else r1)"

definition persistMessage ::
  "(nat \<Rightarrow> env) \<Rightarrow> 'j jid_lib \<Rightarrow> media_classes \<Rightarrow> string \<Rightarrow> 'j live_message \<Rightarrow> 'j manager \<Rightarrow> 'j manager" where
  "persistMessage E L gmt tenantID e m =
     (let lids = lidsFor tenantID m;
          (chat, chatCanonical) = canonicalJID L lids (src_Chat (lm_Source e)) (chatAlt L (lm_Source e));
          (sender, senderCanonical) = canonicalJID L lids (src_Sender (lm_Source e)) (src_SenderAlt (lm_Source e));
          m1 = countUnresolved chatCanonical senderCanonical m;
          record = liveRecord (E 0) L gmt tenantID e chat sender
      in m1\<lparr>mg_db := snd (message_Append (E 1) record (mg_db m1))\<rparr>)"

section \<open>History syncs\<close>

record sync_data =
  sd_OnDemand :: bool
  sd_Conversations :: "(string \<times> history_entry list) list"

fun canonicaliseSenders ::
  "'j jid_lib \<Rightarrow> 'j lidResolver \<Rightarrow> Message list \<Rightarrow> 'j manager \<Rightarrow> Message list \<times> 'j manager" where
  "canonicaliseSenders L lids [] m = ([], m)"
| "canonicaliseSenders L lids (r # rs) m =
     (let (r', m1) =
        (case ParseJID L (m_SenderJID r) of
           None \<Rightarrow> (r, m)
         | Some sender \<Rightarrow>
             if jIsEmpty L sender then (r, m)
             else case canonicalJID L lids sender (EmptyJID L) of
               (canonical, ok) \<Rightarrow> (r\<lparr>m_SenderJID := jString L canonical\<rparr>, countUnresolved True ok m));
          (rs', m2) = canonicaliseSenders L lids rs m1
      in (r' # rs', m2))"

definition deliverOnDemand ::
  "env \<Rightarrow> 'j jid_lib \<Rightarrow> string \<Rightarrow> 'j \<Rightarrow> nat \<Rightarrow> nat \<Rightarrow> 'j manager \<Rightarrow> 'j manager option" where
  "deliverOnDemand E L tenantID chat inserted delivered m =
     (case message_OldestByChat E tenantID (jString L chat) (mg_db m) of (found, d') \<Rightarrow>
        (let oldest = (case found of Inl _ \<Rightarrow> 0 | Inr r \<Rightarrow> m_Timestamp r);
             delivery = \<lparr>hd_Inserted = inserted, hd_Delivered = delivered, hd_Oldest = oldest\<rparr>
         in map_option (\<lambda>(_, p'). m\<lparr>mg_db := d', mg_pending := p'\<rparr>)
              (deliver (historyKey tenantID (jString L chat)) delivery (mg_pending m))))"

definition persistConversation ::
  "(nat \<Rightarrow> env) \<Rightarrow> 'j jid_lib \<Rightarrow> media_classes \<Rightarrow> string \<Rightarrow> bool \<Rightarrow> string \<times> history_entry list \<Rightarrow> 'j manager \<Rightarrow>
   'j manager option" where
  "persistConversation E L gmt tenantID onDemand conv m =
     (case ParseJID L (fst conv) of
        None \<Rightarrow> Some m
      | Some raw \<Rightarrow>
          if jUser L raw = [] then Some m
          else
            (let lids = lidsFor tenantID m;
                 (chat, chatCanonical) = canonicalJID L lids raw (EmptyJID L);
                 m1 = countUnresolved chatCanonical True m;
                 records = historyRecords (E 0) L gmt tenantID (ownJID L tenantID m) chat
                   (historyDecisionFor L (mg_scope m) chat) (snd conv)
             in if records = [] then Some m1
                else
                  (let (records', m2) = canonicaliseSenders L lids records m1 in
                   case message_AppendBatch (E 1) records' (mg_db m2) of
                     (Inl _, d') \<Rightarrow> Some (m2\<lparr>mg_db := d'\<rparr>)
                   | (Inr added, d') \<Rightarrow>
                       if onDemand
                       then deliverOnDemand (E 2) L tenantID chat added (length records') (m2\<lparr>mg_db := d'\<rparr>)
                       else Some (m2\<lparr>mg_db := d'\<rparr>))))"

fun persistConversations ::
  "(nat \<Rightarrow> nat \<Rightarrow> env) \<Rightarrow> nat \<Rightarrow> 'j jid_lib \<Rightarrow> media_classes \<Rightarrow> string \<Rightarrow> bool \<Rightarrow> (string \<times> history_entry list) list \<Rightarrow>
   'j manager \<Rightarrow> 'j manager option" where
  "persistConversations E i L gmt tenantID onDemand [] m = Some m"
| "persistConversations E i L gmt tenantID onDemand (c # cs) m =
     (case persistConversation (E i) L gmt tenantID onDemand c m of
        None \<Rightarrow> None
      | Some m' \<Rightarrow> persistConversations E (Suc i) L gmt tenantID onDemand cs m')"

definition persistHistorySync ::
  "(nat \<Rightarrow> nat \<Rightarrow> env) \<Rightarrow> 'j jid_lib \<Rightarrow> media_classes \<Rightarrow> string \<Rightarrow> sync_data option \<Rightarrow> 'j manager \<Rightarrow> 'j manager option" where
  "persistHistorySync E L gmt tenantID data m =
     (case data of
        None \<Rightarrow> Some m
      | Some d \<Rightarrow> persistConversations E 0 L gmt tenantID (sd_OnDemand d) (sd_Conversations d) m)"

section \<open>Group names\<close>

definition rememberGroupName :: "env \<Rightarrow> 'j jid_lib \<Rightarrow> string \<Rightarrow> 'j \<Rightarrow> string \<Rightarrow> 'j manager \<Rightarrow> 'j manager" where
  "rememberGroupName E L tenantID jid name m =
     m\<lparr>mg_db := snd (chat_Upsert E tenantID \<lparr>n_ChatJID = jString L (ToNonAD L jid), n_Name = name\<rparr> (mg_db m))\<rparr>"

text \<open>\<open>groups\<close> is what \<open>GetJoinedGroups\<close> answers: \<open>None\<close> an error, \<open>None\<close> in the list a nil entry.\<close>

definition syncGroupNames ::
  "env \<Rightarrow> 'j jid_lib \<Rightarrow> string \<Rightarrow> ('j \<times> string) option list option \<Rightarrow> 'j manager \<Rightarrow> wa_error option \<times> 'j manager" where
  "syncGroupNames E L tenantID groups m =
     (case groups of
        None \<Rightarrow> (Some (WAFailure ''get joined groups''), m)
      | Some gs \<Rightarrow>
          (let named = map (\<lambda>(jid, name). \<lparr>n_ChatJID = jString L (ToNonAD L jid), n_Name = name\<rparr>)
                 (map the (filter (\<lambda>g. g \<noteq> None) gs))
           in case chat_UpsertBatch E tenantID named (mg_db m) of
                (e, d') \<Rightarrow> (map_option WAStore e, m\<lparr>mg_db := d'\<rparr>)))"

section \<open>Events\<close>

datatype 'j event =
    EvMessage "'j live_message"
  | EvHistorySync "sync_data option"
  | EvConnected
  | EvJoinedGroup 'j string
  | EvGroupInfo 'j "string option"
  | EvDisconnected
  | EvLoggedOut
  | EvOther

text \<open>
  \<open>handleEvent\<close>. The second result says whether it started \<open>syncGroupNames\<close> on a goroutine of
  its own, which then runs as a step of its own.
\<close>

definition handleEvent ::
  "(nat \<Rightarrow> nat \<Rightarrow> env) \<Rightarrow> 'j jid_lib \<Rightarrow> media_classes \<Rightarrow> string \<Rightarrow> 'j event \<Rightarrow> 'j manager \<Rightarrow>
   ('j manager \<times> bool) option" where
  "handleEvent E L gmt tenantID evt m =
     (case evt of
        EvMessage e \<Rightarrow> Some (persistMessage (E 0) L gmt tenantID e m, False)
      | EvHistorySync data \<Rightarrow> map_option (\<lambda>m'. (m', False)) (persistHistorySync E L gmt tenantID data m)
      | EvConnected \<Rightarrow>
          (let waJID = (case mg_clients m tenantID of
                 None \<Rightarrow> []
               | Some client \<Rightarrow> (case cl_ID client of None \<Rightarrow> [] | Some j \<Rightarrow> jString L j))
           in Some (updateStatus (E 0 0) tenantID SessionConnected waJID m, mg_clients m tenantID \<noteq> None))
      | EvJoinedGroup jid name \<Rightarrow> Some (rememberGroupName (E 0 0) L tenantID jid name m, False)
      | EvGroupInfo jid name \<Rightarrow>
          (case name of
             None \<Rightarrow> Some (m, False)
           | Some n \<Rightarrow> Some (rememberGroupName (E 0 0) L tenantID jid n m, False))
      | EvDisconnected \<Rightarrow> Some (updateStatus (E 0 0) tenantID SessionDisconnected [] m, False)
      | EvLoggedOut \<Rightarrow> Some (updateStatus (E 0 0) tenantID SessionLoggedOut [] m, False)
      | EvOther \<Rightarrow> Some (m, False))"

section \<open>Calls of the session manager\<close>

definition manager_Status :: "env \<Rightarrow> string \<Rightarrow> 'j manager \<Rightarrow> wa_error + SessionStatus" where
  "manager_Status E tenantID m =
     (case session_GetByTenant E tenantID (mg_db m) of
        Inl ErrNotFound \<Rightarrow> Inl ErrUnknownTenant
      | Inl e \<Rightarrow> Inl (WAStore e)
      | Inr session \<Rightarrow>
          Inr \<lparr>ss_TenantID = tenantID, ss_Status = s_Status session, ss_WAJID = derefString (s_WAJID session),
               ss_Connected = (case mg_clients m tenantID of None \<Rightarrow> False | Some c \<Rightarrow> cl_Connected c),
               ss_LoggedIn = (case mg_clients m tenantID of None \<Rightarrow> False | Some c \<Rightarrow> cl_LoggedIn c)\<rparr>)"

record send_response =
  sp_ID :: string
  sp_Timestamp :: gotime

definition sentRecord :: "'j jid_lib \<Rightarrow> gotime \<Rightarrow> send_response \<Rightarrow> 'j \<Rightarrow> 'j \<Rightarrow> SentMessage" where
  "sentRecord L now resp chat own =
     \<lparr>sm_WAMessageID = sp_ID resp, sm_ChatJID = jString L (ToNonAD L chat), sm_SenderJID = jString L (ToNonAD L own),
      sm_Timestamp = (if IsZero (sp_Timestamp resp) then now else sp_Timestamp resp)\<rparr>"

text \<open>\<open>reply\<close> is what \<open>client.SendMessage\<close> answers to a destination and a body.\<close>

definition SendText ::
  "gotime \<Rightarrow> 'j jid_lib \<Rightarrow> ('j \<Rightarrow> string \<Rightarrow> send_response option) \<Rightarrow> string \<Rightarrow> string \<Rightarrow> string \<Rightarrow> 'j manager \<Rightarrow>
   (wa_error + SentMessage) \<times> 'j manager" where
  "SendText now L reply tenantID toJID body m =
     (case mg_clients m tenantID of
        None \<Rightarrow> (Inl ErrNotPaired, m)
      | Some client \<Rightarrow>
          if \<not> cl_LoggedIn client then (Inl ErrNotPaired, m)
          else case sendDestination L (lidsFor tenantID m) toJID of
            Inl e \<Rightarrow> (Inl e, m)
          | Inr (chat, canonical) \<Rightarrow>
              (let m1 = countUnresolved canonical True m in
               case reply chat body of
                 None \<Rightarrow> (Inl (WAFailure ''wa: send message''), m1)
               | Some resp \<Rightarrow> (Inr (sentRecord L now resp chat (ownJID L tenantID m1)), m1)))"

definition Logout :: "env \<Rightarrow> bool \<Rightarrow> string \<Rightarrow> 'j manager \<Rightarrow> wa_error option \<times> 'j manager" where
  "Logout E loggedOut tenantID m =
     (let m1 = m\<lparr>mg_clients := (mg_clients m)(tenantID := None)\<rparr> in
      case mg_clients m tenantID of
        None \<Rightarrow> (Some ErrNotPaired, m1)
      | Some client \<Rightarrow>
          if \<not> loggedOut then (Some (WAFailure ''wa: logout''), m1)
          else case session_UpdateStatus E tenantID SessionLoggedOut [] (mg_db m1) of
            (None, d') \<Rightarrow> (None, m1\<lparr>mg_db := d'\<rparr>)
          | (Some ErrNotFound, d') \<Rightarrow> (None, m1\<lparr>mg_db := d'\<rparr>)
          | (Some e, d') \<Rightarrow> (Some (WAStore e), m1\<lparr>mg_db := d'\<rparr>))"

definition manager_Close :: "'j manager \<Rightarrow> 'j manager" where
  "manager_Close m = m\<lparr>mg_clients := (\<lambda>_. None)\<rparr>"

definition manager_downloaderFor :: "('j client \<Rightarrow> downloader) \<Rightarrow> string \<Rightarrow> 'j manager \<Rightarrow> wa_error + downloader" where
  "manager_downloaderFor dl tenantID m =
     (case mg_clients m tenantID of
        None \<Rightarrow> Inl ErrNotPaired
      | Some client \<Rightarrow> if \<not> cl_LoggedIn client then Inl ErrNotPaired else Inr (dl client))"

section \<open>Asking for history\<close>

record 'j history_request =
  hq_Chat :: 'j
  hq_FromMe :: bool
  hq_ID :: string
  hq_Timestamp :: gotime
  hq_Count :: int

record waiting =
  wt_Key :: string
  wt_Channel :: nat
  wt_Chat :: string
  wt_Count :: int

text \<open>Up to the request. \<open>sent\<close> is what \<open>client.SendPeerMessage\<close> answers to it.\<close>

definition SyncHistory_start ::
  "env \<Rightarrow> 'j jid_lib \<Rightarrow> ('j history_request \<Rightarrow> bool) \<Rightarrow> string \<Rightarrow> string \<Rightarrow> int \<Rightarrow> 'j manager \<Rightarrow>
   (wa_error + waiting) \<times> 'j manager" where
  "SyncHistory_start E L sent tenantID chatJID count0 m =
     (case mg_clients m tenantID of
        None \<Rightarrow> (Inl ErrNotPaired, m)
      | Some client \<Rightarrow>
          if \<not> cl_LoggedIn client then (Inl ErrNotPaired, m)
          else case parseJID L chatJID of
            Inl e \<Rightarrow> (Inl e, m)
          | Inr chat \<Rightarrow>
              (let count = NormalizeSyncCount count0;
                   canonical = fst (canonicalJID L (lidsFor tenantID m) chat (EmptyJID L))
               in case message_OldestByChat E tenantID (jString L canonical) (mg_db m) of
                    (Inl ErrNotFound, d') \<Rightarrow> (Inl ErrNoAnchorMessage, m\<lparr>mg_db := d'\<rparr>)
                  | (Inl e, d') \<Rightarrow> (Inl (WAStore e), m\<lparr>mg_db := d'\<rparr>)
                  | (Inr anchor, d') \<Rightarrow>
                      (let m1 = m\<lparr>mg_db := d'\<rparr>; key = historyKey tenantID (jString L canonical) in
                       case register key (mg_pending m1) of
                         (Inl e, p') \<Rightarrow> (Inl e, m1\<lparr>mg_pending := p'\<rparr>)
                       | (Inr ch, p') \<Rightarrow>
                           (let request = \<lparr>hq_Chat = chat, hq_FromMe = (m_Direction anchor = DirectionOut),
                                  hq_ID = m_WAMessageID anchor, hq_Timestamp = m_Timestamp anchor, hq_Count = count\<rparr>
                            in if \<not> sent request
                               then (Inl (WAFailure ''wa: request history sync''), m1\<lparr>mg_pending := release key ch p'\<rparr>)
                               else (Inr \<lparr>wt_Key = key, wt_Channel = ch, wt_Chat = jString L canonical, wt_Count = count\<rparr>,
                                     m1\<lparr>mg_pending := p'\<rparr>)))))"

text \<open>
  From the wake-up on. A reply can be chosen only when one is in the channel; \<open>None\<close> where it
  is chosen and there is none.
\<close>

datatype wake = WakeReply | WakeTimeout | WakeCancelled

definition SyncHistory_finish :: "wake \<Rightarrow> waiting \<Rightarrow> 'j manager \<Rightarrow> ((wa_error + SyncResult) \<times> 'j manager) option" where
  "SyncHistory_finish w wt m =
     (case w of
        WakeReply \<Rightarrow>
          map_option (\<lambda>(d, p'). (Inr \<lparr>sr_ChatJID = wt_Chat wt, sr_Inserted = hd_Inserted d,
                 sr_OldestTimestamp = hd_Oldest d, sr_MoreAvailable = (int (hd_Delivered d) \<ge> wt_Count wt)\<rparr>,
               m\<lparr>mg_pending := release (wt_Key wt) (wt_Channel wt) p'\<rparr>))
            (receive (wt_Channel wt) (mg_pending m))
      | WakeTimeout \<Rightarrow> Some (Inl ErrSyncTimeout, m\<lparr>mg_pending := release (wt_Key wt) (wt_Channel wt) (mg_pending m)\<rparr>)
      | WakeCancelled \<Rightarrow> Some (Inl ErrContext, m\<lparr>mg_pending := release (wt_Key wt) (wt_Channel wt) (mg_pending m)\<rparr>))"

end
