(* ===== verification/ManagerInv.thy ===== *)
theory ManagerInv
  imports Manager
begin

text \<open>
  What every operation of the manager keeps: its database only moves by steps of the store,
  its registry stays sound, no event handler blocks, and no operation writes a key.
\<close>

section \<open>Database runs\<close>

definition db_evolves :: "db \<Rightarrow> db \<Rightarrow> bool" where
  "db_evolves d d' \<longleftrightarrow> store_step\<^sup>*\<^sup>* d d' \<and> api_keys d' = api_keys d \<and> tenants d' = tenants d"

lemma db_evolves_refl [simp]: "db_evolves d d"
  by (simp add: db_evolves_def)

lemma db_evolves_trans: "db_evolves a b \<Longrightarrow> db_evolves b c \<Longrightarrow> db_evolves a c"
  unfolding db_evolves_def by (metis rtranclp_trans)

lemma db_evolves_ops [simp]:
  "db_evolves d (snd (session_UpdateStatus E t st j d))"
  "db_evolves d (snd (session_EnsureForTenant E t d))"
  "db_evolves d (snd (message_Append E r d))"
  "db_evolves d (snd (message_AppendBatch E rs d))"
  "db_evolves d (snd (message_UpdateMedia E t i upd d))"
  "db_evolves d (snd (chat_Upsert E t c d))"
  "db_evolves d (snd (chat_UpsertBatch E t cs d))"
  using session_UpdateStatus_frame [OF prod.collapse [symmetric], of E t st j d]
    session_EnsureForTenant_frame [OF prod.collapse [symmetric], of E t d]
    message_Append_frame [OF prod.collapse [symmetric], of E r d]
    message_AppendBatch_frame [OF prod.collapse [symmetric], of E rs d]
    message_UpdateMedia_frame [OF prod.collapse [symmetric], of E t i upd d]
    chat_Upsert_frame [OF prod.collapse [symmetric], of E t c d]
    chat_UpsertBatch_frame [OF prod.collapse [symmetric], of E t cs d]
  by (simp_all add: db_evolves_def r_into_rtranclp store_step.intros)

lemma chatAliases_ready: "snd (chatAliases E a d) = d \<or> snd (chatAliases E a d) = snd (lidMapReady E d)"
  by (auto simp: chatAliases_def Let_def split: option.split prod.split)

lemma db_evolves_lids [simp]: "db_evolves d (snd (lidMapReady E d))"
  by (simp add: db_evolves_def r_into_rtranclp store_step.intros)

lemma db_evolves_aliases [simp]: "db_evolves d (snd (chatAliases E a d))"
  using chatAliases_ready [of E a d] db_evolves_lids [of d E] by (metis db_evolves_refl)

lemma message_OldestByChat_snd: "snd (message_OldestByChat E t a d) = snd (chatAliases E a d)"
  by (simp add: message_OldestByChat_def case_prod_beta split: sum.split list.split)

lemma message_ListByChat_snd: "snd (message_ListByChat E t a n d) = snd (chatAliases E a d)"
  by (simp add: message_ListByChat_def case_prod_beta)

lemma db_evolves_oldest [simp]: "db_evolves d (snd (message_OldestByChat E t a d))"
  by (simp add: message_OldestByChat_snd)

lemma db_evolves_ok: "db_evolves d d' \<Longrightarrow> db_ok d \<Longrightarrow> db_ok d'"
  unfolding db_evolves_def by (blast intro: store_run_ok)

lemma db_evolves_live: "db_evolves d d' \<Longrightarrow> live_key d' = live_key d"
  by (rule ext) (simp add: db_evolves_def live_key_def)

section \<open>The registry\<close>

lemma waiting_has_room:
  assumes "pending_ok p" and "map_of (waiters p) key = Some ch"
  shows "buf p ch = []"
proof -
  have "(key, ch) \<in> set (waiters p)" using assms(2) by (rule map_of_SomeD)
  then have "ch \<in> set (map snd (waiters p))" by force
  then have "count_list (map snd (waiters p)) ch \<noteq> 0" by (simp only: count_list_0_iff simp_thms)
  moreover have "tokens p ch \<le> 1" using assms(1) by (auto simp: pending_ok_def split: if_splits)
  ultimately have "length (buf p ch) = 0" unfolding tokens_def by linarith
  then show ?thesis by simp
qed

lemma deliver_total:
  assumes "pending_ok p"
  shows "\<exists>b p'. deliver key d p = Some (b, p') \<and> pending_ok p' \<and> nextCh p' = nextCh p"
proof (cases "map_of (waiters p) key")
  case None
  then have "deliver key d p = Some (False, p)" by (simp add: deliver_def)
  with assms show ?thesis by blast
next
  case (Some ch)
  define p1 where "p1 = snd (deliver_take key d p)"
  have take: "deliver_take key d p = (True, p1)"
    "p1 = p\<lparr>waiters := delete_key key (waiters p), inflight := (ch, d) # inflight p\<rparr>"
    using Some by (simp_all add: deliver_take_def p1_def)
  have ok1: "pending_ok p1" using pending_ok_take [OF take(1) assms] .
  obtain p2 where p2: "deliver_send ch d p1 = Some p2" "nextCh p2 = nextCh p"
    using waiting_has_room [OF assms Some] by (simp add: deliver_send_def take(2))
  have "pending_ok p2" using pending_ok_send [OF _ p2(1) ok1] by (simp add: take(2))
  moreover have "deliver key d p = Some (True, p2)" using Some p2(1) by (simp add: deliver_def flip: p1_def)
  moreover have "nextCh p2 = nextCh p" using p2(2) by simp
  ultimately show ?thesis by blast
qed

section \<open>Operations of the manager\<close>

text \<open>One operation: how the state moved.\<close>

definition manager_moves :: "'j manager \<Rightarrow> 'j manager \<Rightarrow> bool" where
  "manager_moves m m' \<longleftrightarrow>
     db_evolves (mg_db m) (mg_db m') \<and> (pending_ok (mg_pending m) \<longrightarrow> pending_ok (mg_pending m')) \<and>
     mg_scope m' = mg_scope m"

lemma manager_moves_refl [simp]: "manager_moves m m"
  by (simp add: manager_moves_def)

lemma manager_moves_trans: "manager_moves a b \<Longrightarrow> manager_moves b c \<Longrightarrow> manager_moves a c"
  by (auto simp: manager_moves_def intro: db_evolves_trans)

lemma manager_moves_db: "db_evolves (mg_db m) d' \<Longrightarrow> manager_moves m (m\<lparr>mg_db := d'\<rparr>)"
  by (simp add: manager_moves_def)

lemma countUnresolved_simps [simp]:
  "mg_db (countUnresolved a b m) = mg_db m" "mg_pending (countUnresolved a b m) = mg_pending m"
  "mg_clients (countUnresolved a b m) = mg_clients m" "mg_scope (countUnresolved a b m) = mg_scope m"
  by (simp_all add: countUnresolved_def Let_def)

lemma manager_moves_count [simp]: "manager_moves m (countUnresolved a b m)"
  by (simp add: manager_moves_def)

lemma updateStatus_moves [simp]: "manager_moves m (updateStatus E t st j m)"
  by (simp add: updateStatus_def manager_moves_db)

lemma persistMessage_moves [simp]: "manager_moves m (persistMessage E L gmt t e m)"
  by (simp add: persistMessage_def Let_def case_prod_beta manager_moves_def)

lemma rememberGroupName_moves [simp]: "manager_moves m (rememberGroupName E L t j n m)"
  by (simp add: rememberGroupName_def manager_moves_db)

lemma syncGroupNames_moves [simp]: "manager_moves m (snd (syncGroupNames E L t gs m))"
  by (simp add: syncGroupNames_def Let_def case_prod_beta manager_moves_db split: option.split)

lemma canonicaliseSenders_moves:
  "canonicaliseSenders L lids rs m = (rs', m') \<Longrightarrow>
   mg_db m' = mg_db m \<and> mg_pending m' = mg_pending m \<and> mg_clients m' = mg_clients m \<and> mg_scope m' = mg_scope m \<and>
   map m_TenantID rs' = map m_TenantID rs"
proof (induction rs arbitrary: m rs' m')
  case (Cons r rs)
  obtain r1 m1 where one: "(case ParseJID L (m_SenderJID r) of None \<Rightarrow> (r, m)
      | Some sender \<Rightarrow> if jIsEmpty L sender then (r, m)
          else case canonicalJID L lids sender (EmptyJID L) of
            (canonical, ok) \<Rightarrow> (r\<lparr>m_SenderJID := jString L canonical\<rparr>, countUnresolved True ok m)) = (r1, m1)"
    by fastforce
  then have m1: "mg_db m1 = mg_db m \<and> mg_pending m1 = mg_pending m \<and> mg_clients m1 = mg_clients m \<and> mg_scope m1 = mg_scope m \<and>
      m_TenantID r1 = m_TenantID r"
    by (auto split: option.splits if_splits prod.splits)
  obtain rs2 m2 where two: "canonicaliseSenders L lids rs m1 = (rs2, m2)" by fastforce
  then have "rs' = r1 # rs2" "m' = m2" using Cons.prems one by simp_all
  with Cons.IH [OF two] m1 show ?case by simp
qed simp

lemma deliverOnDemand_total:
  assumes "pending_ok (mg_pending m)"
  shows "\<exists>m'. deliverOnDemand E L t chat i n m = Some m' \<and> manager_moves m m' \<and> pending_ok (mg_pending m')"
proof -
  obtain found d' where o: "message_OldestByChat E t (jString L chat) (mg_db m) = (found, d')" by fastforce
  have ev: "db_evolves (mg_db m) d'" using db_evolves_oldest [of "mg_db m" E t "jString L chat"] o by simp
  show ?thesis
    using deliver_total [OF assms, of "historyKey t (jString L chat)"
        "\<lparr>hd_Inserted = i, hd_Delivered = n, hd_Oldest = (case found of Inl _ \<Rightarrow> 0 | Inr r \<Rightarrow> m_Timestamp r)\<rparr>"] ev
    by (auto simp: deliverOnDemand_def o manager_moves_def)
qed

text \<open>What \<open>persistConversation\<close> does: nothing, only count, or store a batch and perhaps answer a request.\<close>

lemma persistConversation_eq:
  assumes "ParseJID L (fst conv) = Some raw" and "canonicalJID L (lidsFor t m) raw (EmptyJID L) = (chat, ok)"
    and "rs = historyRecords (E 0) L gmt t (ownJID L t m) chat (historyDecisionFor L (mg_scope m) chat) (snd conv)"
    and "canonicaliseSenders L (lidsFor t m) rs (countUnresolved ok True m) = (rs', m2)"
    and "message_AppendBatch (E 1) rs' (mg_db m2) = (r, d')"
  shows "persistConversation E L gmt t od conv m =
      (if jUser L raw = [] then Some m else if rs = [] then Some (countUnresolved ok True m)
       else case r of Inl _ \<Rightarrow> Some (m2\<lparr>mg_db := d'\<rparr>)
         | Inr added \<Rightarrow> if od then deliverOnDemand (E 2) L t chat added (length rs') (m2\<lparr>mg_db := d'\<rparr>)
             else Some (m2\<lparr>mg_db := d'\<rparr>))"
  by (simp add: persistConversation_def assms(1,2,4,5) Let_def del: One_nat_def flip: assms(3) split: sum.split)

lemma persistConversation_cases:
  assumes p: "persistConversation E L gmt t od conv m = Some m'"
  obtains (skipped) "m' = m"
  | (counted) ok where "m' = countUnresolved ok True m"
  | (stored) own chat dec ok rs rs' m2 r d' where "rs = historyRecords (E 0) L gmt t own chat dec (snd conv)"
      "canonicaliseSenders L (lidsFor t m) rs (countUnresolved ok True m) = (rs', m2)"
      "message_AppendBatch (E 1) rs' (mg_db m2) = (r, d')"
      "m' = m2\<lparr>mg_db := d'\<rparr> \<or>
       (\<exists>added. deliverOnDemand (E 2) L t chat added (length rs') (m2\<lparr>mg_db := d'\<rparr>) = Some m')"
proof (cases "ParseJID L (fst conv)")
  case None
  then show ?thesis using p by (intro skipped) (simp add: persistConversation_def)
next
  case (Some raw)
  obtain chat ok where c: "canonicalJID L (lidsFor t m) raw (EmptyJID L) = (chat, ok)" by fastforce
  define rs where "rs = historyRecords (E 0) L gmt t (ownJID L t m) chat (historyDecisionFor L (mg_scope m) chat) (snd conv)"
  obtain rs' m2 where s: "canonicaliseSenders L (lidsFor t m) rs (countUnresolved ok True m) = (rs', m2)" by fastforce
  obtain r d' where b: "message_AppendBatch (E 1) rs' (mg_db m2) = (r, d')" by fastforce
  note eq = persistConversation_eq [OF Some c rs_def s b]
  consider "jUser L raw = []" | "jUser L raw \<noteq> []" "rs = []" | "jUser L raw \<noteq> []" "rs \<noteq> []" by blast
  then show ?thesis
  proof cases
    case 3
    then have "m' = m2\<lparr>mg_db := d'\<rparr> \<or>
        (\<exists>added. deliverOnDemand (E 2) L t chat added (length rs') (m2\<lparr>mg_db := d'\<rparr>) = Some m')"
      using p by (auto simp: eq split: sum.splits if_splits)
    then show ?thesis by (rule stored [OF rs_def s b])
  next
    case 2
    then show ?thesis using p by (intro counted [of ok]) (simp add: eq)
  qed (use p skipped in \<open>simp add: eq\<close>)
qed

lemma persistConversation_total:
  assumes "pending_ok (mg_pending m)"
  shows "\<exists>m'. persistConversation E L gmt t od conv m = Some m' \<and> manager_moves m m' \<and> pending_ok (mg_pending m')"
proof (cases "ParseJID L (fst conv)")
  case None
  then show ?thesis using assms by (simp add: persistConversation_def)
next
  case (Some raw)
  obtain chat ok where c: "canonicalJID L (lidsFor t m) raw (EmptyJID L) = (chat, ok)" by fastforce
  define rs where "rs = historyRecords (E 0) L gmt t (ownJID L t m) chat (historyDecisionFor L (mg_scope m) chat) (snd conv)"
  obtain rs' m2 where s: "canonicaliseSenders L (lidsFor t m) rs (countUnresolved ok True m) = (rs', m2)" by fastforce
  note m2 = canonicaliseSenders_moves [OF s]
  obtain r d' where b: "message_AppendBatch (E 1) rs' (mg_db m2) = (r, d')" by fastforce
  have ev: "db_evolves (mg_db m) d'"
    using db_evolves_ops(4) [of "mg_db m2" "E 1" rs'] m2 unfolding b by simp
  have mv: "manager_moves m (m2\<lparr>mg_db := d'\<rparr>)" and p: "pending_ok (mg_pending (m2\<lparr>mg_db := d'\<rparr>))"
    using ev m2 assms by (simp_all add: manager_moves_def)
  note eq = persistConversation_eq [OF Some c rs_def s b]
  show ?thesis
  proof (cases "jUser L raw = [] \<or> rs = []")
    case True
    then show ?thesis using assms by (auto simp: eq)
  next
    case False
    then show ?thesis
      using mv p deliverOnDemand_total [OF p, of "E 2" L t chat _ "length rs'"] manager_moves_trans [OF mv]
      by (cases r) (auto simp: eq)
  qed
qed

lemma persistConversations_total:
  "pending_ok (mg_pending m) \<Longrightarrow>
   \<exists>m'. persistConversations E i L gmt t od cs m = Some m' \<and> manager_moves m m' \<and> pending_ok (mg_pending m')"
proof (induction cs arbitrary: i m)
  case (Cons c cs)
  obtain m1 where m1: "persistConversation (E i) L gmt t od c m = Some m1" "manager_moves m m1" "pending_ok (mg_pending m1)"
    using persistConversation_total [OF Cons.prems] by blast
  then show ?case using Cons.IH [OF m1(3), of "Suc i"] manager_moves_trans [OF m1(2)] by auto
qed simp

lemma handleEvent_total:
  assumes "pending_ok (mg_pending m)"
  shows "\<exists>m' spawned. handleEvent E L gmt t evt m = Some (m', spawned) \<and> manager_moves m m'"
proof (cases evt)
  case (EvHistorySync data)
  then show ?thesis
  proof (cases data)
    case None
    with EvHistorySync have "handleEvent E L gmt t evt m = Some (m, False)"
      by (simp add: handleEvent_def persistHistorySync_def)
    then show ?thesis by (metis manager_moves_refl)
  next
    case (Some d)
    obtain m' where "persistConversations E 0 L gmt t (sd_OnDemand d) (sd_Conversations d) m = Some m'" "manager_moves m m'"
      using persistConversations_total [OF assms] by blast
    with EvHistorySync Some have "handleEvent E L gmt t evt m = Some (m', False)"
      by (simp add: handleEvent_def persistHistorySync_def)
    with \<open>manager_moves m m'\<close> show ?thesis by blast
  qed
qed (auto simp: handleEvent_def Let_def split: option.split)

lemma SendText_moves [simp]: "manager_moves m (snd (SendText now L reply t to body m))"
  by (auto simp: SendText_def Let_def split: option.split sum.split)

lemma Logout_moves [simp]: "manager_moves m (snd (Logout E ok t m))"
proof -
  obtain e d' where u: "session_UpdateStatus E t SessionLoggedOut [] (mg_db m) = (e, d')" by fastforce
  have "db_evolves (mg_db m) d'"
    using db_evolves_ops(1) [of "mg_db m" E t SessionLoggedOut "[]"] unfolding u by simp
  then show ?thesis
    by (simp add: Logout_def Let_def u manager_moves_def split: option.split store_error.split)
qed

lemma SyncHistory_start_moves [simp]: "manager_moves m (snd (SyncHistory_start E L sent t c n m))"
proof -
  have ev: "db_evolves (mg_db m) (snd (message_OldestByChat E t a (mg_db m)))" for a by simp
  have reg: "pending_ok p \<Longrightarrow> pending_ok (snd (register key p))" for key p
    using pending_ok_register [OF prod.collapse [symmetric]] .
  show ?thesis
    using ev reg pending_ok_release
    by (simp add: SyncHistory_start_def Let_def case_prod_beta manager_moves_def
        split: option.split sum.split store_error.split)
qed

lemma SyncHistory_finish_moves:
  "SyncHistory_finish w wt m = Some (r, m') \<Longrightarrow> manager_moves m m'"
  using pending_ok_receive pending_ok_release
  by (auto simp: SyncHistory_finish_def manager_moves_def split: wake.splits)

end
