(* ===== verification/Pairing.thy ===== *)
theory Pairing
  imports ManagerInv
begin

text \<open>
  Pairing and the life of clients in \<open>internal/wa/manager.go\<close>: \<open>clientFor\<close>, \<open>deviceFor\<close>,
  \<open>pairWithCode\<close>, \<open>pairWithQR\<close>, \<open>StartPairing\<close> and \<open>RestoreSessions\<close>. whatsmeow's container of
  devices is the record \<open>'j container\<close>; a device is the address it is registered under, or none
  for a fresh one. \<open>new_client\<close> is the client whatsmeow builds on a device. What the calls on a
  client answer during pairing is the record \<open>pairing_calls\<close>; the items that arrive on the QR
  channel are a list, and \<open>QRTimeout\<close> and \<open>QRCancelled\<close> are the other two branches of the
  select.
\<close>

section \<open>Clients\<close>

record 'j container =
  ct_GetDevice :: "'j \<Rightarrow> 'j option option"
  ct_AllDevices :: "'j option list option"
  new_client :: "'j option \<Rightarrow> 'j client"

text \<open>\<open>ct_GetDevice\<close>: an error, or the device with that address if there is one.\<close>

definition deviceFor :: "'j jid_lib \<Rightarrow> 'j container \<Rightarrow> Session \<Rightarrow> wa_error + 'j option" where
  "deviceFor L C session =
     (case s_WAJID session of
        None \<Rightarrow> Inr None
      | Some raw \<Rightarrow>
          if raw = [] then Inr None
          else case parseJID L raw of
            Inl _ \<Rightarrow> Inr None
          | Inr jid \<Rightarrow>
              (case ct_GetDevice C jid of
                 None \<Rightarrow> Inl (WAFailure ''wa: load device'')
               | Some None \<Rightarrow> Inr None
               | Some (Some dev) \<Rightarrow> Inr (Some dev)))"

text \<open>\<open>raced\<close> is the client another goroutine stored while the device was being loaded.\<close>

definition clientFor ::
  "env \<Rightarrow> 'j jid_lib \<Rightarrow> 'j container \<Rightarrow> 'j client option \<Rightarrow> string \<Rightarrow> 'j manager \<Rightarrow>
   (wa_error + 'j client) \<times> 'j manager" where
  "clientFor E L C raced tenantID m =
     (case mg_clients m tenantID of
        Some existing \<Rightarrow> (Inr existing, m)
      | None \<Rightarrow>
          (case session_GetByTenant E tenantID (mg_db m) of
             Inl ErrNotFound \<Rightarrow> (Inl ErrUnknownTenant, m)
           | Inl e \<Rightarrow> (Inl (WAStore e), m)
           | Inr session \<Rightarrow>
               (case deviceFor L C session of
                  Inl e \<Rightarrow> (Inl e, m)
                | Inr device \<Rightarrow>
                    (case raced of
                       Some other \<Rightarrow> (Inr other, m\<lparr>mg_clients := (mg_clients m)(tenantID \<mapsto> other)\<rparr>)
                     | None \<Rightarrow>
                         (Inr (new_client C device),
                          m\<lparr>mg_clients := (mg_clients m)(tenantID \<mapsto> new_client C device)\<rparr>)))))"

fun restore_each ::
  "'j jid_lib \<Rightarrow> 'j container \<Rightarrow> 'j list \<Rightarrow> Session list \<Rightarrow> 'j manager \<Rightarrow> 'j manager" where
  "restore_each L C devices [] m = m"
| "restore_each L C devices (s # ss) m =
     (case s_WAJID s of
        None \<Rightarrow> restore_each L C devices ss m
      | Some raw \<Rightarrow>
          if raw = [] then restore_each L C devices ss m
          else case find (\<lambda>dev. jString L dev = raw) (rev devices) of
            None \<Rightarrow> restore_each L C devices ss m
          | Some dev \<Rightarrow>
              restore_each L C devices ss
                (m\<lparr>mg_clients := (mg_clients m)(s_TenantID s \<mapsto> new_client C (Some dev))\<rparr>))"

text \<open>Whether \<open>Connect\<close> succeeds only changes what is logged: the client stays.\<close>

definition RestoreSessions :: "env \<Rightarrow> 'j jid_lib \<Rightarrow> 'j container \<Rightarrow> 'j manager \<Rightarrow> wa_error option \<times> 'j manager" where
  "RestoreSessions E L C m =
     (case session_List E (mg_db m) of
        Inl _ \<Rightarrow> (Some (WAFailure ''wa: list sessions''), m)
      | Inr ss \<Rightarrow>
          (case ct_AllDevices C of
             None \<Rightarrow> (Some (WAFailure ''wa: load whatsmeow devices''), m)
           | Some devices \<Rightarrow> (None, restore_each L C (map the (filter (\<lambda>d. d \<noteq> None) devices)) ss m)))"

section \<open>Pairing\<close>

datatype qr_item = QRCode string | QRError | QROther | QRClosed | QRTimeout | QRCancelled

record pairing_calls =
  pc_Connect :: bool
  pc_PairPhone :: "string \<Rightarrow> string option"
  pc_QRChannel :: "qr_item list option"

definition connect_error :: "'j client \<Rightarrow> pairing_calls \<Rightarrow> bool" where
  "connect_error client calls \<longleftrightarrow> \<not> cl_Connected client \<and> \<not> pc_Connect calls"

definition pairWithCode :: "'j client \<Rightarrow> pairing_calls \<Rightarrow> string \<Rightarrow> wa_error + PairingResult" where
  "pairWithCode client calls phone =
     (if connect_error client calls then Inl (WAFailure ''wa: connect for pair code'')
      else case pc_PairPhone calls phone of
        None \<Rightarrow> Inl (WAFailure ''wa: request pair code'')
      | Some code \<Rightarrow> Inr \<lparr>pr_Mode = PairingModeCode, pr_PairCode = code, pr_QR = []\<rparr>)"

text \<open>The select loop; the timer fires if nothing else ends it.\<close>

fun qr_wait :: "qr_item list \<Rightarrow> wa_error + PairingResult" where
  "qr_wait [] = Inl (WAFailure ''wa: timed out waiting for a qr code'')"
| "qr_wait (item # items) =
     (case item of
        QRCode code \<Rightarrow> Inr \<lparr>pr_Mode = PairingModeQR, pr_PairCode = [], pr_QR = code\<rparr>
      | QRError \<Rightarrow> Inl (WAFailure ''wa: qr pairing failed'')
      | QROther \<Rightarrow> qr_wait items
      | QRClosed \<Rightarrow> Inl (WAFailure ''wa: qr channel closed before a code arrived'')
      | QRTimeout \<Rightarrow> Inl (WAFailure ''wa: timed out waiting for a qr code'')
      | QRCancelled \<Rightarrow> Inl ErrContext)"

definition pairWithQR :: "'j client \<Rightarrow> pairing_calls \<Rightarrow> wa_error + PairingResult" where
  "pairWithQR client calls =
     (case pc_QRChannel calls of
        None \<Rightarrow> Inl (WAFailure ''wa: open qr channel'')
      | Some items \<Rightarrow>
          if connect_error client calls then Inl (WAFailure ''wa: connect for qr'') else qr_wait items)"

definition StartPairing ::
  "(nat \<Rightarrow> env) \<Rightarrow> 'j jid_lib \<Rightarrow> 'j container \<Rightarrow> 'j client option \<Rightarrow> pairing_calls \<Rightarrow> string \<Rightarrow> string \<Rightarrow> 'j manager \<Rightarrow>
   (wa_error + PairingResult) \<times> 'j manager" where
  "StartPairing E L C raced calls tenantID phone m =
     (case clientFor (E 0) L C raced tenantID m of
        (Inl e, m1) \<Rightarrow> (Inl e, m1)
      | (Inr client, m1) \<Rightarrow>
          if cl_LoggedIn client then (Inl (WAFailure ''wa: tenant is already paired; log out first''), m1)
          else case session_UpdateStatus (E 1) tenantID SessionPending [] (mg_db m1) of
            (e, d') \<Rightarrow>
              (let m2 = m1\<lparr>mg_db := d'\<rparr> in
               if e \<noteq> None \<and> e \<noteq> Some ErrNotFound then (Inl (WAStore (the e)), m2)
               else if phone \<noteq> [] then (pairWithCode client calls phone, m2)
               else (pairWithQR client calls, m2)))"

section \<open>Lemmas\<close>

lemma clientFor_moves [simp]: "manager_moves m (snd (clientFor E L C raced t m))"
  by (auto simp: clientFor_def manager_moves_def split: option.split sum.split store_error.split)

lemma clientFor_db: "mg_db (snd (clientFor E L C raced t m)) = mg_db m"
  by (auto simp: clientFor_def split: option.split sum.split store_error.split)

lemma restore_each_keeps: "mg_db (restore_each L C ds ss m) = mg_db m \<and> mg_pending (restore_each L C ds ss m) = mg_pending m \<and>
  mg_scope (restore_each L C ds ss m) = mg_scope m"
  by (induction ss arbitrary: m) (auto split: option.split)

lemma RestoreSessions_moves [simp]: "manager_moves m (snd (RestoreSessions E L C m))"
  by (auto simp: RestoreSessions_def manager_moves_def restore_each_keeps split: sum.split option.split)

lemma StartPairing_moves [simp]: "manager_moves m (snd (StartPairing E L C raced calls t phone m))"
proof -
  obtain r m1 where c: "clientFor (E 0) L C raced t m = (r, m1)" by fastforce
  have m1: "manager_moves m m1" using clientFor_moves [of m "E 0" L C raced t] c by simp
  have "manager_moves m1 (m1\<lparr>mg_db := snd (session_UpdateStatus (E 1) t SessionPending [] (mg_db m1))\<rparr>)"
    by (rule manager_moves_db) simp
  then show ?thesis
    using m1 manager_moves_trans [OF m1]
    by (cases r) (simp_all add: StartPairing_def c Let_def case_prod_beta)
qed

text \<open>The two ways to pair give one credential each.\<close>

lemma qr_wait_mode: "qr_wait items = Inr r \<Longrightarrow> pr_Mode r = PairingModeQR \<and> pr_PairCode r = []"
  by (induction items) (auto split: qr_item.splits)

lemma pairWithCode_mode: "pairWithCode c calls phone = Inr r \<Longrightarrow> pr_Mode r = PairingModeCode \<and> pr_QR r = []"
  by (auto simp: pairWithCode_def split: if_splits option.splits)

lemma pairWithQR_mode: "pairWithQR c calls = Inr r \<Longrightarrow> pr_Mode r = PairingModeQR \<and> pr_PairCode r = []"
  by (auto simp: pairWithQR_def split: if_splits option.splits dest: qr_wait_mode)

end
