(* ===== verification/Contacts.thy ===== *)
theory Contacts
  imports ManagerInv
begin

text \<open>
  \<open>internal/wa/contacts.go\<close> with \<open>mergeNamedChats\<close> and \<open>isPlaceholderName\<close> of
  \<open>internal/wa/groups.go\<close>. The map \<open>found\<close> is an association list with one entry per address; Go
  ranges over the address book in an order of its own, which is the order of the list here,
  and the result is sorted before anything depends on it. What the address book holds and
  what \<open>IsOnWhatsApp\<close> answers are arguments (a failed answer is the empty list, because the
  code goes on with what it has).
\<close>

section \<open>Definitions\<close>

definition maxContactResults :: int where "maxContactResults = 25"

record contact_info =
  ci_FullName :: string
  ci_FirstName :: string
  ci_PushName :: string
  ci_BusinessName :: string

record 'j on_whatsapp =
  ow_IsIn :: bool
  ow_JID :: 'j
  ow_VerifiedName :: string

type_synonym found = "(string \<times> Contact) list"

definition put :: "Contact \<Rightarrow> found \<Rightarrow> found" where
  "put c f = (ct_JID c, c) # filter (\<lambda>e. fst e \<noteq> ct_JID c) f"

definition newContact :: "string \<Rightarrow> string \<Rightarrow> Contact" where
  "newContact jid name = \<lparr>ct_JID = jid, ct_Name = name, ct_HasMessages = False\<rparr>"

definition firstName :: "string list \<Rightarrow> string \<Rightarrow> string" where
  "firstName names other = (case find (\<lambda>n. TrimSpace n \<noteq> []) names of None \<Rightarrow> other | Some n \<Rightarrow> n)"

definition contactName :: "'j jid_lib \<Rightarrow> contact_info \<Rightarrow> 'j \<Rightarrow> string" where
  "contactName L info jid =
     firstName [ci_FullName info, ci_BusinessName info, ci_PushName info, ci_FirstName info] (jUser L jid)"

definition isAllDigits :: "string \<Rightarrow> bool" where
  "isAllDigits s \<longleftrightarrow> s \<noteq> [] \<and> list_all is_digit s"

definition anyContains :: "unicode_lower \<Rightarrow> string list \<Rightarrow> string \<Rightarrow> bool" where
  "anyContains utl values needle = list_ex (\<lambda>v. v \<noteq> [] \<and> sublist needle (ToLower utl v)) values"

fun fromAddressBook ::
  "'j jid_lib \<Rightarrow> unicode_lower \<Rightarrow> string \<Rightarrow> ('j \<times> contact_info) list \<Rightarrow> found \<Rightarrow> found" where
  "fromAddressBook L utl needle [] f = f"
| "fromAddressBook L utl needle ((jid, info) # cs) f =
     fromAddressBook L utl needle cs
       (if \<not> anyContains utl [ci_FullName info, ci_FirstName info, ci_PushName info, ci_BusinessName info, jUser L jid] needle
        then f
        else put (newContact (jString L (ToNonAD L jid)) (contactName L info jid)) f)"

fun fromServer :: "'j jid_lib \<Rightarrow> string \<Rightarrow> 'j on_whatsapp list \<Rightarrow> found \<Rightarrow> found" where
  "fromServer L query [] f = f"
| "fromServer L query (r # rs) f =
     fromServer L query rs
       (if \<not> ow_IsIn r \<or> jIsEmpty L (ow_JID r) then f
        else if map_of f (jString L (ToNonAD L (ow_JID r))) \<noteq> None then f
        else put (newContact (jString L (ToNonAD L (ow_JID r)))
                   (if ow_VerifiedName r \<noteq> [] then ow_VerifiedName r else query)) f)"

fun fromStoredChats :: "'j jid_lib \<Rightarrow> string list \<Rightarrow> found \<Rightarrow> found" where
  "fromStoredChats L [] f = f"
| "fromStoredChats L (chatJID # cs) f =
     fromStoredChats L cs
       (if map_of f chatJID \<noteq> None then f
        else put (newContact chatJID (case ParseJID L chatJID of None \<Rightarrow> chatJID | Some jid \<Rightarrow> jUser L jid)) f)"

definition isPlaceholderName :: "'j jid_lib \<Rightarrow> Contact \<Rightarrow> bool" where
  "isPlaceholderName L contact \<longleftrightarrow>
     (if ct_Name contact = ct_JID contact then True
      else case ParseJID L (ct_JID contact) of None \<Rightarrow> False | Some jid \<Rightarrow> ct_Name contact = jUser L jid)"

fun mergeNamedChats :: "'j jid_lib \<Rightarrow> NamedChat list \<Rightarrow> found \<Rightarrow> found" where
  "mergeNamedChats L [] f = f"
| "mergeNamedChats L (chat # cs) f =
     mergeNamedChats L cs
       (case map_of f (n_ChatJID chat) of
          Some existing \<Rightarrow>
            if \<not> isPlaceholderName L existing then f
            else put (existing\<lparr>ct_JID := n_ChatJID chat, ct_Name := n_Name chat\<rparr>) f
        | None \<Rightarrow> put (newContact (n_ChatJID chat) (n_Name chat)) f)"

text \<open>Everything found before the result is sorted.\<close>

definition candidates ::
  "'j jid_lib \<Rightarrow> unicode_lower \<Rightarrow> ('j \<times> contact_info) list \<Rightarrow> (string \<Rightarrow> 'j on_whatsapp list) \<Rightarrow> string \<Rightarrow>
   string list \<Rightarrow> NamedChat list \<Rightarrow> found" where
  "candidates L utl contacts ask query storedChats namedChats =
     (let f1 = fromAddressBook L utl (ToLower utl query) contacts [];
          f2 = (if isAllDigits query then fromServer L query (ask (CHR ''+'' # query)) f1 else f1)
      in mergeNamedChats L namedChats (fromStoredChats L storedChats f2))"

text \<open>The look-up per candidate, in order; the first error ends it.\<close>

fun markStored ::
  "(nat \<Rightarrow> env) \<Rightarrow> nat \<Rightarrow> string \<Rightarrow> Contact list \<Rightarrow> db \<Rightarrow> (wa_error + Contact list) \<times> db" where
  "markStored E i tenantID [] d = (Inr [], d)"
| "markStored E i tenantID (c # cs) d =
     (case message_ListByChat (E i) tenantID (ct_JID c) 1 d of
        (Inl e, d1) \<Rightarrow> (Inl (WAStore e), d1)
      | (Inr stored, d1) \<Rightarrow>
          (case markStored E (Suc i) tenantID cs d1 of
             (Inl e, d2) \<Rightarrow> (Inl e, d2)
           | (Inr rest, d2) \<Rightarrow> (Inr (c\<lparr>ct_HasMessages := stored \<noteq> []\<rparr> # rest), d2)))"

definition FindContacts ::
  "(nat \<Rightarrow> env) \<Rightarrow> 'j jid_lib \<Rightarrow> unicode_lower \<Rightarrow> ('j \<times> contact_info) list option \<Rightarrow> (string \<Rightarrow> 'j on_whatsapp list) \<Rightarrow>
   string \<Rightarrow> string \<Rightarrow> 'j manager \<Rightarrow> (wa_error + Contact list) \<times> 'j manager" where
  "FindContacts E L utl book ask tenantID query0 m =
     (let query = TrimSpace query0 in
      if query = [] then (Inr [], m)
      else case mg_clients m tenantID of
        None \<Rightarrow> (Inl ErrNotPaired, m)
      | Some client \<Rightarrow>
          if \<not> cl_LoggedIn client then (Inl ErrNotPaired, m)
          else case book of
            None \<Rightarrow> (Inl (WAFailure ''wa: read contacts''), m)
          | Some contacts \<Rightarrow>
              (case message_SearchChats (E 0) tenantID query maxContactResults (mg_db m) of
                 (Inl e, d1) \<Rightarrow> (Inl (WAStore e), m\<lparr>mg_db := d1\<rparr>)
               | (Inr storedChats, d1) \<Rightarrow>
                   (case chat_Search (E 1) tenantID query maxContactResults d1 of
                      Inl e \<Rightarrow> (Inl (WAStore e), m\<lparr>mg_db := d1\<rparr>)
                    | Inr namedChats \<Rightarrow>
                        (let out = take (nat maxContactResults) (order_asc (\<lambda>c. (ct_Name c, ct_JID c))
                               (map snd (candidates L utl contacts ask query storedChats namedChats)))
                         in case markStored E 2 tenantID out d1 of
                              (r, d2) \<Rightarrow> (r, m\<lparr>mg_db := d2\<rparr>)))))"

section \<open>Lemmas\<close>

text \<open>One entry per address, filed under its own address.\<close>

definition found_ok :: "found \<Rightarrow> bool" where
  "found_ok f \<longleftrightarrow> distinct (map fst f) \<and> (\<forall>e\<in>set f. ct_JID (snd e) = fst e)"

lemma found_ok_Nil [simp]: "found_ok []"
  by (simp add: found_ok_def)

lemma found_ok_put: "found_ok f \<Longrightarrow> found_ok (put c f)"
  by (auto simp: found_ok_def put_def distinct_map_filter)

lemma found_ok_book: "found_ok f \<Longrightarrow> found_ok (fromAddressBook L utl needle cs f)"
  by (induction L utl needle cs f rule: fromAddressBook.induct) (auto simp: found_ok_put)

lemma found_ok_server: "found_ok f \<Longrightarrow> found_ok (fromServer L q rs f)"
  by (induction L q rs f rule: fromServer.induct) (auto simp: found_ok_put)

lemma found_ok_stored: "found_ok f \<Longrightarrow> found_ok (fromStoredChats L cs f)"
  by (induction L cs f rule: fromStoredChats.induct) (auto simp: found_ok_put split: if_splits)

lemma found_ok_merge: "found_ok f \<Longrightarrow> found_ok (mergeNamedChats L cs f)"
  by (induction L cs f rule: mergeNamedChats.induct) (auto simp: found_ok_put split: option.splits)

lemma candidates_ok: "found_ok (candidates L utl contacts ask query sc nc)"
  by (simp add: candidates_def Let_def found_ok_merge found_ok_stored found_ok_server found_ok_book)

lemma found_ok_jids:
  assumes "found_ok f"
  shows "distinct (map ct_JID (map snd f))"
proof -
  have "map ct_JID (map snd f) = map fst f" unfolding map_map by (rule map_cong) (use assms in \<open>simp_all add: found_ok_def\<close>)
  then show ?thesis using assms unfolding found_ok_def by argo
qed

lemma map_pair_eq:
  "map f xs = map f ys \<Longrightarrow> map g xs = map g ys \<Longrightarrow> map (\<lambda>c. (f c, g c)) xs = map (\<lambda>c. (f c, g c)) ys"
  unfolding list_eq_iff_nth_eq by auto

lemma markStored_jids: "markStored E i t cs d = (Inr out, d') \<Longrightarrow> map ct_JID out = map ct_JID cs \<and> map ct_Name out = map ct_Name cs"
  by (induction E i t cs d arbitrary: out d' rule: markStored.induct)
     (auto split: prod.splits sum.splits)

lemma markStored_evolves: "db_evolves d (snd (markStored E i t cs d))"
proof (induction E i t cs d rule: markStored.induct)
  case (2 E i t c cs d)
  obtain r d1 where l: "message_ListByChat (E i) t (ct_JID c) 1 d = (r, d1)" by fastforce
  then have d1: "db_evolves d d1"
    using db_evolves_aliases [of d "E i" "ct_JID c"] message_ListByChat_snd [of "E i" t "ct_JID c" 1 d] by simp
  show ?case
  proof (cases r)
    case (Inr stored)
    with 2 l have "db_evolves d1 (snd (markStored E (Suc i) t cs d1))" by simp
    with d1 have "db_evolves d (snd (markStored E (Suc i) t cs d1))" by (rule db_evolves_trans)
    then show ?thesis using l Inr by (auto split: prod.split sum.split)
  qed (use l d1 in simp)
qed simp

lemma message_SearchChats_evolves: "db_evolves d (snd (message_SearchChats E t q n d))"
  using db_evolves_lids [of d E]
  by (auto simp: message_SearchChats_def Let_def case_prod_beta)

lemma FindContacts_moves [simp]: "manager_moves m (snd (FindContacts E L utl book ask t q m))"
proof -
  obtain r d1 where s: "message_SearchChats (E 0) t (TrimSpace q) maxContactResults (mg_db m) = (r, d1)" by fastforce
  have d1: "db_evolves (mg_db m) d1"
    using message_SearchChats_evolves [of "mg_db m" "E 0" t "TrimSpace q" maxContactResults] s by simp
  have "db_evolves (mg_db m) (snd (markStored E 2 t out d1))" for out
    using db_evolves_trans [OF d1 markStored_evolves] .
  with d1 show ?thesis
    by (simp add: FindContacts_def Let_def s case_prod_beta manager_moves_def split: option.split sum.split)
qed

lemma FindContacts_result:
  assumes "FindContacts E L utl book ask t q m = (Inr out, m')"
  shows "distinct (map ct_JID out) \<and> length out \<le> 25 \<and> sorted (map (\<lambda>c. (ct_Name c, ct_JID c)) out)"
proof (cases "TrimSpace q = []")
  case True
  then show ?thesis using assms by (simp add: FindContacts_def)
next
  case False
  then obtain contacts sc nc d1 d2 where
    ms: "markStored E 2 t (take 25 (order_asc (\<lambda>c. (ct_Name c, ct_JID c))
      (map snd (candidates L utl contacts ask (TrimSpace q) sc nc)))) d1 = (Inr out, d2)"
    using assms
    by (auto simp: FindContacts_def Let_def maxContactResults_def
        split: option.splits if_splits sum.splits prod.splits)
  define f where "f = candidates L utl contacts ask (TrimSpace q) sc nc"
  have f: "found_ok f" unfolding f_def by (rule candidates_ok)
  note ms = ms [folded f_def]
  let ?c = "take 25 (order_asc (\<lambda>c. (ct_Name c, ct_JID c)) (map snd f))"
  note same = markStored_jids [OF ms]
  have "distinct (map ct_JID ?c)"
    by (intro distinct_take_map order_asc_distinct found_ok_jids f)
  moreover have "length out = length ?c" using same by (metis length_map)
  moreover have "map (\<lambda>c. (ct_Name c, ct_JID c)) out = map (\<lambda>c. (ct_Name c, ct_JID c)) ?c"
    using same by (intro map_pair_eq) simp_all
  moreover have "sorted (map (\<lambda>c. (ct_Name c, ct_JID c)) ?c)"
    unfolding take_map [symmetric] by (intro sorted_wrt_take sorted_order_asc)
  ultimately show ?thesis using same by simp
qed

end
