(* ===== verification/Sessions.thy ===== *)
theory Sessions
  imports Resolver Pairing Contacts
begin

text \<open>
  The interface \<open>SessionManager\<close> of \<open>internal/wa/session.go\<close> between the engine and the two
  surfaces that call it, over the state of the gateway. The locale \<open>session_manager\<close> is what
  the surfaces rely on: a call may move the database as the store allows and writes no key.
  \<open>manager_sessions\<close> is the engine behind that interface: it runs an operation of the manager
  on the gateway's database and puts both back.
\<close>

section \<open>The interface\<close>

record 'w SessionManager =
  sm_StartPairing :: "string \<Rightarrow> string \<Rightarrow> 'w gateway \<Rightarrow> (wa_error + PairingResult) \<times> 'w gateway"
  sm_Status :: "string \<Rightarrow> 'w gateway \<Rightarrow> (wa_error + SessionStatus) \<times> 'w gateway"
  sm_SendText :: "string \<Rightarrow> string \<Rightarrow> string \<Rightarrow> 'w gateway \<Rightarrow> (wa_error + SentMessage) \<times> 'w gateway"
  sm_FindContacts :: "string \<Rightarrow> string \<Rightarrow> 'w gateway \<Rightarrow> (wa_error + Contact list) \<times> 'w gateway"
  sm_SyncHistory :: "string \<Rightarrow> string \<Rightarrow> int \<Rightarrow> 'w gateway \<Rightarrow> (wa_error + SyncResult) \<times> 'w gateway"
  sm_FetchMedia :: "string \<Rightarrow> string \<Rightarrow> 'w gateway \<Rightarrow> (MediaRef \<times> wa_error option) \<times> 'w gateway"

definition gw_evolves :: "'w gateway \<Rightarrow> 'w gateway \<Rightarrow> bool" where
  "gw_evolves g g' \<longleftrightarrow> db_evolves (gw_db g) (gw_db g')"

lemma gw_evolves_refl [simp]: "gw_evolves g g"
  by (simp add: gw_evolves_def)

lemma gw_evolves_trans: "gw_evolves a b \<Longrightarrow> gw_evolves b c \<Longrightarrow> gw_evolves a c"
  unfolding gw_evolves_def by (rule db_evolves_trans)

lemma gw_evolves_live: "gw_evolves g g' \<Longrightarrow> live_principal g' = live_principal g"
  by (rule ext) (simp add: gw_evolves_def live_principal_def db_evolves_live)

locale session_manager =
  fixes sm :: "'w SessionManager"
  assumes pairing_evolves: "gw_evolves g (snd (sm_StartPairing sm t phone g))"
    and status_evolves: "gw_evolves g (snd (sm_Status sm t g))"
    and send_evolves: "gw_evolves g (snd (sm_SendText sm t to body g))"
    and contacts_evolves: "gw_evolves g (snd (sm_FindContacts sm t q g))"
    and sync_evolves: "gw_evolves g (snd (sm_SyncHistory sm t c n g))"
    and media_evolves: "gw_evolves g (snd (sm_FetchMedia sm t i g))"
begin

text \<open>No call of the engine changes whom a key stands for: pairing and re-pairing above all.\<close>

lemma credentials_survive:
  "live_principal (snd (sm_StartPairing sm t phone g)) = live_principal g"
  "live_principal (snd (sm_Status sm t g)) = live_principal g"
  "live_principal (snd (sm_SendText sm t to body g)) = live_principal g"
  "live_principal (snd (sm_FindContacts sm t q g)) = live_principal g"
  "live_principal (snd (sm_SyncHistory sm t c n g)) = live_principal g"
  "live_principal (snd (sm_FetchMedia sm t i g)) = live_principal g"
  by (rule gw_evolves_live, rule pairing_evolves status_evolves send_evolves contacts_evolves
      sync_evolves media_evolves)+

end

section \<open>The engine behind it\<close>

text \<open>
  The engine's part of the gateway's state: the manager without its database, the media
  files and the requests sent to the media servers.
\<close>

record 'j engine =
  en_manager :: "'j manager"
  en_files :: "string \<Rightarrow> fnode option"
  en_net :: "dl_request list"

text \<open>What comes from outside during one request.\<close>

record 'j outside =
  ou_env :: "nat \<Rightarrow> env"
  ou_now :: gotime
  ou_container :: "'j container"
  ou_raced :: "'j client option"
  ou_pairing :: pairing_calls
  ou_send :: "'j \<Rightarrow> string \<Rightarrow> send_response option"
  ou_book :: "('j \<times> contact_info) list option"
  ou_ask :: "string \<Rightarrow> 'j on_whatsapp list"
  ou_peer :: "'j history_request \<Rightarrow> bool"
  ou_events :: "((nat \<Rightarrow> nat \<Rightarrow> env) \<times> string \<times> 'j event) list"
  ou_wake :: wake
  ou_download :: "'j client \<Rightarrow> downloader"
  ou_write :: write_outcome

record settings =
  se_utl :: unicode_lower
  se_errtext :: "fetch_cause \<Rightarrow> string"
  se_mediaDir :: string
  se_mediaMaxBytes :: int
  se_mediaAllowed :: "string list"

definition run_manager :: "('j manager \<Rightarrow> 'r \<times> 'j manager) \<Rightarrow> 'j engine gateway \<Rightarrow> 'r \<times> 'j engine gateway" where
  "run_manager f g =
     (case f ((en_manager (gw_wa g))\<lparr>mg_db := gw_db g\<rparr>) of
        (r, m') \<Rightarrow> (r, g\<lparr>gw_db := mg_db m', gw_wa := (gw_wa g)\<lparr>en_manager := m'\<rparr>\<rparr>))"

text \<open>The events that arrive while \<open>SyncHistory\<close> waits; one whose handler blocks stops the rest.\<close>

fun handle_events ::
  "'j jid_lib \<Rightarrow> media_classes \<Rightarrow> ((nat \<Rightarrow> nat \<Rightarrow> env) \<times> string \<times> 'j event) list \<Rightarrow> 'j manager \<Rightarrow> 'j manager" where
  "handle_events L gmt [] m = m"
| "handle_events L gmt ((E, t, evt) # es) m =
     (case handleEvent E L gmt t evt m of None \<Rightarrow> m | Some (m', _) \<Rightarrow> handle_events L gmt es m')"

text \<open>
  \<open>SyncHistory\<close> from the call to the return. If the wake-up is said to be a reply and none has
  arrived, the call goes on waiting until the timer ends it.
\<close>

definition SyncHistory ::
  "'j outside \<Rightarrow> 'j jid_lib \<Rightarrow> media_classes \<Rightarrow> string \<Rightarrow> string \<Rightarrow> int \<Rightarrow> 'j manager \<Rightarrow>
   (wa_error + SyncResult) \<times> 'j manager" where
  "SyncHistory Ou L gmt tenantID chatJID count m =
     (case SyncHistory_start (ou_env Ou 0) L (ou_peer Ou) tenantID chatJID count m of
        (Inl e, m1) \<Rightarrow> (Inl e, m1)
      | (Inr wt, m1) \<Rightarrow>
          (let m2 = handle_events L gmt (ou_events Ou) m1 in
           case SyncHistory_finish (ou_wake Ou) wt m2 of
             Some (r, m3) \<Rightarrow> (r, m3)
           | None \<Rightarrow> (Inl ErrSyncTimeout,
               m2\<lparr>mg_pending := release (wt_Key wt) (wt_Channel wt) (mg_pending m2)\<rparr>)))"

definition manager_fetcher :: "'j outside \<Rightarrow> settings \<Rightarrow> 'j manager \<Rightarrow> db mediaFetcher" where
  "manager_fetcher Ou S m =
     \<lparr>mf_messages = store_messages (ou_env Ou 0), mf_dir = se_mediaDir S, mf_maxBytes = se_mediaMaxBytes S,
      mf_allowed = se_mediaAllowed S, mf_downloaderFor = (\<lambda>t. manager_downloaderFor (ou_download Ou) t m)\<rparr>"

definition FetchMedia ::
  "'j outside \<Rightarrow> settings \<Rightarrow> string \<Rightarrow> string \<Rightarrow> 'j engine gateway \<Rightarrow> (MediaRef \<times> wa_error option) \<times> 'j engine gateway" where
  "FetchMedia Ou S tenantID messageID g =
     (case fetch (manager_fetcher Ou S (en_manager (gw_wa g))) (se_utl S) (se_errtext S) (ou_now Ou) (ou_write Ou)
         tenantID messageID \<lparr>mw_store = gw_db g, mw_files = en_files (gw_wa g), mw_net = en_net (gw_wa g)\<rparr> of
        (r, W) \<Rightarrow> (r, g\<lparr>gw_db := mw_store W, gw_wa := (gw_wa g)\<lparr>en_files := mw_files W, en_net := mw_net W\<rparr>\<rparr>))"

definition manager_sessions ::
  "'j outside \<Rightarrow> settings \<Rightarrow> 'j jid_lib \<Rightarrow> media_classes \<Rightarrow> 'j engine SessionManager" where
  "manager_sessions Ou S L gmt =
     \<lparr>sm_StartPairing = (\<lambda>t phone. run_manager (StartPairing (ou_env Ou) L (ou_container Ou) (ou_raced Ou) (ou_pairing Ou) t phone)),
      sm_Status = (\<lambda>t. run_manager (\<lambda>m. (manager_Status (ou_env Ou 0) t m, m))),
      sm_SendText = (\<lambda>t to body. run_manager (SendText (ou_now Ou) L (ou_send Ou) t to body)),
      sm_FindContacts = (\<lambda>t q. run_manager (FindContacts (ou_env Ou) L (se_utl S) (ou_book Ou) (ou_ask Ou) t q)),
      sm_SyncHistory = (\<lambda>t c n. run_manager (SyncHistory Ou L gmt t c n)),
      sm_FetchMedia = FetchMedia Ou S\<rparr>"

section \<open>The engine keeps the contract\<close>

lemma run_manager_evolves:
  assumes "\<And>m. db_evolves (mg_db m) (mg_db (snd (f m)))"
  shows "gw_evolves g (snd (run_manager f g))"
  using assms [of "(en_manager (gw_wa g))\<lparr>mg_db := gw_db g\<rparr>"]
  by (simp add: run_manager_def gw_evolves_def case_prod_beta)

lemma handle_events_ok: "pending_ok (mg_pending m) \<Longrightarrow> pending_ok (mg_pending (handle_events L gmt es m))"
proof (induction es arbitrary: m)
  case (Cons e es)
  obtain E t evt where e: "e = (E, t, evt)" by (cases e)
  obtain m' b where m': "handleEvent E L gmt t evt m = Some (m', b)" "manager_moves m m'"
    using handleEvent_total [OF Cons.prems, of E L gmt t evt] by blast
  then have "pending_ok (mg_pending m')" using Cons.prems by (simp add: manager_moves_def)
  from Cons.IH [OF this] show ?case by (simp add: e m')
qed simp

text \<open>
  What the engine does for one tenant. \<open>Q\<close> is any relation between databases that admits the
  repositories' operations on that tenant's rows; then everything the engine does for the tenant keeps
  it, and the clients stay as they are.
\<close>

locale tenant_rows =
  fixes Q :: "db \<Rightarrow> db \<Rightarrow> bool"
    and t :: string
  assumes same: "Q d d"
    and onwards: "Q d d1 \<Longrightarrow> Q d1 d2 \<Longrightarrow> Q d d2"
    and appended: "m_TenantID r = t \<Longrightarrow> Q d (snd (message_Append E r d))"
    and batched: "\<forall>r\<in>set rs. m_TenantID r = t \<Longrightarrow> Q d (snd (message_AppendBatch E rs d))"
    and status_set: "Q d (snd (session_UpdateStatus E t st j d))"
    and renamed: "Q d (snd (chat_Upsert E t c d))"
    and names_set: "Q d (snd (chat_UpsertBatch E t cs d))"
    and media_set: "Q d (snd (message_UpdateMedia E t i upd d))"
    and looked: "Q d (snd (lidMapReady E d))"
begin

lemma reads:
  "Q d (snd (chatAliases E a d))" "Q d (snd (message_OldestByChat E t' a d))" "Q d (snd (message_ListByChat E t' a n d))"
  "Q d (snd (message_SearchChats E t' q n d))"
proof -
  show aliases: "Q d (snd (chatAliases E a d))" for E a using chatAliases_ready [of E a d] looked same by metis
  show "Q d (snd (message_OldestByChat E t' a d))" "Q d (snd (message_ListByChat E t' a n d))"
    by (simp_all add: message_OldestByChat_snd message_ListByChat_snd aliases)
  show "Q d (snd (message_SearchChats E t' q n d))"
    using looked [of d E] same by (auto simp: message_SearchChats_def Let_def case_prod_beta)
qed

definition kept :: "'j manager \<Rightarrow> 'j manager \<Rightarrow> bool" where
  "kept m m' \<longleftrightarrow> Q (mg_db m) (mg_db m') \<and> mg_clients m' = mg_clients m"

lemma kept_refl: "kept m m"
  by (simp add: kept_def same)

lemma kept_trans: "kept m m1 \<Longrightarrow> kept m1 m2 \<Longrightarrow> kept m m2"
  by (auto simp: kept_def intro: onwards)

lemma deliverOnDemand_kept: "deliverOnDemand E L t chat i n m = Some m' \<Longrightarrow> kept m m'"
  using reads(2) [of "mg_db m" E t "jString L chat"] by (auto simp: deliverOnDemand_def Let_def case_prod_beta kept_def)

lemma persistConversation_kept:
  assumes p: "persistConversation E L gmt t od conv m = Some m'"
  shows "kept m m'"
  using p
proof (cases rule: persistConversation_cases)
  case (stored own chat dec ok rs rs' m2 r d')
  have "m_TenantID x = t" if "x \<in> set rs" for x using historyRecords_row [OF that [unfolded stored(1)]] by simp
  then have "m_TenantID ` set rs \<subseteq> {t}" by auto
  moreover have "m_TenantID ` set rs' = m_TenantID ` set rs"
    using canonicaliseSenders_moves [OF stored(2)] by (metis list.set_map)
  ultimately have "\<forall>r\<in>set rs'. m_TenantID r = t" by blast
  then have "Q (mg_db m2) d'" using batched [of rs' "mg_db m2" "E 1"] by (simp only: stored(3) snd_conv)
  then have k: "kept m (m2\<lparr>mg_db := d'\<rparr>)"
    using canonicaliseSenders_moves [OF stored(2)] by (simp add: kept_def)
  from stored(4) show ?thesis
    using k by (elim disjE exE) (simp, erule kept_trans [OF k deliverOnDemand_kept])
qed (simp_all add: kept_def same)

lemma persistConversations_kept:
  "persistConversations E i L gmt t od cs m = Some m' \<Longrightarrow> kept m m'"
  by (induction cs arbitrary: i m)
     (auto simp: kept_refl split: option.splits dest!: persistConversation_kept intro: kept_trans)

lemma liveRecord_tenant: "m_TenantID (liveRecord E L gmt t e chat sender) = t"
  by (simp add: liveRecord_def Let_def applyMediaReference_def)

lemma persistMessage_kept: "kept m (persistMessage E L gmt t e m)"
  using appended [OF liveRecord_tenant] by (simp add: persistMessage_def Let_def case_prod_beta kept_def)

lemma handleEvent_kept: "handleEvent E L gmt t evt m = Some (m', b) \<Longrightarrow> kept m m'"
  using persistMessage_kept [of m "E 0" L gmt] status_set renamed same
  by (auto simp: handleEvent_def persistHistorySync_def updateStatus_def rememberGroupName_def Let_def kept_def
      dest: persistConversations_kept [unfolded kept_def] split: event.splits option.splits)

lemma syncGroupNames_kept: "kept m (snd (syncGroupNames E L t gs m))"
  using names_set same by (simp add: syncGroupNames_def Let_def case_prod_beta kept_def split: option.split)

lemma handle_events_kept:
  assumes "\<And>E t' evt m m' b. (E, t', evt) \<in> set es \<Longrightarrow> handleEvent E L gmt t' evt m = Some (m', b) \<Longrightarrow> kept m m'"
  shows "kept m (handle_events L gmt es m)"
  using assms
proof (induction es arbitrary: m)
  case (Cons e es)
  obtain E t' evt where e: "e = (E, t', evt)" by (cases e)
  have ev: "kept m m'" if "handleEvent E L gmt t' evt m = Some (m', b)" for m' b using Cons.prems [of E t' evt m m' b] that e by simp
  have "kept m' (handle_events L gmt es m')" for m' by (rule Cons.IH, rule Cons.prems, auto)
  then show ?case by (auto simp: e kept_refl split: option.split intro: kept_trans [OF ev])
qed (simp add: kept_refl)

lemma SyncHistory_start_kept: "kept m (snd (SyncHistory_start E L sent t c n m))"
  using reads(2) same
  by (simp add: SyncHistory_start_def Let_def case_prod_beta kept_def split: option.split sum.split store_error.split)

lemma SyncHistory_kept:
  assumes events: "\<And>m. kept m (handle_events L gmt (ou_events Ou) m)"
  shows "kept m (snd (SyncHistory Ou L gmt t c n m))"
proof -
  obtain r m1 where st: "SyncHistory_start (ou_env Ou 0) L (ou_peer Ou) t c n m = (r, m1)" by fastforce
  have m1: "kept m m1" using SyncHistory_start_kept [of m "ou_env Ou 0" L "ou_peer Ou" c n] st by simp
  have m2: "kept m (handle_events L gmt (ou_events Ou) m1)" using kept_trans [OF m1 events] .
  have "kept m m3"
    if "SyncHistory_finish (ou_wake Ou) wt (handle_events L gmt (ou_events Ou) m1) = Some (x, m3)" for wt x m3
    using that m2 by (auto simp: SyncHistory_finish_def kept_def split: wake.splits)
  with m1 m2 show ?thesis
    by (simp add: SyncHistory_def st Let_def kept_def split: sum.split option.split)
qed

lemma SendText_kept: "kept m (snd (SendText now L reply t to body m))"
  by (auto simp: SendText_def Let_def kept_def same split: option.split sum.split)

lemma markStored_kept: "Q d (snd (markStored E i t' cs d))"
proof (induction E i t' cs d rule: markStored.induct)
  case (2 E i t' c cs d)
  obtain r d1 where l: "message_ListByChat (E i) t' (ct_JID c) 1 d = (r, d1)" by fastforce
  have d1: "Q d d1" using reads(3) [of d "E i" t' "ct_JID c" 1] l by simp
  show ?case
  proof (cases r)
    case (Inr stored)
    with 2 l have "Q d (snd (markStored E (Suc i) t' cs d1))" using onwards [OF d1] by simp
    then show ?thesis using l Inr by (auto split: prod.split sum.split)
  qed (use l d1 in simp)
qed (simp add: same)

lemma FindContacts_kept: "kept m (snd (FindContacts E L utl book ask t q m))"
proof -
  obtain r d1 where s: "message_SearchChats (E 0) t (TrimSpace q) maxContactResults (mg_db m) = (r, d1)" by fastforce
  have d1: "Q (mg_db m) d1" using reads(4) [of "mg_db m" "E 0" t "TrimSpace q" maxContactResults] s by simp
  have "Q (mg_db m) (snd (markStored E 2 t out d1))" for out using onwards [OF d1 markStored_kept] .
  with d1 show ?thesis
    by (simp add: FindContacts_def Let_def s case_prod_beta kept_def same split: option.split sum.split)
qed

lemma recordFailure_kept:
  "mf_messages F = store_messages E \<Longrightarrow> Q d (snd (recordFailure F errtext now t i cause d))"
  using media_set by (simp add: recordFailure_def Let_def case_prod_beta store_messages_def)

lemma fetch_kept:
  assumes F: "mf_messages F = store_messages E"
  shows "Q (mw_store W) (mw_store (snd (fetch F utl errtext now out t i W)))"
proof (cases "\<exists>m path dl. admitted F utl t i W m path dl")
  case True
  then obtain m path dl where a: "admitted F utl t i W m path dl" by blast
  have upd: "Q d s'" if "if_UpdateMedia (mf_messages F) t i' u d = (e, s')" for d i' u e s'
    using that media_set [of d E i' u] by (simp add: F store_messages_def)
  have rec: "Q d s'" if "recordFailure F errtext now t i' cause d = (e, s')" for d i' cause e s'
    using recordFailure_kept [OF F, of d errtext now i' cause] that by simp
  obtain r W' where d: "download F utl errtext now out dl path t (mediaRefOf m) m W = (r, W')" by fastforce
  then have "Q (mw_store W) (mw_store W')"
    by (auto simp: download_def Let_def upd rec same split: sum.splits option.splits prod.splits bool.splits if_splits)
  then show ?thesis unfolding fetch_admitted [OF a] d by simp
qed (simp add: fetch_refused same)

end

text \<open>The moves of \<open>db_evolves\<close> are such a relation, for every tenant.\<close>

interpretation evolving: tenant_rows db_evolves t for t
  by unfold_locales (simp, erule (1) db_evolves_trans, simp_all)

lemma SyncHistory_evolves: "db_evolves (mg_db m) (mg_db (snd (SyncHistory Ou L gmt t c n m)))"
proof -
  have "evolving.kept m (snd (SyncHistory Ou L gmt t c n m))"
    by (rule evolving.SyncHistory_kept, rule evolving.handle_events_kept, erule evolving.handleEvent_kept)
  then show ?thesis by (simp add: evolving.kept_def)
qed

lemma moves_db: "(\<And>m. manager_moves m (snd (f m))) \<Longrightarrow> db_evolves (mg_db m) (mg_db (snd (f m)))"
  by (simp add: manager_moves_def)

interpretation ms: session_manager "manager_sessions Ou S L gmt" for Ou S L gmt
proof
  fix g :: "'a engine gateway" and t phone to body q c i :: string and n :: int
  show "gw_evolves g (snd (sm_StartPairing (manager_sessions Ou S L gmt) t phone g))"
    unfolding manager_sessions_def SessionManager.simps by (intro run_manager_evolves moves_db StartPairing_moves)
  show "gw_evolves g (snd (sm_Status (manager_sessions Ou S L gmt) t g))"
    unfolding manager_sessions_def SessionManager.simps by (intro run_manager_evolves) simp
  show "gw_evolves g (snd (sm_SendText (manager_sessions Ou S L gmt) t to body g))"
    unfolding manager_sessions_def SessionManager.simps by (intro run_manager_evolves moves_db SendText_moves)
  show "gw_evolves g (snd (sm_FindContacts (manager_sessions Ou S L gmt) t q g))"
    unfolding manager_sessions_def SessionManager.simps by (intro run_manager_evolves moves_db FindContacts_moves)
  show "gw_evolves g (snd (sm_SyncHistory (manager_sessions Ou S L gmt) t c n g))"
    unfolding manager_sessions_def SessionManager.simps by (intro run_manager_evolves SyncHistory_evolves)
  show "gw_evolves g (snd (sm_FetchMedia (manager_sessions Ou S L gmt) t i g))"
    using evolving.fetch_kept [of "manager_fetcher Ou S (en_manager (gw_wa g))" "ou_env Ou 0"
        "\<lparr>mw_store = gw_db g, mw_files = en_files (gw_wa g), mw_net = en_net (gw_wa g)\<rparr>"]
    by (simp add: manager_sessions_def FetchMedia_def gw_evolves_def manager_fetcher_def case_prod_beta)
qed

end
