(* ===== verification/HttpJson.thy ===== *)
theory HttpJson
  imports WaSession Middleware
begin

text \<open>
  \<open>internal/httpapi/json.go\<close>, \<open>internal/httpapi/origin.go\<close>, the router-facing part of
  \<open>internal/httpapi/server.go\<close> and \<open>writeMediaError\<close> of \<open>internal/httpapi/media_handlers.go\<close>;
  with \<open>strconv.Atoi\<close> and the way \<open>encoding/json\<close> fills a struct from an object: a member
  belongs to the field whose name it equals under JSON's folding, \<open>null\<close> leaves a field empty,
  a value of another type makes the decoding fail, and of several members the last one wins.
\<close>

section \<open>Numbers\<close>

definition ascii_digit :: "char \<Rightarrow> bool" where
  "ascii_digit c \<longleftrightarrow> CHR ''0'' \<le> c \<and> c \<le> CHR ''9''"

definition digits_value :: "string \<Rightarrow> int" where
  "digits_value s = foldl (\<lambda>n c. n * 10 + (of_char c - 48)) 0 s"

text \<open>\<open>strconv.Atoi\<close> and \<open>strconv.ParseInt(s, 10, 64)\<close>: an optional sign, digits, and the range of \<open>int64\<close>.\<close>

definition Atoi :: "string \<Rightarrow> int option" where
  "Atoi s =
     (let neg = (s \<noteq> [] \<and> hd s = CHR ''-'');
          ds = (if s \<noteq> [] \<and> (hd s = CHR ''-'' \<or> hd s = CHR ''+'') then tl s else s);
          n = (if neg then - digits_value ds else digits_value ds)
      in if ds = [] \<or> \<not> list_all ascii_digit ds then None
         else if n < - (2 ^ 63) \<or> n \<ge> 2 ^ 63 then None
         else Some n)"

text \<open>\<open>strconv.Itoa\<close> and \<open>strconv.FormatInt(n, 10)\<close>.\<close>

fun decimal :: "nat \<Rightarrow> string" where
  "decimal n =
     (if n < 10 then [char_of (48 + n)] else decimal (n div 10) @ [char_of (48 + n mod 10)])"

declare decimal.simps [simp del]

definition Itoa :: "int \<Rightarrow> string" where
  "Itoa n = (if n < 0 then CHR ''-'' # decimal (nat (- n)) else decimal (nat n))"

lemma digit_char:
  assumes "k < 10"
  shows "ascii_digit (char_of (48 + k))" "(of_char (char_of (48 + k)) :: int) = 48 + int k"
proof -
  have n: "of_char (char_of (48 + k) :: char) = (48 + k :: nat)" using assms by simp
  have "(of_char (char_of (48 + k)) :: int) = int (of_char (char_of (48 + k) :: char))"
    by (simp only: of_nat_of_char)
  also have "\<dots> = 48 + int k" by (simp only: n)
  finally show "(of_char (char_of (48 + k)) :: int) = 48 + int k" .
  from n assms show "ascii_digit (char_of (48 + k))"
    by (simp add: ascii_digit_def less_eq_char_def)
qed

lemma digits_value_snoc: "digits_value (s @ [c]) = digits_value s * 10 + (of_char c - 48)"
  by (simp add: digits_value_def)

lemma decimal_digits: "decimal n \<noteq> [] \<and> list_all ascii_digit (decimal n) \<and> digits_value (decimal n) = int n"
proof (induction n rule: decimal.induct)
  case (1 n)
  show ?case
  proof (cases "n < 10")
    case True
    then show ?thesis
      using digit_char [of n] by (subst (1 2 3) decimal.simps) (simp add: digits_value_def)
  next
    case False
    have m: "n mod 10 < 10" by simp
    have "digits_value (decimal n) = int (n div 10) * 10 + int (n mod 10)"
      using False 1 digit_char(2) [OF m] by (subst decimal.simps) (simp add: digits_value_snoc)
    also have "\<dots> = int n" by (simp add: zdiv_int zmod_int)
    finally have "digits_value (decimal n) = int n" .
    moreover have "decimal n \<noteq> [] \<and> list_all ascii_digit (decimal n)"
      using False 1 digit_char(1) [OF m] by (subst (1 2) decimal.simps) simp
    ultimately show ?thesis by blast
  qed
qed

lemma ascii_digit_not_sign: "ascii_digit c \<Longrightarrow> c \<noteq> CHR ''-'' \<and> c \<noteq> CHR ''+''"
  by (auto simp: ascii_digit_def less_eq_char_def)

lemma Atoi_decimal: "int n < 2 ^ 63 \<Longrightarrow> Atoi (decimal n) = Some (int n)"
proof -
  assume n: "int n < 2 ^ 63"
  obtain c s where cs: "decimal n = c # s" using decimal_digits [of n] by (cases "decimal n") auto
  have "ascii_digit c" using decimal_digits [of n] by (simp add: cs)
  from ascii_digit_not_sign [OF this] decimal_digits [of n] n show ?thesis
    by (auto simp: Atoi_def cs Let_def)
qed

definition query_get :: "request \<Rightarrow> string \<Rightarrow> string" where
  "query_get r k = (case map_of (r_Query r) k of None \<Rightarrow> [] | Some v \<Rightarrow> v)"

definition path_value :: "request \<Rightarrow> string \<Rightarrow> string" where
  "path_value r k = (case map_of (r_PathValues r) k of None \<Rightarrow> [] | Some v \<Rightarrow> v)"

definition queryLimit :: "request \<Rightarrow> int" where
  "queryLimit r =
     (let raw = query_get r ''limit'' in
      if raw = [] then 0 else case Atoi raw of None \<Rightarrow> 0 | Some limit \<Rightarrow> limit)"

section \<open>Bodies\<close>

text \<open>JSON's folding: letter case, the long s and the Kelvin sign.\<close>

fun fold_key :: "string \<Rightarrow> string" where
  "fold_key (a # b # c # s) =
     (if a = CHR 0xC5 \<and> b = CHR 0xBF then CHR ''s'' # fold_key (c # s)
      else if a = CHR 0xE2 \<and> b = CHR 0x84 \<and> c = CHR 0xAA then CHR ''k'' # fold_key s
      else lower_byte a # fold_key (b # c # s))"
| "fold_key [a, b] = (if a = CHR 0xC5 \<and> b = CHR 0xBF then ''s'' else [lower_byte a, lower_byte b])"
| "fold_key [a] = [lower_byte a]"
| "fold_key [] = []"

definition field_values :: "string \<Rightarrow> (string \<times> json_value) list \<Rightarrow> json_value list" where
  "field_values name fs = map snd (filter (\<lambda>f. fold_key (fst f) = name) fs)"

fun string_field :: "json_value list \<Rightarrow> string \<Rightarrow> string option" where
  "string_field [] v = Some v"
| "string_field (JNull # vs) v = string_field vs v"
| "string_field (JString s # vs) v = string_field vs s"
| "string_field (_ # vs) v = None"

fun strings_field :: "json_value list \<Rightarrow> string list \<Rightarrow> string list option" where
  "strings_field [] v = Some v"
| "strings_field (JNull # vs) v = strings_field vs []"
| "strings_field (JStrings s # vs) v = strings_field vs s"
| "strings_field (_ # vs) v = None"

fun int_field :: "json_value list \<Rightarrow> int \<Rightarrow> int option" where
  "int_field [] v = Some v"
| "int_field (JNull # vs) v = int_field vs v"
| "int_field (JInt n # vs) v = int_field vs n"
| "int_field (_ # vs) v = None"

datatype decode_error = errEmptyBody | BadJSON

text \<open>\<open>decodeJSON\<close> into a struct, whose zero value is \<open>zero\<close> and whose members \<open>dec\<close> reads.\<close>

definition decodeJSON :: "'r \<Rightarrow> ((string \<times> json_value) list \<Rightarrow> 'r option) \<Rightarrow> request \<Rightarrow> decode_error + 'r" where
  "decodeJSON zero dec r =
     (case r_Body r of
        EmptyBody \<Rightarrow> Inl errEmptyBody
      | BadBody \<Rightarrow> Inl BadJSON
      | JObject fs \<Rightarrow> (case dec fs of None \<Rightarrow> Inl BadJSON | Some v \<Rightarrow> Inr v))"

text \<open>A body that may be absent: \<open>err != nil && !errors.Is(err, errEmptyBody)\<close>.\<close>

definition optionalJSON :: "'r \<Rightarrow> ((string \<times> json_value) list \<Rightarrow> 'r option) \<Rightarrow> request \<Rightarrow> 'r option" where
  "optionalJSON zero dec r =
     (case decodeJSON zero dec r of
        Inl errEmptyBody \<Rightarrow> Some zero
      | Inl BadJSON \<Rightarrow> None
      | Inr v \<Rightarrow> Some v)"

definition writeJSON :: "nat \<Rightarrow> 'p \<Rightarrow> 'p response" where
  "writeJSON st payload =
     \<lparr>hdr = [(''Content-Type'', ''application/json'')], status = st, rbody = Payload payload\<rparr>"

lemma status_writeJSON [simp]: "status (writeJSON st p) = st" "rbody (writeJSON st p) = Payload p"
  by (simp_all add: writeJSON_def)

section \<open>Engine failures\<close>

definition writeWAError :: "wa_error \<Rightarrow> 'p response option" where
  "writeWAError e =
     (case e of
        ErrNotPaired \<Rightarrow> Some (Write [] 409 CodeConflict (Msg ''the tenant has no paired WhatsApp session''))
      | ErrUnknownTenant \<Rightarrow> Some (NotFound ''session not found for this tenant'')
      | WAStore ErrNotFound \<Rightarrow> Some (NotFound ''session not found for this tenant'')
      | ErrInvalidJID \<Rightarrow> Some (InvalidRequest (Msg ''the destination is not a valid WhatsApp JID''))
      | ErrNoAnchorMessage \<Rightarrow> Some (Write [] 409 CodeConflict
          (Msg ''this chat has no stored message to anchor a history request; it must appear in a pushed history sync or receive a message first''))
      | ErrSyncInProgress \<Rightarrow> Some (Write [] 409 CodeConflict (Msg ''a history sync for this chat is already running''))
      | ErrSyncTimeout \<Rightarrow> Some (Write [] 504 CodeUnavailable
          (Msg ''the phone did not answer the history request in time; it may still arrive, so try reading the chat again shortly''))
      | _ \<Rightarrow> None)"

definition writeMediaError :: "wa_error \<Rightarrow> 'p response option" where
  "writeMediaError e =
     (case e of
        ErrMediaUnavailable \<Rightarrow> Some (Write [] 410 CodeGone
          (Msg ''WhatsApp no longer has this media; it has expired and cannot be downloaded again''))
      | ErrMediaTooLarge \<Rightarrow> Some (Write [] 413 CodeTooLarge
          (Msg ''this attachment is larger than the gateway is configured to download''))
      | ErrMediaTypeNotAllowed \<Rightarrow> Some (Write [] 415 CodeUnsupportedType
          (Msg ''the gateway does not download this media type''))
      | ErrNoMedia \<Rightarrow> Some (NotFound ''this message carries no downloadable media'')
      | ErrUnknownMessage \<Rightarrow> Some (NotFound ''no such message for this tenant'')
      | WAStore ErrNotFound \<Rightarrow> Some (NotFound ''no such message for this tenant'')
      | ErrUnsafeMediaPath \<Rightarrow> Some (InvalidRequest (Msg ''the message id cannot address a stored file''))
      | _ \<Rightarrow> writeWAError e)"

lemma writeWAError_status: "writeWAError e = Some resp \<Longrightarrow> status resp \<in> {400, 404, 409, 504}"
  by (auto simp: writeWAError_def split: wa_error.splits store_error.splits)

lemma writeMediaError_status: "writeMediaError e = Some resp \<Longrightarrow> status resp \<in> {400, 404, 409, 410, 413, 415, 504}"
  using writeWAError_status [of e]
  by (auto simp: writeMediaError_def split: wa_error.splits store_error.splits)

section \<open>Origins\<close>

definition allowSet :: "unicode_lower \<Rightarrow> string list \<Rightarrow> string list" where
  "allowSet utl allowed = filter (\<lambda>o'. o' \<noteq> []) (map (\<lambda>o'. ToLower utl (TrimSpace o')) allowed)"

definition RequireAllowedOrigin :: "unicode_lower \<Rightarrow> string list \<Rightarrow> ('st, 'p) handler \<Rightarrow> ('st, 'p) handler" where
  "RequireAllowedOrigin utl allowed next_h r st =
     (let origin = TrimSpace (r_Origin r) in
      if origin = [] then next_h r st
      else if ToLower utl origin \<notin> set (allowSet utl allowed) then (Forbidden ''origin not allowed'', st)
      else next_h r st)"

lemma RequireAllowedOrigin_cases:
  "RequireAllowedOrigin utl allowed next_h r st =
     (if TrimSpace (r_Origin r) = [] \<or>
         (\<exists>a\<in>set allowed. ToLower utl (TrimSpace a) = ToLower utl (TrimSpace (r_Origin r)) \<and>
            ToLower utl (TrimSpace a) \<noteq> [])
      then next_h r st else (Forbidden ''origin not allowed'', st))"
proof -
  have "ToLower utl (TrimSpace (r_Origin r)) \<in> set (allowSet utl allowed) \<longleftrightarrow>
      (\<exists>a\<in>set allowed. ToLower utl (TrimSpace a) = ToLower utl (TrimSpace (r_Origin r)) \<and>
         ToLower utl (TrimSpace a) \<noteq> [])"
    unfolding allowSet_def set_filter set_map by (auto simp: image_iff) metis+
  then show ?thesis by (simp add: RequireAllowedOrigin_def Let_def)
qed

section \<open>The router's own errors\<close>

text \<open>
  \<open>errorRewriter\<close>, over a response the wrapped handler produced: headers set, then
  \<open>WriteHeader\<close>, then the body. A reply that is not JSON and carries 404 or 405 becomes the
  JSON error, and the body written after it is swallowed.
\<close>

definition jsonErrors :: "('st, 'p) handler \<Rightarrow> ('st, 'p) handler" where
  "jsonErrors next_h r st =
     (case next_h r st of (resp, st') \<Rightarrow>
        ((if hdrGet ''Content-Type'' (hdr resp) = ''application/json'' then resp
          else if status resp = 404 then Write (hdr resp) 404 CodeNotFound (Msg ''no such endpoint'')
          else if status resp = 405 then
            Write (hdr resp) 405 CodeInvalidRequest (Msg ''method not allowed for this endpoint'')
          else resp), st'))"

lemma jsonErrors_status: "status (fst (jsonErrors h r st)) = status (fst (h r st))"
  by (simp add: jsonErrors_def case_prod_beta)

lemma jsonErrors_json:
  "status (fst (h r st)) = 404 \<or> status (fst (h r st)) = 405 \<Longrightarrow>
   hdrGet ''Content-Type'' (hdr (fst (jsonErrors h r st))) = ''application/json''"
  by (auto simp: jsonErrors_def case_prod_beta Write_def)

end
