(* ===== verification/HttpHandlers.thy ===== *)
theory HttpHandlers
  imports Sessions HttpJson
begin

text \<open>
  The handlers of \<open>internal/httpapi/admin_handlers.go\<close>, \<open>internal/httpapi/tenant_handlers.go\<close>
  and \<open>internal/httpapi/media_handlers.go\<close>, and \<open>New\<close> and \<open>routes\<close> of
  \<open>internal/httpapi/server.go\<close>. A handler is a function of the request and the gateway. The
  outsides of its repository calls are numbered from 2, because the resolver in front of it
  uses 0 and 1. The MCP endpoint is the SDK's handler, a parameter.
\<close>

section \<open>The server\<close>

record 'w Server =
  sv_adminToken :: string
  sv_sessions :: "'w SessionManager"
  sv_defaultScopes :: "string list"
  sv_mcpOrigins :: "string list"

datatype new_error = AdminTokenRequired | InvalidDefaultScopes scope_error

text \<open>\<open>New\<close>; the database and the session manager are present by type.\<close>

definition New ::
  "string \<Rightarrow> 'w SessionManager \<Rightarrow> string list \<Rightarrow> string list \<Rightarrow> new_error + 'w Server" where
  "New token sm scopes0 origins =
     (if token = [] then Inl AdminTokenRequired
      else
        (let scopes = (if scopes0 = [] then [ScopeMessagesSend] else scopes0) in
         case ValidateScopes scopes of
           Some e \<Rightarrow> Inl (InvalidDefaultScopes e)
         | None \<Rightarrow> Inr \<lparr>sv_adminToken = token, sv_sessions = sm, sv_defaultScopes = scopes, sv_mcpOrigins = origins\<rparr>))"

definition server_mw :: "'w Server \<Rightarrow> (nat \<Rightarrow> env) \<Rightarrow> 'w gateway Middleware" where
  "server_mw S E = \<lparr>adminToken = sv_adminToken S, resolver = keyResolver E\<rparr>"

section \<open>Replies\<close>

record issuedKey =
  ik_ID :: string
  ik_Name :: string
  ik_KeyPrefix :: string
  ik_Scopes :: "string list"
  ik_Key :: string

record createTenantResponse =
  cr_ID :: string
  cr_TenantName :: string
  cr_CreatedAt :: gotime
  cr_APIKey :: issuedKey

record sendMessageResponse =
  sr_WAMessageID :: string
  sr_To :: string
  sr_SentAt :: gotime

record messageView =
  mv_Message :: Message
  mv_MediaAvailable :: bool

datatype reply =
    RTenant createTenantResponse | RIssued issuedKey | RPairing PairingResult | RSession SessionStatus
  | RSent sendMessageResponse | RChats "Chat list" | RMessages string "messageView list"
  | RSync SyncResult | RContacts "Contact list" | RHealth

type_synonym 'w http_handler = "('w gateway, reply) handler"

section \<open>Administration\<close>

record createTenantRequest =
  rq_Name :: string
  rq_Scopes :: "string list"

definition decodeNameScopes :: "(string \<times> json_value) list \<Rightarrow> createTenantRequest option" where
  "decodeNameScopes fs =
     (case (string_field (field_values ''name'' fs) [], strings_field (field_values ''scopes'' fs) []) of
        (Some n, Some ss) \<Rightarrow> Some \<lparr>rq_Name = n, rq_Scopes = ss\<rparr>
      | _ \<Rightarrow> None)"

definition emptyNameScopes :: createTenantRequest where
  "emptyNameScopes = \<lparr>rq_Name = [], rq_Scopes = []\<rparr>"

definition resolveScopes :: "'w Server \<Rightarrow> string list \<Rightarrow> string list" where
  "resolveScopes S requested = (if requested = [] then sv_defaultScopes S else requested)"

text \<open>\<open>issueKey\<close>; \<open>rand\<close> is what the random source gives, \<open>None\<close> an error.\<close>

definition issueKey ::
  "env \<Rightarrow> env \<Rightarrow> unicode_lower \<Rightarrow> byte list option \<Rightarrow> string \<Rightarrow> string \<Rightarrow> string list \<Rightarrow> db \<Rightarrow> issuedKey option \<times> db" where
  "issueKey E E' utl rand tenantID name scopes d =
     (case GenerateKey utl rand tenantID of
        Inl _ \<Rightarrow> (None, d)
      | Inr generated \<Rightarrow>
          (let record = \<lparr>k_ID = NewID E 0, k_TenantID = tenantID, k_Name = name, k_KeyHash = Hash generated,
                 k_KeyPrefix = Prefix generated, k_Scopes = scopes, k_CreatedAt = nowAt E 0,
                 k_LastUsedAt = None, k_RevokedAt = None\<rparr>
           in case apikey_Create E' record d of
                (Some _, d') \<Rightarrow> (None, d')
              | (None, d') \<Rightarrow>
                  (Some \<lparr>ik_ID = k_ID record, ik_Name = name, ik_KeyPrefix = k_KeyPrefix record,
                         ik_Scopes = scopes, ik_Key = Plaintext generated\<rparr>, d')))"

definition handleCreateTenant ::
  "(nat \<Rightarrow> env) \<Rightarrow> unicode_lower \<Rightarrow> byte list option \<Rightarrow> 'w Server \<Rightarrow> 'w http_handler" where
  "handleCreateTenant E utl rand S r g =
     (case decodeJSON emptyNameScopes decodeNameScopes r of
        Inl _ \<Rightarrow> (InvalidRequest (Msg ''the request body must be a JSON object''), g)
      | Inr req \<Rightarrow>
          (let name = TrimSpace (rq_Name req); scopes = resolveScopes S (rq_Scopes req) in
           if name = [] then (InvalidRequest (Msg ''name is required''), g)
           else case ValidateScopes scopes of
             Some e \<Rightarrow> (InvalidRequest (ScopeMsg e), g)
           | None \<Rightarrow>
               (let tenant = \<lparr>t_ID = NewID (E 2) 0, t_Name = name, t_CreatedAt = nowAt (E 2) 0\<rparr> in
                case tenant_Create (E 3) tenant (gw_db g) of
                  (Some _, d1) \<Rightarrow> (Internal, g\<lparr>gw_db := d1\<rparr>)
                | (None, d1) \<Rightarrow>
                    (case session_EnsureForTenant (E 4) (t_ID tenant) d1 of
                       (Inl _, d2) \<Rightarrow> (Internal, g\<lparr>gw_db := d2\<rparr>)
                     | (Inr _, d2) \<Rightarrow>
                         (case issueKey (E 5) (E 6) utl rand (t_ID tenant) ''default'' scopes d2 of
                            (None, d3) \<Rightarrow> (Internal, g\<lparr>gw_db := d3\<rparr>)
                          | (Some issued, d3) \<Rightarrow>
                              (writeJSON 201 (RTenant \<lparr>cr_ID = t_ID tenant, cr_TenantName = t_Name tenant,
                                 cr_CreatedAt = t_CreatedAt tenant, cr_APIKey = issued\<rparr>), g\<lparr>gw_db := d3\<rparr>))))))"

definition handleIssueKey ::
  "(nat \<Rightarrow> env) \<Rightarrow> unicode_lower \<Rightarrow> byte list option \<Rightarrow> 'w Server \<Rightarrow> 'w http_handler" where
  "handleIssueKey E utl rand S r g =
     (let tenantID = path_value r ''id'' in
      case tenant_Get (E 2) tenantID (gw_db g) of
        Inl ErrNotFound \<Rightarrow> (NotFound ''tenant not found'', g)
      | Inl (StoreError _) \<Rightarrow> (Internal, g)
      | Inr _ \<Rightarrow>
          (case optionalJSON emptyNameScopes decodeNameScopes r of
             None \<Rightarrow> (InvalidRequest (Msg ''the request body must be a JSON object''), g)
           | Some req \<Rightarrow>
               (let name = TrimSpace (rq_Name req); scopes = resolveScopes S (rq_Scopes req) in
                if name = [] then (InvalidRequest (Msg ''name is required''), g)
                else case ValidateScopes scopes of
                  Some e \<Rightarrow> (InvalidRequest (ScopeMsg e), g)
                | None \<Rightarrow>
                    (case issueKey (E 3) (E 4) utl rand tenantID name scopes (gw_db g) of
                       (None, d1) \<Rightarrow> (Internal, g\<lparr>gw_db := d1\<rparr>)
                     | (Some issued, d1) \<Rightarrow> (writeJSON 201 (RIssued issued), g\<lparr>gw_db := d1\<rparr>)))))"

definition handleRevokeKey :: "(nat \<Rightarrow> env) \<Rightarrow> 'w http_handler" where
  "handleRevokeKey E r g =
     (case apikey_Revoke (E 2) (path_value r ''id'') (path_value r ''keyID'') (gw_db g) of
        (Some ErrNotFound, d1) \<Rightarrow> (NotFound ''api key not found for this tenant'', g\<lparr>gw_db := d1\<rparr>)
      | (Some (StoreError _), d1) \<Rightarrow> (Internal, g\<lparr>gw_db := d1\<rparr>)
      | (None, d1) \<Rightarrow> (\<lparr>hdr = [], status = 204, rbody = NoBody\<rparr>, g\<lparr>gw_db := d1\<rparr>))"

definition decodePhone :: "(string \<times> json_value) list \<Rightarrow> string option" where
  "decodePhone fs = string_field (field_values ''phone'' fs) []"

definition handleStartPairing :: "(nat \<Rightarrow> env) \<Rightarrow> 'w Server \<Rightarrow> 'w http_handler" where
  "handleStartPairing E S r g =
     (let tenantID = path_value r ''id'' in
      case tenant_Get (E 2) tenantID (gw_db g) of
        Inl ErrNotFound \<Rightarrow> (NotFound ''tenant not found'', g)
      | Inl (StoreError _) \<Rightarrow> (Internal, g)
      | Inr _ \<Rightarrow>
          (case optionalJSON [] decodePhone r of
             None \<Rightarrow> (InvalidRequest (Msg ''the request body must be a JSON object''), g)
           | Some phone \<Rightarrow>
               (case session_EnsureForTenant (E 3) tenantID (gw_db g) of
                  (Inl _, d1) \<Rightarrow> (Internal, g\<lparr>gw_db := d1\<rparr>)
                | (Inr _, d1) \<Rightarrow>
                    (case sm_StartPairing (sv_sessions S) tenantID (TrimSpace phone) (g\<lparr>gw_db := d1\<rparr>) of
                       (Inl e, g2) \<Rightarrow> (case writeWAError e of Some resp \<Rightarrow> (resp, g2) | None \<Rightarrow> (Internal, g2))
                     | (Inr result, g2) \<Rightarrow> (writeJSON 200 (RPairing result), g2)))))"

section \<open>The tenant's own surface\<close>

text \<open>
  Every handler starts by reading the principal the middleware stored; the tenant of a call
  is the principal's and nothing of the request.
\<close>

definition withTenant :: "(Principal \<Rightarrow> 'w http_handler) \<Rightarrow> 'w http_handler" where
  "withTenant h r g =
     (case PrincipalFrom r of
        None \<Rightarrow> (Unauthorized ''api key required'', g)
      | Some p \<Rightarrow> h p r g)"

definition waReply :: "wa_error + reply \<Rightarrow> 'w gateway \<Rightarrow> reply response \<times> 'w gateway" where
  "waReply out g =
     (case out of
        Inl e \<Rightarrow> (case writeWAError e of Some resp \<Rightarrow> (resp, g) | None \<Rightarrow> (Internal, g))
      | Inr p \<Rightarrow> (writeJSON 200 p, g))"

definition handleGetSession :: "'w Server \<Rightarrow> 'w http_handler" where
  "handleGetSession S =
     withTenant (\<lambda>p r g.
       case sm_Status (sv_sessions S) (TenantID p) g of (out, g1) \<Rightarrow> waReply (map_sum id RSession out) g1)"

definition decodeSend :: "(string \<times> json_value) list \<Rightarrow> (string \<times> string) option" where
  "decodeSend fs =
     (case (string_field (field_values ''to'' fs) [], string_field (field_values ''body'' fs) []) of
        (Some t, Some b) \<Rightarrow> Some (t, b)
      | _ \<Rightarrow> None)"

text \<open>The row of a message the caller sent.\<close>

definition outboundRecord :: "env \<Rightarrow> string \<Rightarrow> SentMessage \<Rightarrow> string \<Rightarrow> Message" where
  "outboundRecord E tenantID sent body =
     emptyMessage\<lparr>m_ID := NewID E 0, m_TenantID := tenantID, m_ChatJID := sm_ChatJID sent,
       m_SenderJID := sm_SenderJID sent, m_WAMessageID := sm_WAMessageID sent, m_Direction := DirectionOut,
       m_Body := body, m_Timestamp := sm_Timestamp sent, m_CreatedAt := nowAt E 0\<rparr>"

definition handleSendMessage :: "(nat \<Rightarrow> env) \<Rightarrow> 'w Server \<Rightarrow> 'w http_handler" where
  "handleSendMessage E S =
     withTenant (\<lambda>p r g.
       case decodeJSON ([], []) decodeSend r of
         Inl _ \<Rightarrow> (InvalidRequest (Msg ''the request body must be a JSON object''), g)
       | Inr (to0, body0) \<Rightarrow>
           (let to = TrimSpace to0; body = TrimSpace body0 in
            if to = [] then (InvalidRequest (Msg ''to is required''), g)
            else if body = [] then (InvalidRequest (Msg ''body is required''), g)
            else case sm_SendText (sv_sessions S) (TenantID p) to body g of
              (Inl e, g1) \<Rightarrow> (case writeWAError e of Some resp \<Rightarrow> (resp, g1) | None \<Rightarrow> (Internal, g1))
            | (Inr sent, g1) \<Rightarrow>
                (writeJSON 201 (RSent \<lparr>sr_WAMessageID = sm_WAMessageID sent, sr_To = sm_ChatJID sent,
                    sr_SentAt = sm_Timestamp sent\<rparr>),
                 g1\<lparr>gw_db := snd (message_Append (E 3) (outboundRecord (E 2) (TenantID p) sent body) (gw_db g1))\<rparr>)))"

definition handleListChats :: "(nat \<Rightarrow> env) \<Rightarrow> 'w http_handler" where
  "handleListChats E =
     withTenant (\<lambda>p r g.
       case message_ListChats (E 2) (TenantID p) (queryLimit r) (gw_db g) of
         (Inl _, d1) \<Rightarrow> (Internal, g\<lparr>gw_db := d1\<rparr>)
       | (Inr cs, d1) \<Rightarrow> (writeJSON 200 (RChats cs), g\<lparr>gw_db := d1\<rparr>))"

definition messageView_of :: "Message \<Rightarrow> messageView" where
  "messageView_of m =
     \<lparr>mv_Message = m,
      mv_MediaAvailable = (m_MediaPath m \<noteq> None \<and> derefString (m_MediaStatus m) = MediaAvailable)\<rparr>"

definition handleListChatMessages :: "(nat \<Rightarrow> env) \<Rightarrow> 'w http_handler" where
  "handleListChatMessages E =
     withTenant (\<lambda>p r g.
       let chatJID = TrimSpace (path_value r ''jid'') in
       if chatJID = [] then (InvalidRequest (Msg ''a chat jid is required''), g)
       else case message_ListByChat (E 2) (TenantID p) chatJID (queryLimit r) (gw_db g) of
         (Inl _, d1) \<Rightarrow> (Internal, g\<lparr>gw_db := d1\<rparr>)
       | (Inr ms, d1) \<Rightarrow> (writeJSON 200 (RMessages chatJID (map messageView_of ms)), g\<lparr>gw_db := d1\<rparr>))"

definition decodeCount :: "(string \<times> json_value) list \<Rightarrow> int option" where
  "decodeCount fs = int_field (field_values ''count'' fs) 0"

definition handleSyncChatHistory :: "'w Server \<Rightarrow> 'w http_handler" where
  "handleSyncChatHistory S =
     withTenant (\<lambda>p r g.
       let chatJID = TrimSpace (path_value r ''jid'') in
       if chatJID = [] then (InvalidRequest (Msg ''a chat jid is required''), g)
       else case optionalJSON 0 decodeCount r of
         None \<Rightarrow> (InvalidRequest (Msg ''the request body must be a JSON object''), g)
       | Some count \<Rightarrow>
           (case sm_SyncHistory (sv_sessions S) (TenantID p) chatJID (NormalizeSyncCount count) g of
              (out, g1) \<Rightarrow> waReply (map_sum id RSync out) g1))"

definition handleFindContacts :: "'w Server \<Rightarrow> 'w http_handler" where
  "handleFindContacts S =
     withTenant (\<lambda>p r g.
       let query = TrimSpace (query_get r ''q'') in
       if query = [] then (InvalidRequest (Msg ''q is required''), g)
       else case sm_FindContacts (sv_sessions S) (TenantID p) query g of
         (out, g1) \<Rightarrow> waReply (map_sum id RContacts out) g1)"

section \<open>Media\<close>

definition defaultMediaContentType :: string where "defaultMediaContentType = ''application/octet-stream''"

text \<open>Whether and with what content a file opens is \<open>open_file\<close>.\<close>

definition handleGetMessageMedia ::
  "(string \<Rightarrow> 'w gateway \<Rightarrow> string option) \<Rightarrow> 'w Server \<Rightarrow> 'w http_handler" where
  "handleGetMessageMedia open_file S =
     withTenant (\<lambda>p r g.
       let messageID = TrimSpace (path_value r ''id'') in
       if messageID = [] then (InvalidRequest (Msg ''a message id is required''), g)
       else case sm_FetchMedia (sv_sessions S) (TenantID p) messageID g of
         ((ref, Some e), g1) \<Rightarrow> (case writeMediaError e of Some resp \<Rightarrow> (resp, g1) | None \<Rightarrow> (Internal, g1))
       | ((ref, None), g1) \<Rightarrow>
           (case open_file (mr_Path ref) g1 of
              None \<Rightarrow> (Internal, g1)
            | Some content \<Rightarrow>
                (let ct = TrimSpace (mr_MimeType ref);
                     h1 = hdrSet ''Content-Type'' (if ct = [] then defaultMediaContentType else ct) [];
                     h2 = (if mr_SizeBytes ref > 0 then hdrSet ''Content-Length'' (Itoa (mr_SizeBytes ref)) h1 else h1);
                     h3 = hdrSet ''Cache-Control'' ''private, no-store'' h2;
                     h4 = hdrSet ''Content-Disposition'' ''inline'' h3
                 in (\<lparr>hdr = h4, status = 200, rbody = Bytes content\<rparr>, g1))))"

section \<open>Routes\<close>

definition handleHealthz :: "'w http_handler" where
  "handleHealthz r g = (writeJSON 200 RHealth, g)"

text \<open>A pattern of \<open>http.ServeMux\<close>: its segments, a name for a wildcard.\<close>

datatype segment = Lit string | Wild string

fun match_segs :: "segment list \<Rightarrow> string list \<Rightarrow> (string \<times> string) list option" where
  "match_segs [] [] = Some []"
| "match_segs (Lit l # ps) (s # ss) = (if l = s then match_segs ps ss else None)"
| "match_segs (Wild n # ps) (s # ss) =
     (if s = [] then None else case match_segs ps ss of None \<Rightarrow> None | Some vs \<Rightarrow> Some ((n, s) # vs))"
| "match_segs _ _ = None"

record 'w route =
  rt_Method :: string
  rt_Segs :: "segment list"
  rt_Handler :: "'w http_handler"

definition routes ::
  "(nat \<Rightarrow> env) \<Rightarrow> unicode_lower \<Rightarrow> byte list option \<Rightarrow> (string \<Rightarrow> 'w gateway \<Rightarrow> string option) \<Rightarrow>
   'w http_handler \<Rightarrow> 'w Server \<Rightarrow> 'w route list" where
  "routes E utl rand open_file mcp S =
     (let mw = server_mw S E; admin = RequireAdmin mw; scope = RequireScope mw in
      [\<lparr>rt_Method = ''GET'', rt_Segs = [Lit ''healthz''], rt_Handler = handleHealthz\<rparr>,
       \<lparr>rt_Method = ''POST'', rt_Segs = [Lit ''v1'', Lit ''tenants''],
        rt_Handler = admin (handleCreateTenant E utl rand S)\<rparr>,
       \<lparr>rt_Method = ''POST'', rt_Segs = [Lit ''v1'', Lit ''tenants'', Wild ''id'', Lit ''keys''],
        rt_Handler = admin (handleIssueKey E utl rand S)\<rparr>,
       \<lparr>rt_Method = ''DELETE'', rt_Segs = [Lit ''v1'', Lit ''tenants'', Wild ''id'', Lit ''keys'', Wild ''keyID''],
        rt_Handler = admin (handleRevokeKey E)\<rparr>,
       \<lparr>rt_Method = ''POST'', rt_Segs = [Lit ''v1'', Lit ''tenants'', Wild ''id'', Lit ''sessions'', Lit ''pair''],
        rt_Handler = admin (handleStartPairing E S)\<rparr>,
       \<lparr>rt_Method = ''GET'', rt_Segs = [Lit ''v1'', Lit ''sessions''],
        rt_Handler = scope ScopeSessionsRead (handleGetSession S)\<rparr>,
       \<lparr>rt_Method = ''POST'', rt_Segs = [Lit ''v1'', Lit ''messages''],
        rt_Handler = scope ScopeMessagesSend (handleSendMessage E S)\<rparr>,
       \<lparr>rt_Method = ''GET'', rt_Segs = [Lit ''v1'', Lit ''chats''],
        rt_Handler = scope ScopeMessagesRead (handleListChats E)\<rparr>,
       \<lparr>rt_Method = ''GET'', rt_Segs = [Lit ''v1'', Lit ''chats'', Wild ''jid'', Lit ''messages''],
        rt_Handler = scope ScopeMessagesRead (handleListChatMessages E)\<rparr>,
       \<lparr>rt_Method = ''POST'', rt_Segs = [Lit ''v1'', Lit ''chats'', Wild ''jid'', Lit ''sync''],
        rt_Handler = scope ScopeMessagesRead (handleSyncChatHistory S)\<rparr>,
       \<lparr>rt_Method = ''GET'', rt_Segs = [Lit ''v1'', Lit ''contacts''],
        rt_Handler = scope ScopeMessagesRead (handleFindContacts S)\<rparr>,
       \<lparr>rt_Method = ''GET'', rt_Segs = [Lit ''v1'', Lit ''messages'', Wild ''id'', Lit ''media''],
        rt_Handler = scope ScopeMediaRead (handleGetMessageMedia open_file S)\<rparr>,
       \<lparr>rt_Method = [], rt_Segs = [Lit ''mcp''],
        rt_Handler = RequireAllowedOrigin utl (sv_mcpOrigins S) (RequireTenant mw mcp)\<rparr>])"

text \<open>
  The multiplexer on a clean path: the segments of the path decide the pattern, a \<open>GET\<close> pattern
  also takes \<open>HEAD\<close>, and where only the method is wrong the answer is 405.
\<close>

definition method_ok :: "string \<Rightarrow> string \<Rightarrow> bool" where
  "method_ok pat m \<longleftrightarrow> pat = [] \<or> pat = m \<or> pat = ''GET'' \<and> m = ''HEAD''"

definition serveMux :: "'w route list \<Rightarrow> 'w http_handler" where
  "serveMux rts r g =
     (let segs = Split (drop 1 (r_Path r)) (CHR ''/''); hits = filter (\<lambda>rt. match_segs (rt_Segs rt) segs \<noteq> None) rts in
      case find (\<lambda>rt. method_ok (rt_Method rt) (r_Method r)) hits of
        Some rt \<Rightarrow> rt_Handler rt (r\<lparr>r_PathValues := the (match_segs (rt_Segs rt) segs), r_Principal := None\<rparr>) g
      | None \<Rightarrow>
          (\<lparr>hdr = [(''Content-Type'', ''text/plain; charset=utf-8'')],
            status = (if hits = [] then 404 else 405), rbody = Bytes []\<rparr>, g))"

definition Server_Handler ::
  "(nat \<Rightarrow> env) \<Rightarrow> unicode_lower \<Rightarrow> byte list option \<Rightarrow> (string \<Rightarrow> 'w gateway \<Rightarrow> string option) \<Rightarrow>
   'w http_handler \<Rightarrow> 'w Server \<Rightarrow> 'w http_handler" where
  "Server_Handler E utl rand open_file mcp S =
     jsonErrors (serveMux (routes E utl rand open_file mcp S))"

end
