(* ===== verification/McpTools.thy ===== *)
theory McpTools
  imports HttpHandlers
begin

text \<open>
  \<open>internal/mcpserver/server.go\<close>: the six tools. The SDK decodes a tool's arguments and hands
  the handler the context of its own request, so a tool is a function of the principal in that
  context, its arguments and the gateway; \<open>Inl\<close> is a tool error and the text in it. Times are
  rendered by \<open>formatTime\<close>, with the calendar of Go's \<open>time\<close> package written out.
\<close>

section \<open>Time\<close>

definition pad :: "nat \<Rightarrow> nat \<Rightarrow> string" where
  "pad w n = replicate (w - length (decimal n)) (CHR ''0'') @ decimal n"

definition pad_year :: "int \<Rightarrow> string" where
  "pad_year y = (if y < 0 then CHR ''-'' # pad 4 (nat (- y)) else pad 4 (nat y))"

text \<open>Year, month and day of a day counted from 1 January of the year 1, in the Gregorian calendar.\<close>

definition civil :: "int \<Rightarrow> int \<times> int \<times> int" where
  "civil days =
     (let z = days + 306; era = z div 146097; doe = z mod 146097;
          yoe = (doe - doe div 1460 + doe div 36524 - doe div 146096) div 365;
          doy = doe - (365 * yoe + yoe div 4 - yoe div 100);
          mp = (5 * doy + 2) div 153;
          d = doy - (153 * mp + 2) div 5 + 1;
          m = (if mp < 10 then mp + 3 else mp - 9)
      in (yoe + era * 400 + (if m \<le> 2 then 1 else 0), m, d))"

definition formatTime :: "gotime \<Rightarrow> string" where
  "formatTime t =
     (let secs = t div 1000000000; day = secs div 86400; s = nat (secs mod 86400) in
      case civil day of (y, m, d) \<Rightarrow>
        pad_year y @ ''-'' @ pad 2 (nat m) @ ''-'' @ pad 2 (nat d) @ ''T'' @
        pad 2 (s div 3600) @ '':'' @ pad 2 (s div 60 mod 60) @ '':'' @ pad 2 (s mod 60) @ ''Z'')"

section \<open>What the tools answer\<close>

record mcp_Chat =
  mc_ChatJID :: string
  mc_Name :: string
  mc_LastMessageAt :: string
  mc_LastMessageBody :: string
  mc_LastDirection :: string
  mc_MessageCount :: nat

record mcp_Message =
  mm_ID :: string
  mm_ChatJID :: string
  mm_SenderJID :: string
  mm_WAMessageID :: string
  mm_Direction :: string
  mm_Body :: string
  mm_MediaType :: string
  mm_MimeType :: string
  mm_MediaStatus :: string
  mm_MediaAvailable :: bool
  mm_Timestamp :: string

record SyncHistoryOutput =
  so_ChatJID :: string
  so_Inserted :: nat
  so_OldestTimestamp :: string
  so_MoreAvailable :: bool

datatype tool_output =
    ListChatsOutput "mcp_Chat list" | ListMessagesOutput string "mcp_Message list"
  | SendMessageOutput string string | FindContactOutput "Contact list"
  | SyncHistoryOut SyncHistoryOutput | GetMediaOutput MediaRef

text \<open>The answer of a tool: \<open>toolError\<close> is an answer the model reads, not a protocol error.\<close>

type_synonym 'w tool = "Principal option \<Rightarrow> 'w gateway \<Rightarrow> (string + tool_output) \<times> 'w gateway"

definition toolError :: "string \<Rightarrow> string + tool_output" where
  "toolError message = Inl message"

definition requireScope :: "Principal option \<Rightarrow> string \<Rightarrow> string + Principal" where
  "requireScope ctx required =
     (case ctx of
        None \<Rightarrow> Inl ''not authenticated: a tenant api key is required''
      | Some p \<Rightarrow>
          if TenantID p = [] then Inl ''not authenticated: a tenant api key is required''
          else if \<not> principal_HasScope p required then Inl (''missing required scope: '' @ required)
          else Inr p)"

definition describeSendError :: "wa_error \<Rightarrow> string" where
  "describeSendError e =
     (case e of
        ErrNotPaired \<Rightarrow> ''this tenant has no paired WhatsApp session; pair a number first''
      | ErrInvalidJID \<Rightarrow> ''the destination is not a valid WhatsApp JID or phone number''
      | ErrUnknownTenant \<Rightarrow> ''no WhatsApp session exists for this tenant''
      | _ \<Rightarrow> ''could not send the message'')"

definition describeSyncError :: "wa_error \<Rightarrow> string" where
  "describeSyncError e =
     (case e of
        ErrNoAnchorMessage \<Rightarrow> ''this chat has no stored message to anchor a history request on; it must appear in a pushed history sync or receive a message before it can be backfilled''
      | ErrSyncInProgress \<Rightarrow> ''a history sync for this chat is already running; wait for it to finish before asking again''
      | ErrSyncTimeout \<Rightarrow> ''the phone did not answer the history request in time; it may still arrive, so read the chat again shortly''
      | ErrNotPaired \<Rightarrow> ''this tenant has no paired WhatsApp session; pair a number first''
      | ErrInvalidJID \<Rightarrow> ''the chat is not a valid WhatsApp JID''
      | ErrUnknownTenant \<Rightarrow> ''no WhatsApp session exists for this tenant''
      | _ \<Rightarrow> ''could not sync the chat history'')"

definition describeMediaError :: "wa_error \<Rightarrow> string" where
  "describeMediaError e =
     (case e of
        ErrMediaUnavailable \<Rightarrow> ''WhatsApp no longer has this media; it has expired and cannot be downloaded by anyone, so do not retry''
      | ErrMediaTooLarge \<Rightarrow> ''this attachment is too large for the gateway to download''
      | ErrMediaTypeNotAllowed \<Rightarrow> ''the gateway does not download this media type; stickers and gifs are skipped by default''
      | ErrNoMedia \<Rightarrow> ''this message carries no downloadable media''
      | ErrUnknownMessage \<Rightarrow> ''no message with that id exists for this tenant; take the id from list_messages''
      | ErrNotPaired \<Rightarrow> ''this tenant has no paired WhatsApp session; pair a number first''
      | ErrUnknownTenant \<Rightarrow> ''no WhatsApp session exists for this tenant''
      | _ \<Rightarrow> ''could not download the media'')"

section \<open>The tools\<close>

text \<open>\<open>principal, errResult := requireScope(ctx, scope); if errResult != nil \<dots>\<close>\<close>

definition with_scope :: "string \<Rightarrow> (Principal \<Rightarrow> 'w gateway \<Rightarrow> (string + tool_output) \<times> 'w gateway) \<Rightarrow> 'w tool" where
  "with_scope required h ctx g =
     (case requireScope ctx required of
        Inl message \<Rightarrow> (toolError message, g)
      | Inr p \<Rightarrow> h p g)"

definition mcp_chat_of :: "Chat \<Rightarrow> mcp_Chat" where
  "mcp_chat_of c =
     \<lparr>mc_ChatJID = c_ChatJID c, mc_Name = c_Name c, mc_LastMessageAt = formatTime (c_LastMessageAt c),
      mc_LastMessageBody = c_LastMessageBody c, mc_LastDirection = c_LastDirection c,
      mc_MessageCount = c_MessageCount c\<rparr>"

definition list_chats :: "(nat \<Rightarrow> env) \<Rightarrow> int \<Rightarrow> 'w tool" where
  "list_chats E limit =
     with_scope ScopeMessagesRead (\<lambda>p g.
       case message_ListChats (E 2) (TenantID p) limit (gw_db g) of
         (Inl _, d1) \<Rightarrow> (toolError ''could not list chats'', g\<lparr>gw_db := d1\<rparr>)
       | (Inr cs, d1) \<Rightarrow> (Inr (ListChatsOutput (map mcp_chat_of cs)), g\<lparr>gw_db := d1\<rparr>))"

definition mcp_message_of :: "Message \<Rightarrow> mcp_Message" where
  "mcp_message_of m =
     \<lparr>mm_ID = m_ID m, mm_ChatJID = m_ChatJID m, mm_SenderJID = m_SenderJID m,
      mm_WAMessageID = m_WAMessageID m, mm_Direction = m_Direction m, mm_Body = m_Body m,
      mm_MediaType = derefString (m_MediaType m), mm_MimeType = derefString (m_MimeType m),
      mm_MediaStatus = derefString (m_MediaStatus m),
      mm_MediaAvailable =
        (case m_MediaStatus m of None \<Rightarrow> False | Some st \<Rightarrow> m_MediaPath m \<noteq> None \<and> st = MediaAvailable),
      mm_Timestamp = formatTime (m_Timestamp m)\<rparr>"

definition list_messages :: "(nat \<Rightarrow> env) \<Rightarrow> string \<Rightarrow> int \<Rightarrow> 'w tool" where
  "list_messages E chatJID limit =
     with_scope ScopeMessagesRead (\<lambda>p g.
       if chatJID = [] then (toolError ''chat_jid is required'', g)
       else case message_ListByChat (E 2) (TenantID p) chatJID limit (gw_db g) of
         (Inl _, d1) \<Rightarrow> (toolError ''could not list messages'', g\<lparr>gw_db := d1\<rparr>)
       | (Inr ms, d1) \<Rightarrow> (Inr (ListMessagesOutput chatJID (map mcp_message_of ms)), g\<lparr>gw_db := d1\<rparr>))"

definition send_message :: "(nat \<Rightarrow> env) \<Rightarrow> 'w SessionManager \<Rightarrow> string \<Rightarrow> string \<Rightarrow> 'w tool" where
  "send_message E sm to body =
     with_scope ScopeMessagesSend (\<lambda>p g.
       if to = [] then (toolError ''to is required'', g)
       else if body = [] then (toolError ''body is required'', g)
       else case sm_SendText sm (TenantID p) to body g of
         (Inl e, g1) \<Rightarrow> (toolError (describeSendError e), g1)
       | (Inr sent, g1) \<Rightarrow>
           (Inr (SendMessageOutput (sm_WAMessageID sent) (sm_ChatJID sent)),
            g1\<lparr>gw_db := snd (message_Append (E 3) (outboundRecord (E 2) (TenantID p) sent body) (gw_db g1))\<rparr>))"

definition find_contact :: "'w SessionManager \<Rightarrow> string \<Rightarrow> 'w tool" where
  "find_contact sm query =
     with_scope ScopeMessagesRead (\<lambda>p g.
       if query = [] then (toolError ''query is required'', g)
       else case sm_FindContacts sm (TenantID p) query g of
         (Inl e, g1) \<Rightarrow> (toolError (describeSyncError e), g1)
       | (Inr cs, g1) \<Rightarrow> (Inr (FindContactOutput cs), g1))"

definition sync_history :: "'w SessionManager \<Rightarrow> string \<Rightarrow> int \<Rightarrow> 'w tool" where
  "sync_history sm chatJID count =
     with_scope ScopeMessagesRead (\<lambda>p g.
       if chatJID = [] then (toolError ''chat_jid is required'', g)
       else case sm_SyncHistory sm (TenantID p) chatJID (NormalizeSyncCount count) g of
         (Inl e, g1) \<Rightarrow> (toolError (describeSyncError e), g1)
       | (Inr result, g1) \<Rightarrow>
           (Inr (SyncHistoryOut \<lparr>so_ChatJID = sr_ChatJID result, so_Inserted = sr_Inserted result,
              so_OldestTimestamp = formatTime (sr_OldestTimestamp result),
              so_MoreAvailable = sr_MoreAvailable result\<rparr>), g1))"

definition get_media :: "'w SessionManager \<Rightarrow> string \<Rightarrow> 'w tool" where
  "get_media sm messageID =
     with_scope ScopeMediaRead (\<lambda>p g.
       if TrimSpace messageID = [] then (toolError ''message_id is required'', g)
       else case sm_FetchMedia sm (TenantID p) messageID g of
         ((_, Some e), g1) \<Rightarrow> (toolError (describeMediaError e), g1)
       | ((ref, None), g1) \<Rightarrow> (Inr (GetMediaOutput ref), g1))"

section \<open>Who may use them\<close>

text \<open>Without a tenant's principal that carries the scope, a tool answers an error and touches nothing.\<close>

lemma with_scope_refuses:
  assumes "\<nexists>p. ctx = Some p \<and> TenantID p \<noteq> [] \<and> principal_HasScope p required"
  shows "\<exists>message. with_scope required h ctx g = (Inl message, g)"
  using assms by (auto simp: with_scope_def requireScope_def toolError_def split: option.splits)

lemma with_scope_passes:
  "TenantID p \<noteq> [] \<Longrightarrow> principal_HasScope p required \<Longrightarrow> with_scope required h (Some p) g = h p g"
  by (simp add: with_scope_def requireScope_def)

end
