(* ===== verification/Config.thy ===== *)
theory Config
  imports HttpJson History
begin

text \<open>
  \<open>internal/config/config.go\<close>: the gateway's settings, read from the environment, which is a
  function from a variable's name to its value (empty when unset, as \<open>os.Getenv\<close> has it).
  \<open>net.SplitHostPort\<close> and \<open>net.JoinHostPort\<close> are written out. \<open>time.ParseDuration\<close> is the
  parameter \<open>dur\<close>: its fractions are floating point, and the code only asks whether the
  duration parses and is positive.
\<close>

section \<open>Definitions\<close>

datatype config_error =
    AdminTokenMissing | BadHistoryScope string | BadTimeout string | TimeoutNotPositive string
  | BadMediaBytes string | MediaBytesNotPositive string | UnknownMediaType string string
  | BadBindAddr string | PortNotANumber string | PortOutOfRange int

definition DefaultHistorySyncTimeout :: int where "DefaultHistorySyncTimeout = 30 * 1000000000"
definition DefaultMediaDir :: string where "DefaultMediaDir = ''./data/media''"
definition DefaultMediaMaxBytes :: int where "DefaultMediaMaxBytes = 100 * 2 ^ 20"
definition defaultBindAddr :: string where "defaultBindAddr = ''127.0.0.1:8080''"

definition knownMediaTypes :: "string list" where
  "knownMediaTypes = [''ptt'', ''audio'', ''image'', ''video'', ''document'', ''sticker'', ''gif'']"

definition DefaultMediaFetchTypes :: "string list" where
  "DefaultMediaFetchTypes = [''ptt'', ''audio'', ''image'', ''video'', ''document'']"

definition splitList :: "string \<Rightarrow> string list" where
  "splitList raw = trim_dedup (Split raw (CHR '','')) []"

definition ParseMediaMaxBytes :: "string \<Rightarrow> config_error + int" where
  "ParseMediaMaxBytes raw0 =
     (let raw = TrimSpace raw0 in
      if raw = [] then Inr DefaultMediaMaxBytes
      else case Atoi raw of
        None \<Rightarrow> Inl (BadMediaBytes raw)
      | Some maxBytes \<Rightarrow> if maxBytes \<le> 0 then Inl (MediaBytesNotPositive raw) else Inr maxBytes)"

definition ParseMediaFetchTypes :: "unicode_lower \<Rightarrow> string \<Rightarrow> config_error + string list" where
  "ParseMediaFetchTypes utl raw =
     (let parts = splitList (ToLower utl raw) in
      if parts = [] then Inr DefaultMediaFetchTypes
      else case find (\<lambda>part. part \<notin> set knownMediaTypes) parts of
        Some part \<Rightarrow> Inl (UnknownMediaType raw part)
      | None \<Rightarrow> Inr parts)"

definition ParseHistorySyncScope :: "unicode_lower \<Rightarrow> string \<Rightarrow> config_error + string" where
  "ParseHistorySyncScope utl raw =
     (let parts = splitList (ToLower utl raw) in
      if parts = [] then Inr HistorySyncScopeDM
      else if list_ex (\<lambda>part. part \<notin> {''dm'', ''group'', ''all''}) parts then Inl (BadHistoryScope raw)
      else (let seen = set parts in
        if card seen = 1 \<and> ''dm'' \<in> seen then Inr HistorySyncScopeDM
        else if card seen = 2 \<and> ''dm'' \<in> seen \<and> ''group'' \<in> seen then Inr HistorySyncScopeDMGroup
        else if card seen = 1 \<and> ''all'' \<in> seen then Inr HistorySyncScopeAll
        else Inl (BadHistoryScope raw)))"

definition parseHistorySyncTimeout :: "(string \<Rightarrow> int option) \<Rightarrow> string \<Rightarrow> config_error + int" where
  "parseHistorySyncTimeout dur raw0 =
     (let raw = TrimSpace raw0 in
      if raw = [] then Inr DefaultHistorySyncTimeout
      else case dur raw of
        None \<Rightarrow> Inl (BadTimeout raw)
      | Some timeout \<Rightarrow> if timeout \<le> 0 then Inl (TimeoutNotPositive raw) else Inr timeout)"

definition parsePort :: "string \<Rightarrow> config_error + int" where
  "parsePort raw =
     (case Atoi raw of
        None \<Rightarrow> Inl (PortNotANumber raw)
      | Some port \<Rightarrow> if port < 1 \<or> port > 65535 then Inl (PortOutOfRange port) else Inr port)"

text \<open>\<open>net.JoinHostPort\<close>, and \<open>net.SplitHostPort\<close> where the port starts after the last colon.\<close>

definition JoinHostPort :: "string \<Rightarrow> string \<Rightarrow> string" where
  "JoinHostPort host port =
     (if CHR '':'' \<in> set host then CHR ''['' # host @ '']:'' @ port else host @ CHR '':'' # port)"

definition before_last :: "char \<Rightarrow> string \<Rightarrow> string" where
  "before_last c s = rev (tl (dropWhile (\<lambda>x. x \<noteq> c) (rev s)))"

definition after_last :: "char \<Rightarrow> string \<Rightarrow> string" where
  "after_last c s = rev (takeWhile (\<lambda>x. x \<noteq> c) (rev s))"

definition SplitHostPort :: "string \<Rightarrow> (string \<times> string) option" where
  "SplitHostPort hostport =
     (if CHR '':'' \<notin> set hostport then None
      else
        (let before = before_last (CHR '':'') hostport; port = after_last (CHR '':'') hostport in
         if hd hostport = CHR ''['' then
           (let inner = takeWhile (\<lambda>x. x \<noteq> CHR '']'') (tl hostport) in
            if CHR '']'' \<notin> set hostport \<or> length before \<noteq> length inner + 2 then None
            else if CHR ''['' \<in> set (tl hostport) \<or> CHR '']'' \<in> set (drop (length inner + 2) hostport) then None
            else Some (inner, port))
         else if CHR '':'' \<in> set before then None
         else if CHR ''['' \<in> set hostport \<or> CHR '']'' \<in> set hostport then None
         else Some (before, port)))"

definition resolveBindAddr :: "string \<Rightarrow> string \<Rightarrow> config_error + (string \<times> int)" where
  "resolveBindAddr bindAddr port =
     (let listen = (\<lambda>addr.
        case SplitHostPort addr of
          None \<Rightarrow> Inl (BadBindAddr addr)
        | Some (host, rawPort) \<Rightarrow>
            (case parsePort rawPort of
               Inl e \<Rightarrow> Inl e
             | Inr parsed \<Rightarrow> Inr (JoinHostPort host (Itoa parsed), parsed)))
      in if bindAddr = [] then
           (if port = [] then listen defaultBindAddr
            else case parsePort port of
              Inl e \<Rightarrow> Inl e
            | Inr parsed \<Rightarrow> listen (JoinHostPort ''127.0.0.1'' (Itoa parsed)))
         else listen bindAddr)"

datatype log_level = LevelDebug | LevelInfo | LevelWarn | LevelError

definition ParseLogLevel :: "unicode_lower \<Rightarrow> string \<Rightarrow> log_level" where
  "ParseLogLevel utl value =
     (let v = ToLower utl (TrimSpace value) in
      if v = ''debug'' then LevelDebug
      else if v = ''warn'' \<or> v = ''warning'' then LevelWarn
      else if v = ''error'' then LevelError
      else LevelInfo)"

definition envOr :: "(string \<Rightarrow> string) \<Rightarrow> string \<Rightarrow> string \<Rightarrow> string" where
  "envOr getenv key fallback = (let v = TrimSpace (getenv key) in if v \<noteq> [] then v else fallback)"

record Gateway =
  ga_AdminToken :: string
  ga_DBPath :: string
  ga_MediaDir :: string
  ga_BindAddr :: string
  ga_Port :: int
  ga_MCPAllowedOrigins :: "string list"
  ga_LogLevel :: log_level
  ga_ShutdownTimeout :: int
  ga_HistorySyncScope :: string
  ga_HistorySyncTimeout :: int
  ga_MediaMaxBytes :: int
  ga_MediaFetchTypes :: "string list"

definition LoadGateway ::
  "unicode_lower \<Rightarrow> (string \<Rightarrow> int option) \<Rightarrow> (string \<Rightarrow> string) \<Rightarrow> config_error + Gateway" where
  "LoadGateway utl dur getenv =
     (let token = TrimSpace (getenv ''ADMIN_TOKEN'') in
      if token = [] then Inl AdminTokenMissing
      else case resolveBindAddr (TrimSpace (getenv ''BIND_ADDR'')) (TrimSpace (getenv ''PORT'')) of
        Inl e \<Rightarrow> Inl e
      | Inr (bindAddr, port) \<Rightarrow>
      (case ParseHistorySyncScope utl (getenv ''HISTORY_SYNC_SCOPE'') of
        Inl e \<Rightarrow> Inl e
      | Inr scope \<Rightarrow>
      (case parseHistorySyncTimeout dur (getenv ''HISTORY_SYNC_TIMEOUT'') of
        Inl e \<Rightarrow> Inl e
      | Inr timeout \<Rightarrow>
      (case ParseMediaMaxBytes (getenv ''MEDIA_MAX_BYTES'') of
        Inl e \<Rightarrow> Inl e
      | Inr maxBytes \<Rightarrow>
      (case ParseMediaFetchTypes utl (getenv ''MEDIA_FETCH_TYPES'') of
        Inl e \<Rightarrow> Inl e
      | Inr fetchTypes \<Rightarrow>
          Inr \<lparr>ga_AdminToken = token, ga_DBPath = envOr getenv ''DB_PATH'' ''./data/whats-cloud.db'',
               ga_MediaDir = envOr getenv ''MEDIA_DIR'' DefaultMediaDir, ga_BindAddr = bindAddr, ga_Port = port,
               ga_MCPAllowedOrigins = splitList (getenv ''MCP_ALLOWED_ORIGINS''),
               ga_LogLevel = ParseLogLevel utl (getenv ''LOG_LEVEL''),
               ga_ShutdownTimeout = 15 * 1000000000, ga_HistorySyncScope = scope,
               ga_HistorySyncTimeout = timeout, ga_MediaMaxBytes = maxBytes,
               ga_MediaFetchTypes = fetchTypes\<rparr>)))))"

section \<open>What they accept\<close>

lemma splitList_parts: "p \<in> set (splitList raw) \<Longrightarrow> TrimSpace p = p \<and> p \<noteq> []"
  by (auto simp: splitList_def dest: trim_dedup_trimmed)

lemma parsePort_Inr: "parsePort raw = Inr n \<Longrightarrow> 1 \<le> n \<and> n \<le> 65535"
  by (auto simp: parsePort_def split: option.splits if_splits)

lemma decimal_chars: "c \<in> set (decimal n) \<Longrightarrow> ascii_digit c"
  using decimal_digits [of n] by (auto simp: list_all_iff)

lemma parsePort_Itoa: "1 \<le> n \<Longrightarrow> n \<le> 65535 \<Longrightarrow> parsePort (Itoa n) = Inr n"
  using Atoi_decimal [of "nat n"] by (simp add: parsePort_def Itoa_def)

lemma digit_not_punct:
  "ascii_digit c \<Longrightarrow> c \<noteq> CHR '':'' \<and> c \<noteq> CHR ''['' \<and> c \<noteq> CHR '']''"
  by (auto simp: ascii_digit_def less_eq_char_def)

lemma last_colon:
  assumes "c \<notin> set p"
  shows "before_last c (h @ c # p) = h" and "after_last c (h @ c # p) = p"
proof -
  have a: "\<forall>x\<in>set (rev p). x \<noteq> c" using assms by auto
  show "before_last c (h @ c # p) = h"
    using a dropWhile_append2 [of "rev p" "\<lambda>x. x \<noteq> c" "c # rev h"] by (simp add: before_last_def)
  show "after_last c (h @ c # p) = p"
    using a takeWhile_append2 [of "rev p" "\<lambda>x. x \<noteq> c" "c # rev h"] by (simp add: after_last_def)
qed

text \<open>What \<open>JoinHostPort\<close> wrote, \<open>SplitHostPort\<close> reads back.\<close>

lemma SplitHostPort_Join:
  assumes p: "\<forall>c\<in>set port. c \<noteq> CHR '':'' \<and> c \<noteq> CHR ''['' \<and> c \<noteq> CHR '']''"
    and h: "CHR ''['' \<notin> set host" "CHR '']'' \<notin> set host"
  shows "SplitHostPort (JoinHostPort host port) = Some (host, port)"
proof (cases "CHR '':'' \<in> set host")
  case True
  have w: "JoinHostPort host port = (CHR ''['' # host @ '']'') @ CHR '':'' # port"
    using True by (simp add: JoinHostPort_def)
  have c: "CHR '':'' \<notin> set port" using p by auto
  have i: "takeWhile (\<lambda>x. x \<noteq> CHR '']'') (host @ '']'' @ s) = host" for s
    using h by (subst takeWhile_append2) auto
  have i2: "takeWhile (\<lambda>x. x \<noteq> CHR '']'') (tl ((CHR ''['' # host @ '']'') @ CHR '':'' # port)) = host"
    using i [of "CHR '':'' # port"] by simp
  show ?thesis
    unfolding w SplitHostPort_def Let_def last_colon [OF c] i2 using p h by auto
next
  case False
  have w: "JoinHostPort host port = host @ CHR '':'' # port"
    using False by (simp add: JoinHostPort_def)
  have c: "CHR '':'' \<notin> set port" using p by auto
  have b: "hd (host @ CHR '':'' # port) \<noteq> CHR ''[''" using h by (cases host) auto
  show ?thesis
    unfolding w SplitHostPort_def Let_def last_colon [OF c] using p h b False by auto
qed

lemma takeWhile_set: "x \<in> set (takeWhile P xs) \<Longrightarrow> x \<in> set xs \<and> P x"
  by (induction xs) (auto split: if_splits)

lemma before_last_set: "x \<in> set (before_last c s) \<Longrightarrow> x \<in> set s"
proof -
  assume x: "x \<in> set (before_last c s)"
  have "set (tl ys) \<subseteq> set ys" for ys :: string by (cases ys) auto
  with x have "x \<in> set (dropWhile (\<lambda>x. x \<noteq> c) (rev s))" by (auto simp: before_last_def)
  then show ?thesis using set_dropWhileD by fastforce
qed

lemma SplitHostPort_host: "SplitHostPort a = Some (h, p) \<Longrightarrow> CHR ''['' \<notin> set h \<and> CHR '']'' \<notin> set h"
  unfolding SplitHostPort_def Let_def
  by (auto split: if_splits dest!: takeWhile_set before_last_set)

lemma Itoa_plain: "0 \<le> n \<Longrightarrow> \<forall>c\<in>set (Itoa n). c \<noteq> CHR '':'' \<and> c \<noteq> CHR ''['' \<and> c \<noteq> CHR '']''"
  by (auto simp: Itoa_def dest!: decimal_chars dest: digit_not_punct)

end
