(* ===== verification/Samples.thy ===== *)
theory Samples
  imports Store
begin

text \<open>
  Sample data on which the theorems with hypotheses are applied: two tenants, a key of each,
  a session and a few messages, and an outside in which nothing fails.
\<close>

definition sample_env :: env where
  "sample_env = calm 100 (\<lambda>i. ''id'' @ replicate i (CHR ''x''))"

lemma sample_env_simps [simp]:
  "fault sample_env i = False" "nowAt sample_env i = 100" "fresh sample_env i = ''id'' @ replicate i (CHR ''x'')"
  by (simp_all add: sample_env_def)

definition sample_key :: "string \<Rightarrow> string \<Rightarrow> string \<Rightarrow> api_key_row" where
  "sample_key i t h =
     \<lparr>kr_ID = i, kr_TenantID = t, kr_Name = ''default'', kr_KeyHash = h, kr_KeyPrefix = ''wc_live_t'',
      kr_Scopes = ''messages:send'', kr_CreatedAt = 5, kr_LastUsedAt = None, kr_RevokedAt = None\<rparr>"

lemma sample_key_simps [simp]:
  "kr_ID (sample_key i t h) = i" "kr_TenantID (sample_key i t h) = t" "kr_KeyHash (sample_key i t h) = h"
  "kr_RevokedAt (sample_key i t h) = None" "kr_Scopes (sample_key i t h) = ''messages:send''"
  by (simp_all add: sample_key_def)

definition sample_message :: "string \<Rightarrow> string \<Rightarrow> string \<Rightarrow> gotime \<Rightarrow> Message" where
  "sample_message i t c ts =
     emptyMessage\<lparr>m_ID := i, m_TenantID := t, m_ChatJID := c, m_SenderJID := c, m_WAMessageID := ''wa-'' @ i,
       m_Direction := DirectionIn, m_Body := ''hola'', m_Timestamp := ts, m_CreatedAt := ts\<rparr>"

lemma sample_message_simps [simp]:
  "m_ID (sample_message i t c ts) = i" "m_TenantID (sample_message i t c ts) = t"
  "m_ChatJID (sample_message i t c ts) = c" "m_WAMessageID (sample_message i t c ts) = ''wa-'' @ i"
  "m_Direction (sample_message i t c ts) = DirectionIn" "m_Timestamp (sample_message i t c ts) = ts"
  "m_CreatedAt (sample_message i t c ts) = ts" "m_Body (sample_message i t c ts) = ''hola''"
  "m_MediaPath (sample_message i t c ts) = None" "m_SenderJID (sample_message i t c ts) = c"
  "m_MediaType (sample_message i t c ts) = None" "m_MediaStatus (sample_message i t c ts) = None"
  by (simp_all add: sample_message_def emptyMessage_def)

definition sample_db :: db where
  "sample_db =
     \<lparr>tenants = [\<lparr>t_ID = ''t1'', t_Name = ''Acme'', t_CreatedAt = 5\<rparr>, \<lparr>t_ID = ''t2'', t_Name = ''Zeta'', t_CreatedAt = 6\<rparr>],
      api_keys = [sample_key ''k1'' ''t1'' ''h1'', sample_key ''k2'' ''t2'' ''h2''],
      sessions = [\<lparr>s_ID = ''s1'', s_TenantID = ''t1'', s_WAJID = Some ''57300@s.whatsapp.net'',
                   s_Status = SessionConnected, s_CreatedAt = 5, s_UpdatedAt = 5\<rparr>],
      messages = [sample_message ''m1'' ''t1'' ''57311@s.whatsapp.net'' 10,
                  sample_message ''m2'' ''t1'' ''8888@lid'' 20,
                  sample_message ''m3'' ''t2'' ''57311@s.whatsapp.net'' 30],
      chats = [\<lparr>cr_TenantID = ''t1'', cr_ChatJID = ''g1@g.us'', cr_Name = ''Familia'', cr_UpdatedAt = 7\<rparr>],
      lid_map = Some [(''8888'', ''57311'')], lidMap = True\<rparr>"

lemma sample_db_simps [simp]:
  "api_keys sample_db = [sample_key ''k1'' ''t1'' ''h1'', sample_key ''k2'' ''t2'' ''h2'']"
  "map t_ID (tenants sample_db) = [''t1'', ''t2'']"
  "t_ID ` set (tenants sample_db) = {''t1'', ''t2''}"
  "map s_TenantID (sessions sample_db) = [''t1'']"
  "messages sample_db = [sample_message ''m1'' ''t1'' ''57311@s.whatsapp.net'' 10,
     sample_message ''m2'' ''t1'' ''8888@lid'' 20, sample_message ''m3'' ''t2'' ''57311@s.whatsapp.net'' 30]"
  "lid_map sample_db = Some [(''8888'', ''57311'')]" "lidMap sample_db = True"
  by (simp_all add: sample_db_def)

lemma sample_keys_ok: "keys_ok sample_db"
  by (simp add: keys_ok_def)

lemma sample_lids: "lid_map_ok sample_db"
  by (simp add: lid_map_ok_def lid_rows_def bare_user_def)

lemma Familia_trimmed: "TrimSpace ''Familia'' = ''Familia''"
  by (simp add: trim_eval)

lemma sample_db_ok: "db_ok sample_db"
proof -
  have "tenants_ok sample_db" by (simp add: tenants_ok_def sample_db_def)
  moreover have "sessions_ok sample_db"
    by (simp add: sessions_ok_def sample_db_def SessionStatus_Valid_def)
  moreover have "messages_ok sample_db" by (simp add: messages_ok_def)
  moreover have "chats_ok sample_db" by (simp add: chats_ok_def sample_db_def Familia_trimmed)
  ultimately show ?thesis using sample_keys_ok by (simp add: db_ok_def)
qed

end
