(* ===== verification/Repositories.thy ===== *)
theory Repositories
  imports Store MessageReads MediaFetch Samples
begin

text \<open>
  \<open>internal/store/repositories.go\<close> and the opening of the database in \<open>internal/store/store.go\<close>. The
  five interfaces are records of operations over a state; \<open>repositories\<close> is the value \<open>Open\<close> builds,
  whose accessors are the record's selectors. The locale \<open>message_log\<close> states what the comments of
  the interface \<open>Messages\<close> promise, over an abstract log, and is interpreted on the repository.
  \<open>buildDSN\<close> is written out with \<open>url.Values.Encode\<close>; \<open>filepath.Abs\<close> and the driver are arguments.
\<close>

section \<open>The interfaces\<close>

record 's Tenants_iface =
  tn_Create :: "env \<Rightarrow> Tenant \<Rightarrow> 's \<Rightarrow> store_error option \<times> 's"
  tn_Get :: "env \<Rightarrow> string \<Rightarrow> 's \<Rightarrow> store_error + Tenant"
  tn_List :: "env \<Rightarrow> 's \<Rightarrow> store_error + Tenant list"

record 's APIKeys_iface =
  ak_Create :: "env \<Rightarrow> APIKey \<Rightarrow> 's \<Rightarrow> store_error option \<times> 's"
  ak_GetByHash :: "env \<Rightarrow> string \<Rightarrow> 's \<Rightarrow> store_error + APIKey"
  ak_ListByTenant :: "env \<Rightarrow> string \<Rightarrow> 's \<Rightarrow> store_error + APIKey list"
  ak_Revoke :: "env \<Rightarrow> string \<Rightarrow> string \<Rightarrow> 's \<Rightarrow> store_error option \<times> 's"
  ak_MarkUsed :: "env \<Rightarrow> string \<Rightarrow> 's \<Rightarrow> store_error option \<times> 's"

record 's Sessions_iface =
  se_EnsureForTenant :: "env \<Rightarrow> string \<Rightarrow> 's \<Rightarrow> (store_error + Session) \<times> 's"
  se_GetByTenant :: "env \<Rightarrow> string \<Rightarrow> 's \<Rightarrow> store_error + Session"
  se_UpdateStatus :: "env \<Rightarrow> string \<Rightarrow> string \<Rightarrow> string \<Rightarrow> 's \<Rightarrow> store_error option \<times> 's"
  se_List :: "env \<Rightarrow> 's \<Rightarrow> store_error + Session list"

record 's Messages_iface =
  ms_Append :: "env \<Rightarrow> Message \<Rightarrow> 's \<Rightarrow> store_error option \<times> 's"
  ms_AppendBatch :: "env \<Rightarrow> Message list \<Rightarrow> 's \<Rightarrow> (store_error + nat) \<times> 's"
  ms_GetByID :: "env \<Rightarrow> string \<Rightarrow> string \<Rightarrow> 's \<Rightarrow> store_error + Message"
  ms_UpdateMedia :: "env \<Rightarrow> string \<Rightarrow> string \<Rightarrow> MediaUpdate \<Rightarrow> 's \<Rightarrow> store_error option \<times> 's"
  ms_OldestByChat :: "env \<Rightarrow> string \<Rightarrow> string \<Rightarrow> 's \<Rightarrow> (store_error + Message) \<times> 's"
  ms_SearchChats :: "env \<Rightarrow> string \<Rightarrow> string \<Rightarrow> int \<Rightarrow> 's \<Rightarrow> (store_error + string list) \<times> 's"
  ms_ListByChat :: "env \<Rightarrow> string \<Rightarrow> string \<Rightarrow> int \<Rightarrow> 's \<Rightarrow> (store_error + Message list) \<times> 's"
  ms_ListChats :: "env \<Rightarrow> string \<Rightarrow> int \<Rightarrow> 's \<Rightarrow> (store_error + Chat list) \<times> 's"
  ms_Search :: "env \<Rightarrow> string \<Rightarrow> string \<Rightarrow> int \<Rightarrow> 's \<Rightarrow> store_error + Message list"

record 's Chats_iface =
  ch_Upsert :: "env \<Rightarrow> string \<Rightarrow> NamedChat \<Rightarrow> 's \<Rightarrow> store_error option \<times> 's"
  ch_UpsertBatch :: "env \<Rightarrow> string \<Rightarrow> NamedChat list \<Rightarrow> 's \<Rightarrow> store_error option \<times> 's"
  ch_Search :: "env \<Rightarrow> string \<Rightarrow> string \<Rightarrow> int \<Rightarrow> 's \<Rightarrow> store_error + NamedChat list"

text \<open>\<open>DB\<close> with its five accessors.\<close>

record 's DB =
  db_Tenants :: "'s Tenants_iface"
  db_APIKeys :: "'s APIKeys_iface"
  db_Sessions :: "'s Sessions_iface"
  db_Messages :: "'s Messages_iface"
  db_Chats :: "'s Chats_iface"

definition repositories :: "db DB" where
  "repositories =
     \<lparr>db_Tenants = \<lparr>tn_Create = tenant_Create, tn_Get = tenant_Get, tn_List = tenant_List\<rparr>,
      db_APIKeys = \<lparr>ak_Create = apikey_Create, ak_GetByHash = apikey_GetByHash,
        ak_ListByTenant = apikey_ListByTenant, ak_Revoke = apikey_Revoke, ak_MarkUsed = apikey_MarkUsed\<rparr>,
      db_Sessions = \<lparr>se_EnsureForTenant = session_EnsureForTenant, se_GetByTenant = session_GetByTenant,
        se_UpdateStatus = session_UpdateStatus, se_List = session_List\<rparr>,
      db_Messages = \<lparr>ms_Append = message_Append, ms_AppendBatch = message_AppendBatch, ms_GetByID = message_GetByID,
        ms_UpdateMedia = message_UpdateMedia, ms_OldestByChat = message_OldestByChat,
        ms_SearchChats = message_SearchChats, ms_ListByChat = message_ListByChat, ms_ListChats = message_ListChats,
        ms_Search = message_Search\<rparr>,
      db_Chats = \<lparr>ch_Upsert = chat_Upsert, ch_UpsertBatch = chat_UpsertBatch, ch_Search = chat_Search\<rparr>\<rparr>"

section \<open>The promise of the message log\<close>

text \<open>
  \<open>log\<close> is what a state holds, oldest entry first. A message that is already there, by tenant and
  WhatsApp identifier, is not stored again; a batch reports how many messages were new and is all or
  nothing; a media update touches the bookkeeping of a fetch only; a look-up by identifier stays with
  the tenant that asks.
\<close>

lemma same_wa_message_forget: "same_wa_message m (forget_fetch r) = same_wa_message m r"
  by (simp add: same_wa_message_def forget_fetch_def)

locale message_log =
  fixes M :: "'s Messages_iface"
    and log :: "'s \<Rightarrow> Message list"
  assumes append_holds: "ms_Append M E m s = (None, s') \<Longrightarrow> list_ex (same_wa_message m) (log s')"
    and append_repeat: "ms_Append M E m s = (e, s') \<Longrightarrow> list_ex (same_wa_message m) (log s) \<Longrightarrow> s' = s"
    and append_grows: "ms_Append M E m s = (e, s') \<Longrightarrow> \<exists>new. log s' = log s @ new"
    and batch_counts: "ms_AppendBatch M E ms s = (Inr n, s') \<Longrightarrow>
      \<exists>new. log s' = log s @ new \<and> n = length new \<and> (\<forall>m\<in>set ms. list_ex (same_wa_message m) (log s'))"
    and batch_fails: "ms_AppendBatch M E ms s = (Inl err, s') \<Longrightarrow> s' = s"
    and get_own: "ms_GetByID M E t i s = Inr m \<Longrightarrow> m \<in> set (log s) \<and> m_TenantID m = t \<and> i \<in> {m_ID m, m_WAMessageID m}"
    and media_only: "map forget_fetch (log (snd (ms_UpdateMedia M E t i u s))) = map forget_fetch (log s)"
begin

lemma redelivered:
  assumes "ms_Append M E m s = (None, s1)" and "ms_Append M E' m s1 = (e, s2)"
  shows "s2 = s1"
  using append_repeat [OF assms(2) append_holds [OF assms(1)]] .

text \<open>The live stream repeats what a history batch brought, and the other way round.\<close>

lemma live_after_batch:
  assumes "ms_AppendBatch M E ms s = (Inr n, s1)" and "m \<in> set ms" and "ms_Append M E' m s1 = (e, s2)"
  shows "s2 = s1"
  using append_repeat [OF assms(3)] batch_counts [OF assms(1)] assms(2) by blast

lemma held_after_batch:
  assumes "list_ex (same_wa_message m) (log s)" and "ms_AppendBatch M E ms s = (r, s')"
  shows "list_ex (same_wa_message m) (log s')"
  using assms batch_counts [of E ms s _ s'] batch_fails [of E ms s _ s'] by (cases r) auto

lemma held_after_media:
  "list_ex (same_wa_message m) (log (snd (ms_UpdateMedia M E t i u s))) = list_ex (same_wa_message m) (log s)"
proof -
  have ex: "list_ex (same_wa_message m) xs = list_ex (same_wa_message m) (map forget_fetch xs)" for xs
    by (induction xs) (simp_all add: same_wa_message_forget)
  show ?thesis using media_only [of E t i u s] ex by metis
qed

end

lemma message_Append_held:
  assumes "message_Append E m d = (e, d')" and "list_ex (same_wa_message m) (messages d)"
  shows "d' = d"
  using message_Append_db [OF assms(1)]
proof
  assume "\<exists>m'. prepareMessage E 0 m = Inr m' \<and> insertMessage m' d = Some (1, d')"
  then obtain m' where p: "prepareMessage E 0 m = Inr m'" "insertMessage m' d = Some (1, d')" by blast
  have "same_wa_message m' = same_wa_message m" using prepareMessage_Inr(1,4) [OF p(1)] by (auto simp: same_wa_message_def fun_eq_iff)
  with p(2) assms(2) show ?thesis by (simp add: insertMessage_def)
qed

interpretation log: message_log "db_Messages repositories" messages
proof
  fix E m s s' e ms n err t i u
  show "ms_Append (db_Messages repositories) E m s = (None, s') \<Longrightarrow> list_ex (same_wa_message m) (messages s')"
    using message_Append_ok(1) by (simp add: repositories_def)
  show "ms_Append (db_Messages repositories) E m s = (e, s') \<Longrightarrow> list_ex (same_wa_message m) (messages s) \<Longrightarrow> s' = s"
    using message_Append_held [of E m s e s'] by (simp add: repositories_def)
  show "ms_Append (db_Messages repositories) E m s = (e, s') \<Longrightarrow> \<exists>new. messages s' = messages s @ new"
    using message_Append_db [of E m s e s'] by (auto simp: repositories_def elim: insertMessage_Some)
  show "ms_AppendBatch (db_Messages repositories) E ms s = (Inr n, s') \<Longrightarrow>
      \<exists>new. messages s' = messages s @ new \<and> n = length new \<and> (\<forall>m\<in>set ms. list_ex (same_wa_message m) (messages s'))"
    using message_AppendBatch_ok [of E ms s n s'] by (auto simp: repositories_def)
  show "ms_AppendBatch (db_Messages repositories) E ms s = (Inl err, s') \<Longrightarrow> s' = s"
    using message_AppendBatch_error [of E ms s err s'] by (simp add: repositories_def)
  show "ms_GetByID (db_Messages repositories) E t i s = Inr m \<Longrightarrow>
      m \<in> set (messages s) \<and> m_TenantID m = t \<and> i \<in> {m_ID m, m_WAMessageID m}"
    using message_GetByID_found [of E t i s m] by (auto simp: repositories_def)
  obtain e' d' where u: "message_UpdateMedia E t i u s = (e', d')" by fastforce
  show "map forget_fetch (messages (snd (ms_UpdateMedia (db_Messages repositories) E t i u s))) = map forget_fetch (messages s)"
    using message_UpdateMedia_db [OF u] by (auto simp: repositories_def u)
qed

lemma held_after_run:
  assumes "store_step\<^sup>*\<^sup>* d d'" and "list_ex (same_wa_message m) (messages d)"
  shows "list_ex (same_wa_message m) (messages d')"
proof -
  obtain r where r: "r \<in> set (messages d)" "same_wa_message m r" using assms(2) by (auto simp: list_ex_iff)
  have "rows_grow message_step (messages d) (messages d')" using store_run_grows [OF assms(1)] by (simp add: db_grows_def)
  then obtain r' where "r' \<in> set (messages d')" "message_step r r'" using rows_grow_member r(1) by metis
  moreover have "same_wa_message m r'"
    using calculation(2) r(2) same_wa_message_forget [of m r] same_wa_message_forget [of m r'] by (simp add: message_step_def)
  ultimately show ?thesis by (auto simp: list_ex_iff)
qed



section \<open>Opening the database\<close>

text \<open>\<open>url.QueryEscape\<close>.\<close>

definition unreserved :: "char \<Rightarrow> bool" where
  "unreserved c \<longleftrightarrow>
     (let n = of_char c :: nat in
      48 \<le> n \<and> n \<le> 57 \<or> 65 \<le> n \<and> n \<le> 90 \<or> 97 \<le> n \<and> n \<le> 122) \<or> c \<in> set ''-_.~''"

definition upper_hex :: "nat \<Rightarrow> char" where
  "upper_hex n = (if n < 10 then char_of (48 + n) else char_of (55 + n))"

definition QueryEscape :: "string \<Rightarrow> string" where
  "QueryEscape s =
     concat (map (\<lambda>c. if unreserved c then [c] else if c = CHR '' '' then ''+''
       else [CHR ''%'', upper_hex (of_char c div 16), upper_hex (of_char c mod 16)]) s)"

text \<open>\<open>url.Values.Encode\<close> of the values of one key.\<close>

definition Encode :: "string \<Rightarrow> string list \<Rightarrow> string" where
  "Encode key vs = Join (map (\<lambda>v. QueryEscape key @ ''='' @ QueryEscape v) vs) (CHR ''&'')"

definition pragmas :: "string list" where
  "pragmas = [''busy_timeout(5000)'', ''foreign_keys(1)'', ''journal_mode(WAL)'', ''synchronous(NORMAL)'']"

definition buildDSN :: "(string \<Rightarrow> string option) \<Rightarrow> string \<Rightarrow> store_error + string" where
  "buildDSN absolute path =
     (if path = [] \<or> suffix '':memory:'' path
      then Inr (''file::memory:?cache=shared&'' @ Encode ''_pragma'' pragmas)
      else case absolute path of
        None \<Rightarrow> Inl (StoreError ''store: resolve database path'')
      | Some p \<Rightarrow> Inr (''file:'' @ p @ ''?'' @ Encode ''_pragma'' pragmas))"

text \<open>\<open>sql.Open\<close> of a data source gives a handle; the ping decides whether it can be used.\<close>

definition Open ::
  "(string \<Rightarrow> string option) \<Rightarrow> (string \<Rightarrow> 'h option) \<Rightarrow> ('h \<Rightarrow> bool) \<Rightarrow> string \<Rightarrow> store_error + 'h \<times> db DB" where
  "Open absolute sql_Open ping path =
     (case buildDSN absolute path of
        Inl e \<Rightarrow> Inl e
      | Inr dsn \<Rightarrow>
          (case sql_Open dsn of
             None \<Rightarrow> Inl (StoreError ''store: open database'')
           | Some handle \<Rightarrow>
               if \<not> ping handle then Inl (StoreError ''store: ping database'') else Inr (handle, repositories)))"

section \<open>What the driver reads back\<close>

definition hex_value :: "char \<Rightarrow> nat" where
  "hex_value c = (if of_char c < (58 :: nat) then of_char c - 48 else of_char c - 55)"

fun unescape :: "string \<Rightarrow> string" where
  "unescape [] = []"
| "unescape (c # s) =
     (if c = CHR ''%'' then (case s of h # l # s' \<Rightarrow> char_of (16 * hex_value h + hex_value l) # unescape s' | _ \<Rightarrow> [])
      else (if c = CHR ''+'' then CHR '' '' else c) # unescape s)"

definition query_values :: "string \<Rightarrow> (string \<times> string) list" where
  "query_values q =
     map (\<lambda>part. case Cut part (CHR ''='') of (k, v, _) \<Rightarrow> (unescape k, unescape v)) (Split q (CHR ''&''))"

lemma hex_value_upper: "n < 16 \<Longrightarrow> hex_value (upper_hex n) = n"
  by (simp add: hex_value_def upper_hex_def)

lemma of_char_div: "of_char c div 16 < (16 :: nat)"
proof (rule less_mult_imp_div_less)
  have "of_char c \<in> {0 :: nat..<256}" unfolding range_nat_of_char [symmetric] by simp
  then show "of_char c < (16 * 16 :: nat)" by simp
qed

lemma unescape_escaped:
  "unescape ((if unreserved c then [c] else if c = CHR '' '' then ''+''
     else [CHR ''%'', upper_hex (of_char c div 16), upper_hex (of_char c mod 16)]) @ s) = c # unescape s"
proof -
  have "of_char c div 16 < (16 :: nat)" by (rule of_char_div)
  then have "16 * hex_value (upper_hex (of_char c div 16)) + hex_value (upper_hex (of_char c mod 16)) = (of_char c :: nat)"
    by (simp add: hex_value_upper)
  then have again: "char_of (16 * hex_value (upper_hex (of_char c div 16)) + hex_value (upper_hex (of_char c mod 16))) = c"
    by (simp only: char_of_char)
  have "\<not> unreserved (CHR ''%'')" "\<not> unreserved (CHR ''+'')" by (simp_all add: unreserved_def Let_def)
  then have "c \<noteq> CHR ''%'' \<and> c \<noteq> CHR ''+''" if "unreserved c" using that by auto
  with again show ?thesis by (cases "unreserved c"; cases "c = CHR '' ''") (simp_all add: Let_def)
qed

lemma unescape_QueryEscape: "unescape (QueryEscape s) = s"
proof (induction s)
  case (Cons c s)
  then show ?case using unescape_escaped [of c "QueryEscape s"] by (simp add: QueryEscape_def)
qed (simp add: QueryEscape_def)

lemma QueryEscape_plain:
  assumes "x \<in> set (QueryEscape s)"
  shows "x \<noteq> CHR ''&'' \<and> x \<noteq> CHR ''='' \<and> x \<noteq> CHR ''?''"
proof -
  have hex: "upper_hex n \<noteq> CHR ''&'' \<and> upper_hex n \<noteq> CHR ''='' \<and> upper_hex n \<noteq> CHR ''?''" if "n < 16" for n
  proof -
    have "of_char (upper_hex n) = (if n < 10 then 48 + n else 55 + n)" using that by (simp add: upper_hex_def)
    then have "of_char (upper_hex n) \<notin> {38 :: nat, 61, 63}" using that by (simp split: if_splits)
    then show ?thesis by (auto dest: arg_cong [of _ _ "of_char :: char \<Rightarrow> nat"])
  qed
  obtain c where c: "x \<in> set (if unreserved c then [c] else if c = CHR '' '' then ''+''
      else [CHR ''%'', upper_hex (of_char c div 16), upper_hex (of_char c mod 16)])"
    using assms unfolding QueryEscape_def set_concat set_map by blast
  have "of_char c div 16 < (16 :: nat)" by (rule of_char_div)
  with c hex [of "of_char c div 16"] hex [of "of_char c mod 16"] show ?thesis
    by (auto simp: unreserved_def Let_def split: if_splits)
qed

lemma Encode_values:
  assumes "vs \<noteq> []"
  shows "query_values (Encode key vs) = map (\<lambda>v. (key, v)) vs"
proof -
  have "Split (Encode key vs) (CHR ''&'') = map (\<lambda>v. QueryEscape key @ ''='' @ QueryEscape v) vs"
    unfolding Encode_def using assms QueryEscape_plain by (intro Split_Join) auto
  moreover have "Cut (QueryEscape key @ CHR ''='' # QueryEscape v) (CHR ''='') = (QueryEscape key, QueryEscape v, True)" for v
    by (rule Cut_append) (use QueryEscape_plain in blast)
  ultimately show ?thesis by (simp add: query_values_def unescape_QueryEscape)
qed

lemma memory_values:
  assumes "vs \<noteq> []"
  shows "query_values (''cache=shared&'' @ Encode key vs) = (''cache'', ''shared'') # map (\<lambda>v. (key, v)) vs"
  using Encode_values [OF assms, of key] Split_append [of "CHR ''&''" "''cache=shared''"]
  by (simp add: query_values_def Cut_def)

text \<open>C40. Whatever database path is configured, the connection enforces foreign keys, waits for locks,
  writes ahead and syncs normally: the part of the data source name after its question mark decodes
  to exactly the four pragmas, in order, as long as the resolved path has no question mark of its own.\<close>

lemma dsn_pragmas:
  assumes d: "buildDSN absolute path = Inr dsn" and q: "\<forall>p. absolute path = Some p \<longrightarrow> CHR ''?'' \<notin> set p"
  shows "\<exists>name query. Cut dsn (CHR ''?'') = (name, query, True) \<and>
     map snd (filter (\<lambda>v. fst v = ''_pragma'') (query_values query)) =
       [''busy_timeout(5000)'', ''foreign_keys(1)'', ''journal_mode(WAL)'', ''synchronous(NORMAL)'']"
proof -
  have ps: "map snd (filter (\<lambda>v. fst v = k) (map (\<lambda>v. (k, v)) vs)) = vs" for k :: string and vs :: "string list"
    by (induction vs) auto
  have ne: "pragmas \<noteq> []" by (simp add: pragmas_def)
  show ?thesis
  proof (cases "path = [] \<or> suffix '':memory:'' path")
    case True
    then have "dsn = ''file::memory:'' @ CHR ''?'' # ''cache=shared&'' @ Encode ''_pragma'' pragmas"
      using d by (simp add: buildDSN_def)
    then have "Cut dsn (CHR ''?'') = (''file::memory:'', ''cache=shared&'' @ Encode ''_pragma'' pragmas, True)"
      by (simp only: Cut_found) simp
    then show ?thesis using memory_values [OF ne, of "''_pragma''"] ps [of "''_pragma''" pragmas] by (simp add: pragmas_def)
  next
    case False
    then obtain p where p: "absolute path = Some p" "dsn = (''file:'' @ p) @ CHR ''?'' # Encode ''_pragma'' pragmas"
      using d by (auto simp: buildDSN_def split: option.splits)
    then have "Cut dsn (CHR ''?'') = (''file:'' @ p, Encode ''_pragma'' pragmas, True)"
      using q by (simp only: Cut_found) simp
    then show ?thesis using Encode_values [OF ne, of "''_pragma''"] ps [of "''_pragma''" pragmas] by (simp add: pragmas_def)
  qed
qed

lemma dsn_pragmas_witness:
  "\<exists>dsn name query. buildDSN (\<lambda>p. Some (''/srv/'' @ p)) ''wc.db'' = Inr dsn \<and> Cut dsn (CHR ''?'') = (name, query, True) \<and>
     ''foreign_keys(1)'' \<in> set (map snd (query_values query))"
proof -
  obtain dsn where d: "buildDSN (\<lambda>p. Some (''/srv/'' @ p)) ''wc.db'' = Inr dsn"
    by (cases "suffix '':memory:'' ''wc.db''") (simp_all add: buildDSN_def)
  from dsn_pragmas [OF d] obtain name query where q: "Cut dsn (CHR ''?'') = (name, query, True)"
    "map snd (filter (\<lambda>v. fst v = ''_pragma'') (query_values query)) =
       [''busy_timeout(5000)'', ''foreign_keys(1)'', ''journal_mode(WAL)'', ''synchronous(NORMAL)'']" by auto
  have "''foreign_keys(1)'' \<in> set (map snd (filter (\<lambda>v. fst v = ''_pragma'') (query_values query)))" unfolding q(2) by simp
  then have "''foreign_keys(1)'' \<in> set (map snd (query_values query))" by auto
  with d q(1) show ?thesis by blast
qed

end
