(* ===== verification/Startup.thy ===== *)
theory Startup
  imports Config Migrate HttpHandlers Repositories
begin

text \<open>
  How the parts are put together: \<open>NewManager\<close> of \<open>internal/wa/manager.go\<close> and \<open>run\<close> and
  \<open>healthcheckPort\<close> of \<open>cmd/gateway/main.go\<close>. \<open>startup\<close> is \<open>run\<close> up to the point where the
  HTTP server starts to listen; the listener, the signals and the shutdown are the operating
  system's. What the outside answers is the argument \<open>B\<close>: whether the directories can be made,
  what the database file behind a data source name holds, what whatsmeow's own upgrade makes of it, which media files are there.
\<close>

section \<open>The manager\<close>

record ManagerOptions =
  mo_HistoryScope :: string
  mo_HistoryTimeout :: int
  mo_MediaDir :: string
  mo_MediaMaxBytes :: int
  mo_MediaFetchTypes :: "string list"

definition with_defaults :: "ManagerOptions \<Rightarrow> ManagerOptions" where
  "with_defaults opts =
     \<lparr>mo_HistoryScope = (if mo_HistoryScope opts = [] then HistorySyncScopeDM else mo_HistoryScope opts),
      mo_HistoryTimeout = (if mo_HistoryTimeout opts \<le> 0 then DefaultHistorySyncTimeout else mo_HistoryTimeout opts),
      mo_MediaDir = (if mo_MediaDir opts = [] then DefaultMediaDir else mo_MediaDir opts),
      mo_MediaMaxBytes = (if mo_MediaMaxBytes opts \<le> 0 then DefaultMediaMaxBytes else mo_MediaMaxBytes opts),
      mo_MediaFetchTypes = (if mo_MediaFetchTypes opts = [] then DefaultMediaFetchTypes else mo_MediaFetchTypes opts)\<rparr>"

text \<open>
  \<open>upgrade\<close> is \<open>container.Upgrade\<close>, which creates whatsmeow's tables in the same file. The result
  is the manager, the settings of its media fetcher and its history timeout.
\<close>

definition NewManager ::
  "(db \<Rightarrow> db option) \<Rightarrow> unicode_lower \<Rightarrow> (fetch_cause \<Rightarrow> string) \<Rightarrow> ManagerOptions \<Rightarrow> db \<Rightarrow>
   wa_error + ('j manager \<times> settings \<times> int)" where
  "NewManager upgrade utl errtext opts0 d =
     (let opts = with_defaults opts0 in
      case upgrade d of
        None \<Rightarrow> Inl (WAFailure ''wa: upgrade whatsmeow schema'')
      | Some d' \<Rightarrow>
          Inr (\<lparr>mg_db = d', mg_pending = newPendingHistory, mg_unresolved = 0, mg_clients = (\<lambda>_. None),
                mg_scope = mo_HistoryScope opts\<rparr>,
               \<lparr>se_utl = utl, se_errtext = errtext, se_mediaDir = mo_MediaDir opts,
                se_mediaMaxBytes = mo_MediaMaxBytes opts,
                se_mediaAllowed = allowedMediaTypes utl (mo_MediaFetchTypes opts)\<rparr>,
               mo_HistoryTimeout opts))"

section \<open>The process\<close>

definition healthcheckPort :: "(string \<Rightarrow> string) \<Rightarrow> string" where
  "healthcheckPort getenv =
     (let bindAddr = TrimSpace (getenv ''BIND_ADDR''); port = TrimSpace (getenv ''PORT'') in
      case (if bindAddr \<noteq> [] then SplitHostPort bindAddr else None) of
        Some (_, p) \<Rightarrow> if p \<noteq> [] then p else if port \<noteq> [] then port else ''8080''
      | None \<Rightarrow> if port \<noteq> [] then port else ''8080'')"

record 'j boot =
  bo_dirs :: bool
  bo_abs :: "string \<Rightarrow> string option"
  bo_open :: "string \<Rightarrow> db schema option"
  bo_ping :: bool
  bo_sql :: "string \<Rightarrow> db \<Rightarrow> db option"
  bo_fault :: "nat \<Rightarrow> bool"
  bo_entries :: "string list"
  bo_upgrade :: "db \<Rightarrow> db option"
  bo_env :: env
  bo_container :: "'j container"
  bo_errtext :: "fetch_cause \<Rightarrow> string"
  bo_files :: "string \<Rightarrow> fnode option"

datatype start_error =
    StartConfig config_error | StartDirs | StartOpen store_error | StartMigrate migrate_error | StartManager wa_error

record 'j running =
  ru_Config :: Gateway
  ru_Settings :: settings
  ru_HistoryTimeout :: int
  ru_Gateway :: "'j engine gateway"

text \<open>A failed \<open>RestoreSessions\<close> is logged and the gateway starts without those clients.\<close>

definition startup ::
  "'j boot \<Rightarrow> 'j jid_lib \<Rightarrow> unicode_lower \<Rightarrow> (string \<Rightarrow> int option) \<Rightarrow> (string \<Rightarrow> string) \<Rightarrow> start_error + 'j running" where
  "startup B L utl dur getenv =
     (case LoadGateway utl dur getenv of
        Inl e \<Rightarrow> Inl (StartConfig e)
      | Inr cfg \<Rightarrow>
          if \<not> bo_dirs B then Inl StartDirs
          else case Open (bo_abs B) (bo_open B) (\<lambda>_. bo_ping B) (ga_DBPath cfg) of
            Inl e \<Rightarrow> Inl (StartOpen e)
          | Inr (s0, _) \<Rightarrow>
              (case Migrate (bo_sql B) (bo_fault B) (bo_entries B) s0 of
                 (Some e, _) \<Rightarrow> Inl (StartMigrate e)
               | (None, s1) \<Rightarrow>
                   (case NewManager (bo_upgrade B) utl (bo_errtext B)
                       \<lparr>mo_HistoryScope = ga_HistorySyncScope cfg, mo_HistoryTimeout = ga_HistorySyncTimeout cfg,
                        mo_MediaDir = ga_MediaDir cfg, mo_MediaMaxBytes = ga_MediaMaxBytes cfg,
                        mo_MediaFetchTypes = ga_MediaFetchTypes cfg\<rparr> (content s1) of
                      Inl e \<Rightarrow> Inl (StartManager e)
                    | Inr (m0, S, timeout) \<Rightarrow>
                        (case RestoreSessions (bo_env B) L (bo_container B) m0 of
                           (_, m1) \<Rightarrow>
                             Inr \<lparr>ru_Config = cfg, ru_Settings = S, ru_HistoryTimeout = timeout,
                                  ru_Gateway = \<lparr>gw_db = mg_db m1,
                                    gw_wa = \<lparr>en_manager = m1, en_files = bo_files B, en_net = []\<rparr>\<rparr>\<rparr>))))"

text \<open>\<open>httpapi.New\<close> with the configuration \<open>run\<close> gives it: no default scopes.\<close>

definition running_server ::
  "'j outside \<Rightarrow> 'j jid_lib \<Rightarrow> media_classes \<Rightarrow> 'j running \<Rightarrow> new_error + 'j engine Server" where
  "running_server Ou L gmt st =
     New (ga_AdminToken (ru_Config st)) (manager_sessions Ou (ru_Settings st) L gmt) []
       (ga_MCPAllowedOrigins (ru_Config st))"

section \<open>What a started gateway is\<close>

lemma known_types_plain:
  "list_all (\<lambda>t. t \<noteq> [] \<and> hd t \<notin> set space_heads \<and> last t \<notin> set space_tails) knownMediaTypes"
  "list_all is_ascii knownMediaTypes" "list_all (\<lambda>t. map lower_byte t = t) knownMediaTypes"
    apply (simp add: knownMediaTypes_def space_heads_def space_tails_def space_runes_def)
   apply (simp add: knownMediaTypes_def is_ascii_def)
  apply (simp add: knownMediaTypes_def lower_byte_def less_eq_char_def)
  done

lemma allowed_known:
  assumes "set ts \<subseteq> set knownMediaTypes"
  shows "allowedMediaTypes utl ts = ts"
proof -
  have k: "t \<noteq> [] \<and> ToLower utl (TrimSpace t) = t" if "t \<in> set ts" for t
    using known_types_plain assms that TrimSpace_edges [of t] by (auto simp: list_all_iff ToLower_def)
  have "map (\<lambda>t. ToLower utl (TrimSpace t)) ts = ts" by (rule map_idI) (simp add: k)
  then show ?thesis using k by (simp add: allowedMediaTypes_def)
qed

lemma default_types_known: "DefaultMediaFetchTypes \<noteq> [] \<and> set DefaultMediaFetchTypes \<subseteq> set knownMediaTypes"
  by (simp add: DefaultMediaFetchTypes_def knownMediaTypes_def)

lemma fetch_types_known:
  assumes "ParseMediaFetchTypes utl raw = Inr ts"
  shows "ts \<noteq> [] \<and> set ts \<subseteq> set knownMediaTypes"
proof (cases "splitList (ToLower utl raw) = []")
  case True
  with assms default_types_known show ?thesis by (simp add: ParseMediaFetchTypes_def)
next
  case False
  with assms have "find (\<lambda>part. part \<notin> set knownMediaTypes) ts = None \<and> ts = splitList (ToLower utl raw)"
    by (auto simp: ParseMediaFetchTypes_def Let_def split: option.splits)
  with False show ?thesis by (auto simp: find_None_iff)
qed

lemma history_scope_known:
  "ParseHistorySyncScope utl raw = Inr s \<Longrightarrow> s \<in> {HistorySyncScopeDM, HistorySyncScopeDMGroup, HistorySyncScopeAll}"
  by (auto simp: ParseHistorySyncScope_def Let_def split: if_splits)

lemma max_bytes_positive: "ParseMediaMaxBytes raw = Inr n \<Longrightarrow> 0 < n"
  by (auto simp: ParseMediaMaxBytes_def Let_def DefaultMediaMaxBytes_def split: if_splits option.splits)

lemma timeout_positive: "parseHistorySyncTimeout dur raw = Inr n \<Longrightarrow> 0 < n"
  by (auto simp: parseHistorySyncTimeout_def Let_def DefaultHistorySyncTimeout_def split: if_splits option.splits)

lemma resolveBindAddr_Inr:
  assumes "resolveBindAddr bindAddr port = Inr (addr, n)"
  shows "1 \<le> n \<and> n \<le> 65535" and "\<exists>host. SplitHostPort addr = Some (host, Itoa n) \<and> addr = JoinHostPort host (Itoa n)"
proof -
  obtain a host raw where a: "SplitHostPort a = Some (host, raw)" "parsePort raw = Inr n"
    "addr = JoinHostPort host (Itoa n)"
    using assms by (auto simp: resolveBindAddr_def Let_def split: if_splits option.splits sum.splits)
  show n: "1 \<le> n \<and> n \<le> 65535" by (rule parsePort_Inr [OF a(2)])
  have "SplitHostPort addr = Some (host, Itoa n)"
    unfolding a(3) using SplitHostPort_host [OF a(1)] Itoa_plain [of n] n by (intro SplitHostPort_Join) auto
  with a(3) show "\<exists>host. SplitHostPort addr = Some (host, Itoa n) \<and> addr = JoinHostPort host (Itoa n)" by blast
qed

lemma LoadGateway_parts:
  assumes "LoadGateway utl dur getenv = Inr cfg"
  shows "ga_AdminToken cfg = TrimSpace (getenv ''ADMIN_TOKEN'') \<and> ga_AdminToken cfg \<noteq> [] \<and>
    resolveBindAddr (TrimSpace (getenv ''BIND_ADDR'')) (TrimSpace (getenv ''PORT'')) = Inr (ga_BindAddr cfg, ga_Port cfg) \<and>
    ParseHistorySyncScope utl (getenv ''HISTORY_SYNC_SCOPE'') = Inr (ga_HistorySyncScope cfg) \<and>
    parseHistorySyncTimeout dur (getenv ''HISTORY_SYNC_TIMEOUT'') = Inr (ga_HistorySyncTimeout cfg) \<and>
    ParseMediaMaxBytes (getenv ''MEDIA_MAX_BYTES'') = Inr (ga_MediaMaxBytes cfg) \<and>
    ParseMediaFetchTypes utl (getenv ''MEDIA_FETCH_TYPES'') = Inr (ga_MediaFetchTypes cfg) \<and>
    ga_MediaDir cfg = envOr getenv ''MEDIA_DIR'' DefaultMediaDir"
proof -
  define token where "token = TrimSpace (getenv ''ADMIN_TOKEN'')"
  define rb where "rb = resolveBindAddr (TrimSpace (getenv ''BIND_ADDR'')) (TrimSpace (getenv ''PORT''))"
  define rs where "rs = ParseHistorySyncScope utl (getenv ''HISTORY_SYNC_SCOPE'')"
  define rt where "rt = parseHistorySyncTimeout dur (getenv ''HISTORY_SYNC_TIMEOUT'')"
  define rm where "rm = ParseMediaMaxBytes (getenv ''MEDIA_MAX_BYTES'')"
  define rf where "rf = ParseMediaFetchTypes utl (getenv ''MEDIA_FETCH_TYPES'')"
  note defs = token_def [symmetric] rb_def [symmetric] rs_def [symmetric] rt_def [symmetric]
    rm_def [symmetric] rf_def [symmetric]
  show ?thesis
    using assms unfolding LoadGateway_def Let_def defs
    by (cases rb; cases rs; cases rt; cases rm; cases rf) (simp_all split: if_split_asm prod.split_asm, force+)
qed

lemma LoadGateway_Inr:
  assumes "LoadGateway utl dur getenv = Inr cfg"
  shows "ga_AdminToken cfg \<noteq> []"
    and "resolveBindAddr (TrimSpace (getenv ''BIND_ADDR'')) (TrimSpace (getenv ''PORT'')) = Inr (ga_BindAddr cfg, ga_Port cfg)"
    and "ga_HistorySyncScope cfg \<in> {HistorySyncScopeDM, HistorySyncScopeDMGroup, HistorySyncScopeAll}"
    and "0 < ga_HistorySyncTimeout cfg" and "0 < ga_MediaMaxBytes cfg"
    and "ga_MediaFetchTypes cfg \<noteq> [] \<and> set (ga_MediaFetchTypes cfg) \<subseteq> set knownMediaTypes"
    and "ga_MediaDir cfg \<noteq> []"
  using LoadGateway_parts [OF assms] history_scope_known timeout_positive max_bytes_positive fetch_types_known
  by (blast, blast, blast, blast, blast, blast, simp add: envOr_def Let_def DefaultMediaDir_def)

end
