(* ===== verification/AuthProps.thy ===== *)
theory AuthProps
  imports Resolver Samples
begin

text \<open>
  What the credentials of the gateway promise: scopes, secrets, the life of an API key and the
  guards of the HTTP surface, over the repository that stands behind the resolver.
\<close>

section \<open>Scopes\<close>

text \<open>C35. A permission check decides exactly this: the required scope is a concrete
  resource and action, and some granted scope is the wildcard, that scope, or that resource's
  wildcard. Blank grants, malformed grants and wildcards in the request never give access.\<close>

lemma scope_decision:
  "HasScope granted required \<longleftrightarrow>
     (\<exists>r a g. TrimSpace required = r @ '':'' @ a \<and> CHR '':'' \<notin> set r \<and> r \<noteq> [] \<and> a \<noteq> [] \<and>
        CHR ''*'' \<notin> set (r @ a) \<and> g \<in> set granted \<and>
        TrimSpace g \<in> {''*'', r @ '':'' @ a, r @ '':*''})"
proof -
  have "concrete_scope s r a \<longleftrightarrow>
      s = r @ '':'' @ a \<and> CHR '':'' \<notin> set r \<and> r \<noteq> [] \<and> a \<noteq> [] \<and> CHR ''*'' \<notin> set (r @ a)" for s r a
    by (auto simp: concrete_scope_def)
  moreover have "permits g r a \<longleftrightarrow> g \<in> {''*'', r @ '':'' @ a, r @ '':*''}" for g r a
    by (simp add: permits_def)
  ultimately show ?thesis by (simp only: HasScope_char) blast
qed

text \<open>Storing a key's scopes as text and reading them back neither adds nor removes authority.\<close>

lemma scopes_survive_storage:
  assumes "ValidateScopes ss = None"
  shows "HasScope (ParseScopes (FormatScopes ss)) required = HasScope ss required"
  using assms by (rule HasScope_stored)

section \<open>Secrets\<close>

text \<open>C36. Every issued key is \<open>wc_live_\<close>, at most eight lower-case letters and digits of the
  tenant's identifier, and 43 base-62 characters from which the 32 random bytes can be read
  back; what is stored is its SHA-256 in hex, which verifies it, and the part that is shown
  leaves out all but six characters of the secret.\<close>

lemma issued_key_shape:
  assumes "GenerateKey utl (Some raw) t = Inr k" and "length raw = 32"
  shows "\<exists>short secret.
     Plaintext k = ''wc_live_'' @ short @ ''_'' @ secret \<and>
     short = take 8 (filter lower_alnum (ToLower utl t)) \<and> short \<noteq> [] \<and>
     length secret = 43 \<and> set secret \<subseteq> set base62Alphabet \<and> decodeBase62 secret = SetBytes raw \<and>
     Hash k = HashKey (Plaintext k) \<and> VerifyKey utl (Plaintext k) (Hash k) \<and>
     Prefix k = ''wc_live_'' @ short @ ''_'' @ take 6 secret"
proof -
  have k: "shortenTenantID utl t \<noteq> []" "Plaintext k = keyPublicPart utl t @ encodeBase62 raw"
    "Hash k = HashKey (keyPublicPart utl t @ encodeBase62 raw)"
    "Prefix k = keyPublicPart utl t @ take 6 (encodeBase62 raw)"
    using assms(1) by (auto simp: GenerateKey_Inr)
  have pub: "keyPublicPart utl t = ''wc_live_'' @ shortenTenantID utl t @ ''_''"
    by (simp add: keyPublicPart_def keyPrefixLiteral_def)
  have short: "shortenTenantID utl t = take 8 (filter lower_alnum (ToLower utl t))"
    by (simp add: shortenTenantID_spec tenantShortLen_def)
  have ver: "VerifyKey utl (Plaintext k) (Hash k)"
    using k(2,3) pub hex_normal_form [OF HashKey_set] by (simp add: VerifyKey_def)
  have dec: "decodeBase62 (encodeBase62 raw) = SetBytes raw"
    using assms(2) decode_encodeBase62 by (simp add: secretBytes_def)
  show ?thesis
    using k pub short ver dec encodeBase62_set [of raw]
    by (intro exI [of _ "shortenTenantID utl t"] exI [of _ "encodeBase62 raw"]) simp
qed

lemma issued_key_shape_witness:
  "\<exists>short secret.
     ''wc_live_acme01_'' @ encodeBase62 (replicate 32 7) = ''wc_live_'' @ short @ ''_'' @ secret \<and>
     length secret = 43 \<and> decodeBase62 secret = SetBytes (replicate 32 7)"
proof -
  let ?k = "\<lparr>Plaintext = keyPublicPart id ''Acme-01'' @ encodeBase62 (replicate 32 7),
    Hash = HashKey (keyPublicPart id ''Acme-01'' @ encodeBase62 (replicate 32 7)),
    Prefix = keyPublicPart id ''Acme-01'' @ take 6 (encodeBase62 (replicate 32 7))\<rparr>"
  have s: "shortenTenantID id ''Acme-01'' = ''acme01''"
    by (simp add: shortenTenantID_spec tenantShortLen_def ToLower_def is_ascii_def char_eval lower_alnum_def)
  have g: "GenerateKey id (Some (replicate 32 7)) ''Acme-01'' = Inr ?k"
    using s by (simp add: GenerateKey_Inr)
  show ?thesis
    using issued_key_shape [OF g] s by (auto simp: keyPublicPart_def keyPrefixLiteral_def)
qed

section \<open>The life of an API key\<close>

text \<open>A key that was stored is found under its digest, as its own tenant and with the
  scopes it was given, and nobody else's lookup changes.\<close>

lemma stored_key_found:
  assumes "apikey_Create E k d = (None, d')" and "\<not> fault E' 0"
  shows "\<exists>key. apikey_GetByHash E' (k_KeyHash k) d' = Inr key \<and>
           k_ID key = k_ID k \<and> k_TenantID key = k_TenantID k \<and>
           k_Scopes key = ParseScopes (FormatScopes (k_Scopes k)) \<and>
           tenant_exists d (k_TenantID k) \<and> (\<forall>h. h \<noteq> k_KeyHash k \<longrightarrow> live_key d' h = live_key d h)"
  using live_key_created [OF assms(1)] apikey_GetByHash_live(3) [OF assms(2)]
    apikey_Create_ok(5) [OF assms(1)] live_key_create_other [OF assms(1)]
  by (auto simp: scanAPIKey_def key_row_def)

text \<open>A revoked key is dead in every later state, and no other digest is touched.\<close>

lemma revoke_run:
  assumes ok: "db_ok d" and rev: "apikey_Revoke E t i d = (None, d')" and run: "store_step\<^sup>*\<^sup>* d' d''"
  shows "\<exists>r\<in>set (api_keys d). kr_ID r = i \<and> kr_TenantID r = t \<and> live_key d'' (kr_KeyHash r) = None \<and>
     (\<forall>h. h \<noteq> kr_KeyHash r \<longrightarrow> live_key d' h = live_key d h)"
proof -
  obtain r where r: "r \<in> set (api_keys d)" "revoke_matches t i r"
    and d': "d' = d\<lparr>api_keys := revoked_rows t i (nowAt E 0) (api_keys d)\<rparr>"
    using apikey_Revoke_ok [OF rev] by blast
  have one: "r' = r" if "r' \<in> set (api_keys d)" "revoke_matches t i r'" for r'
    using ok that r by (auto simp: db_ok_def keys_ok_def distinct_map revoke_matches_def dest: inj_onD)
  have other: "live_key d' h = live_key d h" if "h \<noteq> kr_KeyHash r" for h
  proof (rule live_key_Revoke_other [OF rev])
    fix r' assume "r' \<in> set (api_keys d)" and "revoke_matches t i r'"
    then have "r' = r" by (rule one)
    with that show "kr_KeyHash r' \<noteq> h" by simp
  qed
  have "db_ok d'" using key_revoke.keeps_ok [OF ok, of E t i] by (simp add: rev)
  moreover have "r\<lparr>kr_RevokedAt := Some (nowAt E 0)\<rparr> \<in> set (api_keys d')"
    using r by (force simp: d' revoked_rows_def)
  ultimately have "live_key d'' (kr_KeyHash r) = None"
    using run_live_key_dead [OF run] by fastforce
  then show ?thesis using r other by (auto simp: revoke_matches_def)
qed

text \<open>A revocation that names another tenant's key, or an unknown or already revoked one, is
  answered with not-found and changes nothing.\<close>

lemma revoke_scoped:
  assumes "\<forall>r\<in>set (api_keys d). kr_ID r = i \<longrightarrow> kr_TenantID r \<noteq> t \<or> kr_RevokedAt r \<noteq> None"
  shows "snd (apikey_Revoke E t i d) = d \<and> fst (apikey_Revoke E t i d) \<noteq> None \<and>
     (\<not> fault E 0 \<and> \<not> fault E 1 \<longrightarrow> fst (apikey_Revoke E t i d) = Some ErrNotFound)"
proof -
  have none: "\<forall>r\<in>set (api_keys d). \<not> revoke_matches t i r" using assms by (auto simp: revoke_matches_def)
  then have "filter (revoke_matches t i) (api_keys d) = []" by (simp add: filter_empty_conv)
  moreover have "snd (apikey_Revoke E t i d) = d"
    using apikey_Revoke_nothing [OF prod.collapse [symmetric] none] .
  ultimately show ?thesis by (simp add: apikey_Revoke_def Let_def)
qed

text \<open>As long as a digest authenticates, it authenticates as the same key of the same tenant
  with the same scopes, whatever the store goes through in between.\<close>

lemma key_identity_stable:
  assumes "db_ok d" and "store_step\<^sup>*\<^sup>* d d'"
    and "live_key d h = Some k" and "live_key d' h = Some k'"
  shows "principal_of k' = principal_of k"
  using run_live_key_same [OF assms(2,1,3,4)] by (simp add: principal_of_def)

section \<open>The guards\<close>

text \<open>C5. A scoped endpoint runs its handler only for a presented key that is live and carries the
  scope, with that key's principal and no other; any other request is refused with 401, 403
  or 500 before the handler. Either way no credential changes.\<close>

lemma scope_endpoint_guarded:
  fixes next_h :: "('w gateway, 'p) handler"
  shows "(\<exists>p g1. live_principal g (HashKey (BearerToken r)) = Some p \<and> HasScope (Scopes p) required \<and>
            \<not> IsAdmin p \<and> live_principal g1 = live_principal g \<and>
            RequireScope \<lparr>adminToken = tok, resolver = keyResolver E\<rparr> required next_h r g =
              next_h (WithPrincipal r p) g1) \<or>
         (\<exists>resp g1. RequireScope \<lparr>adminToken = tok, resolver = keyResolver E\<rparr> required next_h r g = (resp, g1) \<and>
            live_principal g1 = live_principal g \<and> status resp \<in> {401, 403, 500})"
proof -
  have admin: "live_principal g h = Some p \<Longrightarrow> \<not> IsAdmin p" for h p
    by (auto simp: live_principal_def principal_of_def)
  show ?thesis
    using kr.scope_guard [of "\<lparr>adminToken = tok, resolver = keyResolver E\<rparr>" E g r required next_h] admin
    by fastforce
qed

end
