(* ===== verification/StoreProps.thy ===== *)
theory StoreProps
  imports MessageReads Samples
begin

text \<open>
  What the store promises as a whole and what its repositories promise: the schema holds in
  every reachable state, nothing is lost, writes can be repeated, a tenant reads its own rows
  only, and a conversation is one conversation under whichever address it is asked for.
\<close>

section \<open>The store as a whole\<close>

text \<open>In every state the store can reach from an empty file, under any sequence of operations
  and failures, the schema's promises hold: identifiers and digests are unique, every row
  belongs to an existing tenant, a tenant has at most one session and a WhatsApp message is
  stored at most once per tenant.\<close>

lemma schema_holds:
  assumes "reachable_db d"
  shows "distinct (map t_ID (tenants d)) \<and>
     distinct (map kr_ID (api_keys d)) \<and> distinct (map kr_KeyHash (api_keys d)) \<and>
     distinct (map s_TenantID (sessions d)) \<and>
     distinct (map m_ID (messages d)) \<and> distinct (map (\<lambda>m. (m_TenantID m, m_WAMessageID m)) (messages d)) \<and>
     distinct (map (\<lambda>r. (cr_TenantID r, cr_ChatJID r)) (chats d)) \<and>
     kr_TenantID ` set (api_keys d) \<union> s_TenantID ` set (sessions d) \<union> m_TenantID ` set (messages d) \<union>
       cr_TenantID ` set (chats d) \<subseteq> t_ID ` set (tenants d) \<and>
     (\<forall>s\<in>set (sessions d). SessionStatus_Valid (s_Status s)) \<and>
     (\<forall>m\<in>set (messages d). Direction_Valid (m_Direction m) \<and> m_ChatJID m \<noteq> [])"
  using reachable_db_ok [OF assms] by (simp add: db_ok_defs)

text \<open>C7. The store loses nothing: over any run every tenant, key, session, message and chat name
  is still there, a message with its content unchanged and, once its file was recorded, with
  a file, a session once paired never without its number, a key once revoked never unrevoked.\<close>

lemma nothing_lost:
  assumes "store_step\<^sup>*\<^sup>* d d'"
  shows "set (tenants d) \<subseteq> set (tenants d') \<and>
     (\<forall>k\<in>set (api_keys d). \<exists>k'\<in>set (api_keys d'). kr_ID k' = kr_ID k \<and> kr_TenantID k' = kr_TenantID k \<and>
        kr_KeyHash k' = kr_KeyHash k \<and> kr_Scopes k' = kr_Scopes k \<and>
        (kr_RevokedAt k \<noteq> None \<longrightarrow> kr_RevokedAt k' = kr_RevokedAt k)) \<and>
     (\<forall>s\<in>set (sessions d). \<exists>s'\<in>set (sessions d'). s_ID s' = s_ID s \<and> s_TenantID s' = s_TenantID s \<and>
        (s_WAJID s \<noteq> None \<longrightarrow> s_WAJID s' \<noteq> None)) \<and>
     (\<forall>m\<in>set (messages d). \<exists>m'\<in>set (messages d'). forget_fetch m' = forget_fetch m \<and>
        (m_MediaPath m \<noteq> None \<longrightarrow> m_MediaPath m' \<noteq> None)) \<and>
     (\<forall>c\<in>set (chats d). \<exists>c'\<in>set (chats d'). cr_TenantID c' = cr_TenantID c \<and> cr_ChatJID c' = cr_ChatJID c)"
proof -
  have g: "rows_grow (=) (tenants d) (tenants d')" "rows_grow key_row_step (api_keys d) (api_keys d')"
    "rows_grow session_step (sessions d) (sessions d')" "rows_grow message_step (messages d) (messages d')"
    "rows_grow (\<lambda>r r'. cr_TenantID r' = cr_TenantID r \<and> cr_ChatJID r' = cr_ChatJID r) (chats d) (chats d')"
    using store_run_grows [OF assms] by (simp_all add: db_grows_def)
  show ?thesis
    using rows_grow_member [OF g(1)] rows_grow_member [OF g(2), unfolded key_row_step_def]
      rows_grow_member [OF g(3), unfolded session_step_def]
      rows_grow_member [OF g(4), unfolded message_step_def] rows_grow_member [OF g(5)]
    by (intro conjI ballI subsetI) (blast | metis)+
qed

lemma nothing_lost_witness:
  "\<exists>k'\<in>set (api_keys (snd (apikey_Revoke sample_env ''t1'' ''k1'' sample_db))). kr_KeyHash k' = ''h1''"
proof -
  have "store_step\<^sup>*\<^sup>* sample_db (snd (apikey_Revoke sample_env ''t1'' ''k1'' sample_db))"
    by (rule r_into_rtranclp) (rule store_step.revoke_key)
  from nothing_lost [OF this] show ?thesis by auto
qed

section \<open>Writing messages\<close>

text \<open>A successful append stores the message, at most one row more, and appending the same
  WhatsApp message again, whatever fails, changes nothing: a redelivered message is stored once.\<close>

lemma append_idempotent:
  assumes "message_Append E m d = (None, d')"
  shows "(\<exists>rows. d' = d\<lparr>messages := messages d @ rows\<rparr> \<and> length rows \<le> 1) \<and>
     (\<exists>r\<in>set (messages d'). m_TenantID r = m_TenantID m \<and> m_WAMessageID r = m_WAMessageID m) \<and>
     snd (message_Append E' m d') = d'"
proof -
  have held: "list_ex (same_wa_message m) (messages d')" by (rule message_Append_ok(1) [OF assms])
  have grow: "\<exists>rows. d' = d\<lparr>messages := messages d @ rows\<rparr> \<and> length rows \<le> 1"
    using message_Append_db [OF assms]
  proof
    assume "d' = d"
    then show ?thesis by (intro exI [of _ "[]"]) simp
  next
    assume "\<exists>m'. prepareMessage E 0 m = Inr m' \<and> insertMessage m' d = Some (1, d')"
    then show ?thesis by (auto elim!: insertMessage_Some intro: exI [of _ "[messageArgs x]" for x])
  qed
  have again: "snd (message_Append E' m d') = d'"
  proof (cases "message_Append E' m d'")
    case (Pair e d2)
    then show ?thesis
      using message_Append_error [of E' m d'] message_Append_ok(2) [of E' m d' d2] held by (cases e) auto
  qed
  from held have "\<exists>r\<in>set (messages d'). m_TenantID r = m_TenantID m \<and> m_WAMessageID r = m_WAMessageID m"
    by (auto simp: list_ex_iff same_wa_message_def)
  with grow again show ?thesis by blast
qed

text \<open>C30. A batch is stored whole or not at all: on any error the store is as it was; on success
  every message of the batch is there, the reported count is the number of new rows, and
  replaying the batch reports zero and changes nothing.\<close>

lemma batch_atomic:
  shows "case message_AppendBatch E ms d of
      (Inl e, d') \<Rightarrow> d' = d
    | (Inr n, d') \<Rightarrow>
        (\<exists>new. d' = d\<lparr>messages := messages d @ new\<rparr> \<and> length new = n) \<and>
        (\<forall>m\<in>set ms. \<exists>r\<in>set (messages d'). m_TenantID r = m_TenantID m \<and> m_WAMessageID r = m_WAMessageID m) \<and>
        message_AppendBatch (calm now ids) ms d' = (Inr 0, d')"
proof (cases "message_AppendBatch E ms d")
  case (Pair r d')
  show ?thesis
  proof (cases r)
    case (Inl e)
    then show ?thesis using Pair message_AppendBatch_error by fastforce
  next
    case (Inr n)
    have b: "message_AppendBatch E ms d = (Inr n, d')" using Pair Inr by simp
    have "message_AppendBatch (calm now ids) ms d' = (Inr 0, d')"
      by (rule message_AppendBatch_replay [OF b]) simp
    then show ?thesis
      using message_AppendBatch_ok [OF b] b by (force simp: list_ex_iff same_wa_message_def)
  qed
qed

lemma batch_atomic_witness:
  "\<exists>d'. message_AppendBatch sample_env
       [sample_message ''x'' ''t1'' ''57311@s.whatsapp.net'' 40, sample_message ''x'' ''t1'' ''57311@s.whatsapp.net'' 41]
       sample_db = (Inr 1, d') \<and> length (messages d') = 4"
proof -
  let ?ms = "[sample_message ''x'' ''t1'' ''57311@s.whatsapp.net'' 40, sample_message ''x'' ''t1'' ''57311@s.whatsapp.net'' 41]"
  let ?d = "sample_db\<lparr>messages := messages sample_db @ [messageArgs (hd ?ms)]\<rparr>"
  have p: "prepareMessage sample_env i m = Inr m" if "m \<in> set ?ms" for i m
    using that by (auto simp: prepareMessage_def Let_def)
  have i1: "insertMessage (hd ?ms) sample_db = Some (1, ?d)"
    by (simp add: insertMessage_def same_wa_message_def)
  have i2: "insertMessage (hd (tl ?ms)) ?d = Some (0, ?d)"
    by (simp add: insertMessage_def same_wa_message_def messageArgs_def)
  have b: "message_AppendBatch sample_env ?ms sample_db = (Inr 1, ?d)"
    using i1 i2 by (simp add: message_AppendBatch_def p del: sample_db_simps)
  then show ?thesis using batch_atomic [where E = sample_env and ms = ?ms and d = sample_db] by auto
qed

text \<open>
  The abstract store of messages: a map from a tenant and a WhatsApp identifier to what the message
  says, leaving out the row's own identifier, its creation time and the bookkeeping of fetches.
  The first delivery wins.
\<close>

definition said :: "Message \<Rightarrow> Message" where
  "said m = m\<lparr>m_ID := [], m_CreatedAt := 0, m_MediaStatus := None, m_MediaError := None, m_MediaFetchedAt := None\<rparr>"

definition log_of :: "db \<Rightarrow> string \<times> string \<Rightarrow> Message option" where
  "log_of d k = map_option said (find (\<lambda>m. (m_TenantID m, m_WAMessageID m) = k) (messages d))"

definition log_put :: "Message \<Rightarrow> (string \<times> string \<Rightarrow> Message option) \<Rightarrow> string \<times> string \<Rightarrow> Message option" where
  "log_put m f =
     (if f (m_TenantID m, m_WAMessageID m) = None then f((m_TenantID m, m_WAMessageID m) \<mapsto> said m) else f)"

lemma log_of_held: "log_of d (m_TenantID m, m_WAMessageID m) = None \<longleftrightarrow> \<not> list_ex (same_wa_message m) (messages d)"
  by (auto simp: log_of_def find_None_iff list_ex_iff same_wa_message_def)

lemma said_args [simp]: "said (messageArgs m) = said m"
  by (simp add: said_def messageArgs_def)

lemma said_prepared:
  assumes "prepareMessage E i m = Inr r" and "m_Timestamp m \<noteq> 0"
  shows "m_TenantID r = m_TenantID m \<and> m_WAMessageID r = m_WAMessageID m \<and> said r = said m"
  using assms by (auto simp: prepareMessage_def said_def Let_def split: if_splits)

lemma log_put_cong:
  "m_TenantID r = m_TenantID m \<and> m_WAMessageID r = m_WAMessageID m \<and> said r = said m \<Longrightarrow> log_put r = log_put m"
  by (rule ext) (simp add: log_put_def)

lemma insertMessage_log:
  assumes "insertMessage m d = Some (n, d')"
  shows "log_of d' = log_put m (log_of d)"
  using assms
proof (cases rule: insertMessage_Some)
  case dup
  then show ?thesis using log_of_held [of d m] by (auto simp: log_put_def)
next
  case new
  have "log_of d' k = log_put m (log_of d) k" for k
    using new(3) log_of_held [of d m] unfolding new(2)
    by (auto simp: log_put_def log_of_def find_append split: option.split)
  then show ?thesis by (rule ext)
qed

lemma fold_map_put: "map log_put rs = map log_put ms \<Longrightarrow> fold log_put rs = fold log_put ms"
proof -
  assume "map log_put rs = map log_put ms"
  then have "fold id (map log_put rs) = fold id (map log_put ms)" by (rule arg_cong)
  then show ?thesis by (simp add: fold_map)
qed

lemma exec_batch_log: "exec_batch E i rs k d = Inr (n, d') \<Longrightarrow> log_of d' = fold log_put rs (log_of d)"
  by (induction E i rs k d rule: exec_batch.induct)
    (auto simp: insertMessage_log split: if_splits option.splits)

lemma prepare_batch_log:
  "prepare_batch E i ms = Inr rs \<Longrightarrow> \<forall>m\<in>set ms. m_Timestamp m \<noteq> 0 \<Longrightarrow> map log_put rs = map log_put ms"
  by (induction E i ms arbitrary: rs rule: prepare_batch.induct)
    (auto split: sum.splits intro!: log_put_cong dest: said_prepared)

text \<open>C31. The message table implements a map in which the first delivery of a message wins: a successful
  append, and a successful batch in its order, add to the map exactly the messages it did not have,
  with everything they say, and change no entry; a failed one changes nothing.\<close>

lemma messages_are_a_log:
  assumes "m_Timestamp m \<noteq> 0" and "\<forall>m\<in>set ms. m_Timestamp m \<noteq> 0"
  shows "log_of (snd (message_Append E m d)) =
       (case fst (message_Append E m d) of Some e \<Rightarrow> log_of d | None \<Rightarrow> log_put m (log_of d)) \<and>
     log_of (snd (message_AppendBatch E ms d)) =
       (case fst (message_AppendBatch E ms d) of Inl e \<Rightarrow> log_of d | Inr n \<Rightarrow> fold log_put ms (log_of d))"
proof
  obtain e d' where a: "message_Append E m d = (e, d')" by fastforce
  show "log_of (snd (message_Append E m d)) =
      (case fst (message_Append E m d) of Some e \<Rightarrow> log_of d | None \<Rightarrow> log_put m (log_of d))"
  proof (cases e)
    case None
    then obtain r n where "prepareMessage E 0 m = Inr r" "insertMessage r d = Some (n, d')"
      using a by (auto simp: message_Append_def split: sum.splits if_splits option.splits)
    with log_put_cong [OF said_prepared, of E 0 m r] insertMessage_log [of r d n d'] assms(1) None a show ?thesis by simp
  next
    case (Some x)
    with a message_Append_error [of E m d x d'] show ?thesis by simp
  qed
  obtain r d' where b: "message_AppendBatch E ms d = (r, d')" by fastforce
  show "log_of (snd (message_AppendBatch E ms d)) =
      (case fst (message_AppendBatch E ms d) of Inl e \<Rightarrow> log_of d | Inr n \<Rightarrow> fold log_put ms (log_of d))"
  proof (cases r)
    case (Inl e)
    with b message_AppendBatch_error [of E ms d e d'] show ?thesis by simp
  next
    case (Inr n)
    show ?thesis
    proof (cases "ms = []")
      case True
      then show ?thesis by (simp add: message_AppendBatch_def)
    next
      case False
      with b Inr obtain rs where rs: "prepare_batch E 0 ms = Inr rs" "exec_batch E 3 rs 0 d = Inr (n, d')"
        by (auto simp: message_AppendBatch_def split: if_splits sum.splits)
      have "fold log_put rs = fold log_put ms"
        by (rule fold_map_put [OF prepare_batch_log [OF rs(1) assms(2)]])
      with exec_batch_log [OF rs(2)] b Inr show ?thesis by simp
    qed
  qed
qed

lemma messages_are_a_log_witness:
  "log_of (snd (message_Append sample_env (sample_message ''m9'' ''t1'' ''57311@s.whatsapp.net'' 40) sample_db)) (''t1'', ''wa-m9'') =
     Some (said (sample_message ''m9'' ''t1'' ''57311@s.whatsapp.net'' 40))"
proof -
  let ?m = "sample_message ''m9'' ''t1'' ''57311@s.whatsapp.net'' 40"
  have "fst (message_Append sample_env ?m sample_db) = None"
    by (auto simp: message_Append_def prepareMessage_def insertMessage_def same_wa_message_def Let_def)
  with messages_are_a_log [of ?m "[]" sample_env sample_db]
  have "log_of (snd (message_Append sample_env ?m sample_db)) = log_put ?m (log_of sample_db)" by simp
  moreover have "log_of sample_db (''t1'', ''wa-m9'') = None" by (simp add: log_of_def)
  ultimately show ?thesis by (simp add: log_put_def)
qed


text \<open>Recording a fetch touches the media columns of one message of one tenant and nothing
  else, and only a recorded path can replace a path; a success means that the message exists and
  now has the recorded status, error and path.\<close>

lemma media_update_scoped:
  shows "\<exists>f. snd (message_UpdateMedia E t i upd d) = d\<lparr>messages := map f (messages d)\<rparr> \<and>
     (\<forall>m. forget_fetch (f m) = forget_fetch m \<and>
        (m_TenantID m \<noteq> t \<or> m_ID m \<noteq> i \<longrightarrow> f m = m) \<and>
        (mu_Path upd = None \<longrightarrow> m_MediaPath (f m) = m_MediaPath m)) \<and>
     (fst (message_UpdateMedia E t i upd d) = None \<longrightarrow>
        (\<exists>m\<in>set (messages d). m_TenantID m = t \<and> m_ID m = i) \<and>
        (\<forall>m. m_TenantID m = t \<and> m_ID m = i \<longrightarrow>
           m_MediaStatus (f m) = Some (mu_Status upd) \<and>
           m_MediaError (f m) = (if mu_Error upd = [] then None else Some (mu_Error upd)) \<and>
           (mu_Path upd \<noteq> None \<longrightarrow> m_MediaPath (f m) = mu_Path upd)))"
proof -
  define upd' where "upd' = (if IsZero (mu_FetchedAt upd) then upd\<lparr>mu_FetchedAt := nowAt E 0\<rparr> else upd)"
  have upd': "mu_Path upd' = mu_Path upd" "mu_Status upd' = mu_Status upd" "mu_Error upd' = mu_Error upd"
    by (simp_all add: upd'_def)
  define f where "f = (\<lambda>r. if m_TenantID r = t \<and> m_ID r = i then set_media upd' r else r)"
  show ?thesis
  proof (cases "t = [] \<or> i = [] \<or> fault E 0")
    case True
    then show ?thesis by (intro exI [of _ id]) (auto simp: message_UpdateMedia_def Let_def)
  next
    case False
    then show ?thesis
      by (intro exI [of _ f])
        (auto simp: message_UpdateMedia_def Let_def f_def upd'_def [symmetric] upd' set_media_def forget_fetch_def filter_empty_conv
          split: option.splits)
  qed
qed

section \<open>Reading conversations\<close>

text \<open>C15. Listing a conversation gives, newest first and at most the normalised limit of them, the
  tenant's own messages stored under the asked address without its device or under the other
  address of the same person; a message the limit cut off is no newer than any that is given.\<close>

lemma list_by_chat_spec:
  assumes ok: "lid_map_ok d" and up: "\<forall>i. \<not> fault E i"
    and ms: "fst (message_ListByChat E t a n d) = Inr ms"
  shows "set ms \<subseteq> {m \<in> set (messages d). m_TenantID m = t \<and>
            (m_ChatJID m = nonADAddress a \<or> same_person d (nonADAddress a) (m_ChatJID m))} \<and>
     length ms = min (nat (normalizeLimit n)) (length (conversation d t a)) \<and>
     sorted_wrt (\<lambda>x y. message_order y \<le> message_order x) ms \<and>
     (\<forall>x\<in>set (conversation d t a) - set ms. \<forall>y\<in>set ms. message_order x \<le> message_order y)"
proof -
  let ?p = "page_desc message_order (nat (normalizeLimit n)) (conversation d t a)"
  have p: "ms = ?p" using message_ListByChat_conversation [OF ok up] ms by simp
  have "set ?p \<subseteq> set (conversation d t a)" by (rule page_desc_subset)
  also have "\<dots> \<subseteq> {m \<in> set (messages d). m_TenantID m = t \<and>
      (m_ChatJID m = nonADAddress a \<or> same_person d (nonADAddress a) (m_ChatJID m))}"
    by (auto simp: conversation_def conversation_addresses_def)
  finally show ?thesis
    unfolding p using page_desc_sorted page_desc_complete by (auto intro: page_desc_complete)
qed

lemma list_by_chat_spec_witness:
  "\<exists>ms. fst (message_ListByChat sample_env ''t1'' ''8888:3@lid'' 1 sample_db) = Inr ms \<and>
     length ms = min 1 (length (conversation sample_db ''t1'' ''8888:3@lid''))"
proof -
  obtain ms where ms: "fst (message_ListByChat sample_env ''t1'' ''8888:3@lid'' 1 sample_db) = Inr ms"
    using message_ListByChat_conversation [OF sample_lids, of sample_env] by auto
  show ?thesis
    using list_by_chat_spec [OF sample_lids _ ms] ms by (simp add: normalizeLimit_def maxMessageLimit_def)
qed

text \<open>C14. A person has one conversation: asked for under the phone number, under the LID or from a
  linked device, the listing and the backfill anchor are the same.\<close>

lemma one_conversation_per_person:
  assumes ok: "lid_map_ok d" and up: "\<forall>i. \<not> fault E i" and p: "same_person d (nonADAddress a) b"
  shows "fst (message_ListByChat E t b n d) = fst (message_ListByChat E t a n d) \<and>
     fst (message_OldestByChat E t b d) = fst (message_OldestByChat E t a d)"
  by (simp only: message_ListByChat_conversation [OF ok up] message_OldestByChat_conversation [OF ok up]
      conversation_alias [OF ok p])

lemma one_conversation_per_person_witness:
  "fst (message_ListByChat sample_env ''t1'' ''57311@s.whatsapp.net'' 0 sample_db) =
   fst (message_ListByChat sample_env ''t1'' ''8888:3@lid'' 0 sample_db)"
proof -
  have "same_person sample_db (nonADAddress ''8888:3@lid'') ''57311@s.whatsapp.net''"
    by (simp add: same_person_def lid_rows_def nonADAddress_def splitAddress_def Cut_def
        lidServer_def phoneServer_def)
  then show ?thesis using one_conversation_per_person [OF sample_lids, of sample_env] by simp
qed

text \<open>The anchor of a backfill is the oldest message stored of the conversation, and the lookup
  fails only where nothing is stored.\<close>

lemma anchor_is_oldest:
  assumes ok: "lid_map_ok d" and up: "\<forall>i. \<not> fault E i"
  shows "case fst (message_OldestByChat E t a d) of
      Inr m \<Rightarrow> m \<in> set (conversation d t a) \<and> (\<forall>m'\<in>set (conversation d t a). message_order m \<le> message_order m')
    | Inl e \<Rightarrow> e = ErrNotFound \<and> conversation d t a = []"
proof (cases "order_asc message_order (conversation d t a)")
  case Nil
  have "set (order_asc message_order (conversation d t a)) = set (conversation d t a)" by simp
  with Nil have "conversation d t a = []" by simp
  with Nil show ?thesis by (simp add: message_OldestByChat_conversation [OF ok up])
next
  case (Cons m rest)
  then show ?thesis
    using oldest_is_first [OF Cons] by (simp add: message_OldestByChat_conversation [OF ok up])
qed





section \<open>Sessions, names and migrations\<close>

text \<open>A tenant's session is created once, pending and unpaired; asking again gives the same row
  and writes nothing.\<close>

lemma session_created_once:
  assumes "session_EnsureForTenant E t d = (Inr s, d')" and "\<not> fault E' 0"
  shows "session_EnsureForTenant E' t d' = (Inr s, d') \<and> s_TenantID s = t \<and>
     (t \<in> s_TenantID ` set (sessions d) \<longrightarrow> d' = d)"
proof -
  have again: "session_EnsureForTenant E' t d' = (Inr s, d')" by (rule session_Ensure_again [OF assms])
  have "s_TenantID s = t"
    using assms(1) by (auto simp: session_EnsureForTenant_def Let_def scanSession_def
        dest!: session_GetByTenant_found split: sum.splits store_error.splits option.splits if_splits)
  with again session_Ensure_kept [OF assms(1)] show ?thesis by blast
qed

text \<open>Changing a session's state changes that tenant's session only, keeps the number of a paired
  session when none is given, and refuses a state the schema does not know; a success means that
  the tenant has a session and that it now has the state, and the number when one was given.\<close>

lemma session_update_scoped:
  shows "\<exists>f. snd (session_UpdateStatus E t st j d) = d\<lparr>sessions := map f (sessions d)\<rparr> \<and>
     (\<forall>s. s_ID (f s) = s_ID s \<and> s_TenantID (f s) = s_TenantID s \<and>
        (s_TenantID s \<noteq> t \<longrightarrow> f s = s) \<and>
        (s_WAJID s \<noteq> None \<longrightarrow> s_WAJID (f s) \<noteq> None) \<and>
        (j = [] \<longrightarrow> s_WAJID (f s) = s_WAJID s) \<and>
        (\<not> SessionStatus_Valid st \<longrightarrow> f s = s)) \<and>
     (fst (session_UpdateStatus E t st j d) = None \<longrightarrow>
        SessionStatus_Valid st \<and> t \<in> s_TenantID ` set (sessions d) \<and>
        (\<forall>s. s_TenantID s = t \<longrightarrow> s_Status (f s) = st \<and> (j \<noteq> [] \<longrightarrow> s_WAJID (f s) = Some j)))"
proof (cases "SessionStatus_Valid st \<and> \<not> fault E 0")
  case True
  then show ?thesis
    by (intro exI [of _ "session_set t st j (nowAt E 0)"])
      (auto simp: session_UpdateStatus_def SessionStatus_validate_def Let_def session_set_def filter_empty_conv image_iff)
next
  case False
  then show ?thesis
    by (intro exI [of _ id]) (auto simp: session_UpdateStatus_def SessionStatus_validate_def split: if_splits)
qed

text \<open>A batch of chat names is applied whole or not at all; each name that is not blank is stored
  trimmed, a later one over an earlier one, and a blank one never erases what is known.\<close>

lemma chat_names_upserted:
  shows "case chat_UpsertBatch E t cs d of
      (Some e, d') \<Rightarrow> d' = d
    | (None, d') \<Rightarrow> chat_name d' t =
        fold (\<lambda>c m. if TrimSpace (n_Name c) = [] then m else m(n_ChatJID c \<mapsto> TrimSpace (n_Name c))) cs (chat_name d t)"
proof -
  have p: "put_name = (\<lambda>c m. if TrimSpace (n_Name c) = [] then m else m(n_ChatJID c \<mapsto> TrimSpace (n_Name c)))"
    by (intro ext) (simp add: put_name_def)
  show ?thesis
    using chat_UpsertBatch_names [of E t cs d, unfolded p]
    by (cases "chat_UpsertBatch E t cs d"; cases "fst (chat_UpsertBatch E t cs d)") auto
qed

end
