(* ===== verification/WaProps.thy ===== *)
theory WaProps
  imports Sessions Samples
begin

text \<open>
  What the WhatsApp engine promises: one address per person, the on-demand history protocol,
  what a history sync keeps, and how media is referenced, placed and fetched.
\<close>

section \<open>One address per person\<close>

lemma canonical_of_lid:
  assumes laws: "jid_laws L" and j: "jServer L j = HiddenUserServer L" "get (ToNonAD L j) = Some pn"
    and pn: "jServer L pn = DefaultUserServer L" "jUser L pn \<noteq> []"
    and alt: "jServer L alt = DefaultUserServer L \<and> jUser L alt \<noteq> [] \<longrightarrow> ToNonAD L alt = ToNonAD L pn"
  shows "fst (canonicalJID L (Some get) j alt) = ToNonAD L pn"
  using j pn alt jid_laws_D [OF laws] by (auto simp: canonicalJID_def)

lemma persistMessage_row:
  "mg_db (persistMessage E L gmt t e m) =
     snd (message_Append (E 1)
       (liveRecord (E 0) L gmt t e
         (fst (canonicalJID L (lidsFor t m) (src_Chat (lm_Source e)) (chatAlt L (lm_Source e))))
         (fst (canonicalJID L (lidsFor t m) (src_Sender (lm_Source e)) (src_SenderAlt (lm_Source e))))) (mg_db m))"
  by (simp add: persistMessage_def Let_def case_prod_beta)

lemma liveRecord_chat [simp]: "m_ChatJID (liveRecord E L gmt t e chat sender) = jString L (ToNonAD L chat)"
  by (simp add: liveRecord_def Let_def applyMediaReference_keeps)

text \<open>C13. What a person writes and what is sent to that person are filed under one address: with the
  LID known to the tenant's client, a message received from the LID, from whichever device and
  with or without the phone number beside it, and a text sent to the LID or to the phone number
  go to the same chat.\<close>

lemma both_directions_one_chat:
  assumes laws: "jid_laws L" and client: "mg_clients m t = Some client" "cl_LIDs client = Some get"
    and chat: "jServer L (src_Chat (lm_Source e)) = HiddenUserServer L"
    and known: "get (ToNonAD L (src_Chat (lm_Source e))) = Some pn"
      "jServer L pn = DefaultUserServer L" "jUser L pn \<noteq> []"
    and alt: "chatAlt L (lm_Source e) = EmptyJID L \<or> ToNonAD L (chatAlt L (lm_Source e)) = ToNonAD L pn"
    and to: "parseJID L to = Inr x"
      "ToNonAD L x = ToNonAD L pn \<or> ToNonAD L x = ToNonAD L (src_Chat (lm_Source e))"
    and sent: "SendText now L reply t to body m = (Inr s, m')"
  shows "\<exists>record. mg_db (persistMessage E L gmt t e m) = snd (message_Append (E 1) record (mg_db m)) \<and>
     m_ChatJID record = sm_ChatJID s \<and> sm_ChatJID s = jString L (ToNonAD L pn)"
proof -
  note D = jid_laws_D [OF laws]
  have lids: "lidsFor t m = Some get" using client by (simp add: lidsFor_def)
  have alt': "jServer L (chatAlt L (lm_Source e)) = DefaultUserServer L \<and> jUser L (chatAlt L (lm_Source e)) \<noteq> [] \<longrightarrow>
      ToNonAD L (chatAlt L (lm_Source e)) = ToNonAD L pn"
    using alt D(6,9) by auto
  have inbound: "fst (canonicalJID L (lidsFor t m) (src_Chat (lm_Source e)) (chatAlt L (lm_Source e))) = ToNonAD L pn"
    unfolding lids using laws chat known(1) known(2,3) alt' by (rule canonical_of_lid)
  have out: "fst (canonicalJID L (lidsFor t m) x (EmptyJID L)) = ToNonAD L pn"
    using to(2)
  proof
    assume x: "ToNonAD L x = ToNonAD L pn"
    then have "jServer L x = DefaultUserServer L" using D(2) [of x] D(2) [of pn] known(2) by simp
    then show ?thesis using x D(5,8,9) by (simp add: canonicalJID_def)
  next
    assume x: "ToNonAD L x = ToNonAD L (src_Chat (lm_Source e))"
    have "jServer L x = HiddenUserServer L" using x D(2) [of x] D(2) [of "src_Chat (lm_Source e)"] chat by simp
    moreover have "get (ToNonAD L x) = Some pn" using x known(1) by simp
    ultimately show ?thesis unfolding lids using laws known(2,3) D(6,9) by (intro canonical_of_lid) auto
  qed
  have "sm_ChatJID s = jString L (ToNonAD L pn)"
    using sent out D(3) to(1) client(1)
    by (auto simp: SendText_def sendDestination_def sentRecord_def Let_def split: if_splits option.splits prod.splits)
  then show ?thesis using inbound D(3) by (auto simp: persistMessage_row)
qed

definition sample_client :: "plain_jid client" where
  "sample_client = \<lparr>cl_ID = Some (PlainJID ''57300'' 2 ''s.whatsapp.net''),
     cl_LIDs = Some (\<lambda>j. if j = PlainJID ''8888'' 0 ''lid'' then Some (PlainJID ''57311'' 0 ''s.whatsapp.net'') else None),
     cl_LoggedIn = True, cl_Connected = True\<rparr>"

definition sample_manager :: "plain_jid manager" where
  "sample_manager = \<lparr>mg_db = sample_db, mg_pending = newPendingHistory, mg_unresolved = 0,
     mg_clients = (\<lambda>t. if t = ''t1'' then Some sample_client else None), mg_scope = HistorySyncScopeDM\<rparr>"

definition sample_inbound :: "plain_jid live_message" where
  "sample_inbound = \<lparr>lm_Source = \<lparr>src_Chat = PlainJID ''8888'' 3 ''lid'', src_Sender = PlainJID ''8888'' 3 ''lid'',
      src_IsFromMe = False, src_IsGroup = False, src_SenderAlt = PlainJID [] 0 [], src_RecipientAlt = PlainJID [] 0 []\<rparr>,
     lm_ID = ''wa9'', lm_Timestamp = 50, lm_MediaType = [], lm_Message = None\<rparr>"

lemma sample_to: "parseJID plain_jids ''57311@s.whatsapp.net'' = Inr (PlainJID ''57311'' 0 ''s.whatsapp.net'')"
proof -
  have "TrimSpace ''57311@s.whatsapp.net'' = ''57311@s.whatsapp.net''" by (simp add: trim_eval)
  then show ?thesis by (simp add: parseJID_def plain_jids_def Cut_def)
qed

lemma both_directions_one_chat_witness:
  "\<exists>record. mg_db (persistMessage (\<lambda>_. sample_env) plain_jids (\<lambda>_. MediaImage) ''t1'' sample_inbound sample_manager) =
     snd (message_Append sample_env record sample_db) \<and> m_ChatJID record = ''57311@s.whatsapp.net''"
proof -
  let ?pn = "PlainJID ''57311'' 0 ''s.whatsapp.net''"
  have sent: "\<exists>s m'. SendText 60 plain_jids (\<lambda>_ _. Some \<lparr>sp_ID = ''wa10'', sp_Timestamp = 60\<rparr>) ''t1''
      ''57311@s.whatsapp.net'' ''hola'' sample_manager = (Inr s, m')"
    by (simp add: SendText_def sample_manager_def sample_client_def sendDestination_def sample_to Let_def case_prod_beta)
  then obtain s m' where s: "SendText 60 plain_jids (\<lambda>_ _. Some \<lparr>sp_ID = ''wa10'', sp_Timestamp = 60\<rparr>) ''t1''
      ''57311@s.whatsapp.net'' ''hola'' sample_manager = (Inr s, m')" by blast
  have "jString plain_jids (ToNonAD plain_jids ?pn) = ''57311@s.whatsapp.net''"
    by (simp add: plain_jids_def show_plain_def)
  then show ?thesis
    using both_directions_one_chat [OF plain_jids_laws _ _ _ _ _ _ _ sample_to _ s,
        of sample_client _ sample_inbound ?pn "\<lambda>_. sample_env" "\<lambda>_. MediaImage"]
    by (auto simp: sample_manager_def sample_client_def sample_inbound_def plain_jids_def chatAlt_def)
qed

section \<open>Asking for history\<close>

text \<open>C22. Whatever register, release, deliver and receive do to each other in any order: a conversation
  waits on at most one channel, a delivery that was taken can always be sent without blocking,
  a waiter receives at most one delivery, and giving up one request never removes another
  request's waiter.\<close>

lemma pending_registry_safe:
  assumes "reachable_pending p"
  shows "distinct (map fst (waiters p)) \<and>
     (\<forall>(ch, d)\<in>set (inflight p). deliver_send ch d p \<noteq> None) \<and>
     (\<forall>ch. count_list (received p) ch + length (buf p ch) \<le> 1) \<and>
     (\<forall>key ch. set (waiters p) - {(key, ch)} \<subseteq> set (waiters (release key ch p)))"
proof -
  have ok: "pending_ok p" by (rule reachable_pending_ok [OF assms])
  have once: "count_list (received p) ch + length (buf p ch) \<le> 1" for ch
    using ok by (auto simp: pending_ok_def tokens_def dest: spec [of _ ch] split: if_splits)
  have room: "deliver_send ch d p \<noteq> None" if "(ch, d) \<in> set (inflight p)" for ch d
    using inflight_has_room(1) [OF ok that] by (simp add: deliver_send_def)
  have "set (waiters p) - {(key, ch)} \<subseteq> set (waiters (release key ch p))" for key ch
    using release_own [OF ok, of ch key] by (cases "ch \<in> set (released p)") (auto simp: release_def)
  with ok once room show ?thesis by (auto simp: pending_ok_def)
qed

lemma pending_registry_safe_witness:
  "distinct (map fst (waiters (snd (register ''k2'' (snd (register ''k1'' newPendingHistory))))))"
proof -
  have "reachable_pending (snd (register ''k2'' (snd (register ''k1'' newPendingHistory))))"
    using pending_step.registers [OF prod.collapse [symmetric]]
    unfolding reachable_pending_def by (blast intro: rtranclp.rtrancl_into_rtrancl)
  from pending_registry_safe [OF this] show ?thesis by blast
qed

text \<open>C25. No event from WhatsApp can block its handler: from any state of the registry that can be
  reached, handling it ends, and it moves the store only by operations of the store, leaving
  tenants and keys as they are.\<close>

lemma events_never_block:
  assumes "reachable_pending (mg_pending m)"
  shows "\<exists>m' spawned. handleEvent E L gmt t evt m = Some (m', spawned) \<and>
     store_step\<^sup>*\<^sup>* (mg_db m) (mg_db m') \<and> api_keys (mg_db m') = api_keys (mg_db m) \<and>
     tenants (mg_db m') = tenants (mg_db m) \<and> pending_ok (mg_pending m')"
  using handleEvent_total [OF reachable_pending_ok [OF assms], of E L gmt t evt] reachable_pending_ok [OF assms]
  by (auto simp: manager_moves_def db_evolves_def)

lemma events_never_block_witness:
  "\<exists>m' spawned. handleEvent (\<lambda>_ _. sample_env) plain_jids (\<lambda>_. MediaImage) ''t1''
     (EvHistorySync (Some \<lparr>sd_OnDemand = True, sd_Conversations = [(''8888@lid'', [])]\<rparr>)) sample_manager = Some (m', spawned)"
proof -
  have "reachable_pending (mg_pending sample_manager)"
    by (simp add: sample_manager_def reachable_pending_def)
  from events_never_block [OF this] show ?thesis by blast
qed

lemma map_of_delete_key: "map_of (delete_key key ws) key = None"
  by (auto simp: delete_key_def map_of_eq_None_iff)

lemma SyncHistory_start_waits:
  assumes "SyncHistory_start E L ok t c n m = (Inr wt, m1)"
  shows "wt_Key wt = historyKey t (wt_Chat wt) \<and> map_of (waiters (mg_pending m1)) (wt_Key wt) = Some (wt_Channel wt) \<and>
    wt_Channel wt = nextCh (mg_pending m) \<and> wt_Count wt = NormalizeSyncCount n \<and> released (mg_pending m1) = released (mg_pending m)"
  using assms
  by (auto simp: SyncHistory_start_def register_def Let_def split: option.splits if_splits sum.splits prod.splits store_error.splits)


lemma sample_request_starts:
  "\<exists>wt m1. SyncHistory_start sample_env plain_jids (\<lambda>_. True) ''t1'' ''57311@s.whatsapp.net'' 0 sample_manager = (Inr wt, m1) \<and>
     wt_Chat wt = ''57311@s.whatsapp.net''"
proof -
  let ?a = "''57311@s.whatsapp.net''"
  let ?j = "PlainJID ''57311'' 0 ''s.whatsapp.net''"
  have c: "fst (canonicalJID plain_jids (lidsFor ''t1'' sample_manager) ?j (EmptyJID plain_jids)) = ?j"
    by (simp add: canonicalJID_def plain_jids_def)
  have s: "jString plain_jids ?j = ?a" by (simp add: plain_jids_def show_plain_def)
  have a: "nonADAddress ?a = ?a" by (simp add: nonADAddress_def splitAddress_def Cut_def)
  have "sample_message ''m1'' ''t1'' ?a 10 \<in> set (conversation sample_db ''t1'' ?a)"
    by (simp add: conversation_def conversation_addresses_def a)
  then have "order_asc message_order (conversation sample_db ''t1'' ?a) \<noteq> []"
    by (metis set_order_asc empty_iff list.set(1))
  then obtain r where r: "fst (message_OldestByChat sample_env ''t1'' ?a sample_db) = Inr r"
    using message_OldestByChat_conversation [OF sample_lids, of sample_env "''t1''" ?a] by (auto split: list.splits)
  then obtain d' where "message_OldestByChat sample_env ''t1'' ?a sample_db = (Inr r, d')"
    by (cases "message_OldestByChat sample_env ''t1'' ?a sample_db") auto
  moreover have "mg_clients sample_manager ''t1'' = Some sample_client" "cl_LoggedIn sample_client"
    "mg_db sample_manager = sample_db" "waiters (mg_pending sample_manager) = []"
    by (simp_all add: sample_manager_def sample_client_def newPendingHistory_def)
  ultimately show ?thesis
    by (simp add: SyncHistory_start_def sample_to Let_def register_def c s)
qed


section \<open>An outside\<close>

definition sample_outside :: "plain_jid outside" where
  "sample_outside = \<lparr>ou_env = (\<lambda>_. sample_env), ou_now = 50,
     ou_container = \<lparr>ct_GetDevice = (\<lambda>_. Some None), ct_AllDevices = None,
       new_client = (\<lambda>dev. \<lparr>cl_ID = dev, cl_LIDs = None, cl_LoggedIn = True, cl_Connected = True\<rparr>)\<rparr>,
     ou_raced = None, ou_pairing = \<lparr>pc_Connect = True, pc_PairPhone = (\<lambda>_. None), pc_QRChannel = None\<rparr>,
     ou_send = (\<lambda>_ _. None), ou_book = None, ou_ask = (\<lambda>_. []), ou_peer = (\<lambda>_. True),
     ou_events = [(\<lambda>_ _. sample_env, ''t1'', EvDisconnected)], ou_wake = WakeTimeout,
     ou_download = (\<lambda>_ _. Inl DownloadOther), ou_write = WriteOK\<rparr>"

end
