(* ===== verification/MediaProps.thy ===== *)
theory MediaProps
  imports Contacts WaProps
begin

text \<open>
  What a history sync keeps, how an attachment is referenced, where its file goes, when it is
  fetched, and what a contact search returns.
\<close>

section \<open>History\<close>



section \<open>References\<close>


definition sample_part :: attachment where
  "sample_part = \<lparr>at_Mimetype = ''image/jpeg'', at_FileLength = 3, at_DirectPath = ''/v/abc'', at_MediaKey = ''k'',
     at_FileEncSHA256 = ''e'', at_FileSHA256 = ''s'', at_Caption = [], at_Flag = False\<rparr>"

definition sample_photo :: proto_message where
  "sample_photo = ProtoMessage [] None (Some sample_part) None None None None False False False None None None None None"

definition sample_wrapped :: proto_message where
  "sample_wrapped = ProtoMessage [] None None None None None None False False False (Some (Some sample_photo)) None None None None"


section \<open>Files\<close>

text \<open>C26. A media file lies inside the tenant's own directory, directly under it, whatever the message
  identifier and content type hold; two tenants never share a file, and two messages of a
  tenant only if their identifiers have the same digest.\<close>

lemma media_path_contained:
  assumes p: "mediaPathFor utl root t i mime = Inr path"
  shows "(\<exists>name. clean_segs path = clean_segs root @ [t, name] \<and> plain_name t \<and> plain_name name \<and>
            rooted_path path = rooted_path root) \<and>
     (\<forall>t' i' mime'. mediaPathFor utl root t' i' mime' = Inr path \<longrightarrow>
        t' = t \<and> Sum256 (string_bytes i') = Sum256 (string_bytes i))"
proof -
  have r: "root \<noteq> []" "safeTenantSegment t" "path = media_file utl root t i mime"
    using p TrimSpace_ne by (auto simp: mediaPathFor_spec split: if_splits)
  have "rooted_path path = rooted_path root"
    unfolding r(3) media_file_def by (rule rooted_render [OF kept_media_file [OF r(1,2)]]) simp
  then have "\<exists>name. clean_segs path = clean_segs root @ [t, name] \<and> plain_name t \<and> plain_name name \<and>
      rooted_path path = rooted_path root"
    using clean_segs_media_file [OF r(1,2)] safe_plain [OF r(2)] media_name_plain r(3) by blast
  moreover have "t' = t \<and> Sum256 (string_bytes i') = Sum256 (string_bytes i)"
    if "mediaPathFor utl root t' i' mime' = Inr path" for t' i' mime'
  proof -
    have "safeTenantSegment t'" "media_file utl root t' i' mime' = media_file utl root t i mime"
      using that r(3) by (auto simp: mediaPathFor_spec split: if_splits)
    with media_file_inj [OF r(1), of t' t] r(2) show ?thesis by blast
  qed
  ultimately show ?thesis by blast
qed

lemma sample_root_path:
  "mediaPathFor id ''/srv/media'' ''t1'' ''m9'' ''image/jpeg'' = Inr (media_file id ''/srv/media'' ''t1'' ''m9'' ''image/jpeg'')"
proof -
  have "TrimSpace ''/srv/media'' = ''/srv/media''" "TrimSpace ''m9'' = ''m9''"
    by (simp_all add: trim_eval)
  moreover have "safeTenantSegment ''t1''"
    by (simp add: safeTenantSegment_def maxTenantSegment_def segment_char_def dot_def dotdot_def less_eq_char_def)
  ultimately show ?thesis by (simp add: mediaPathFor_spec)
qed

lemma media_path_contained_witness:
  "\<exists>name. clean_segs (media_file id ''/srv/media'' ''t1'' ''m9'' ''image/jpeg'') = clean_segs ''/srv/media'' @ [''t1'', name]"
  using media_path_contained [OF sample_root_path] by blast

section \<open>Fetching\<close>

text \<open>C28. A completed fetch is not repeated: asking again, with any client or none, answers with the same
  file and size, from the disk, and changes nothing.\<close>

lemma fetched_once:
  assumes F: "mf_messages F = store_messages E" and F': "mf_messages F' = store_messages E"
    and ok: "fetch F utl errtext now out t i W = ((ref, None), W')"
  shows "(\<exists>data. onDisk (mw_files W') (mr_Path ref) = Some data \<and> mr_SizeBytes ref = int (length data)) \<and>
     (\<exists>ref'. fetch F' utl' errtext' now' out' t i W' = ((ref', None), W') \<and>
        mr_Path ref' = mr_Path ref \<and> mr_SizeBytes ref' = mr_SizeBytes ref)"
  using sm.fetch_done [OF F ok] sm.fetch_again [OF F ok F', of utl' errtext' now' out'] by blast

definition sample_media_message :: Message where
  "sample_media_message = (sample_message ''m9'' ''t1'' ''57311@s.whatsapp.net'' 40)
     \<lparr>m_MediaType := Some ''image'', m_MimeType := Some ''image/jpeg'', m_DirectPath := Some ''/v/abc'',
      m_MMSType := Some ''image'', m_FileLength := Some 3\<rparr>"

definition sample_fetcher :: "db mediaFetcher" where
  "sample_fetcher = \<lparr>mf_messages = store_messages sample_env, mf_dir = ''/srv/media'', mf_maxBytes = 10,
     mf_allowed = [''image''], mf_downloaderFor = (\<lambda>_. Inr (\<lambda>_. Inr ''abc''))\<rparr>"

definition sample_world :: "db media_world" where
  "sample_world = \<lparr>mw_store = sample_db\<lparr>messages := [sample_media_message]\<rparr>, mw_files = (\<lambda>_. None), mw_net = []\<rparr>"

lemma sample_media_get: "message_GetByID sample_env ''t1'' ''m9'' (mw_store sample_world) = Inr sample_media_message"
  unfolding message_GetByID_row
  by (simp add: sample_world_def sample_media_message_def page_desc_def)

lemma sample_admitted:
  "admitted sample_fetcher id ''t1'' ''m9'' sample_world sample_media_message
     (media_file id ''/srv/media'' ''t1'' ''m9'' ''image/jpeg'') (\<lambda>_. Inr ''abc'')"
proof -
  have "ToLower id ''image'' = ''image''" by (rule mms_lower)
  moreover have "mediaPathFor id ''/srv/media'' ''t1'' ''m9'' ''image/jpeg'' =
      Inr (media_file id ''/srv/media'' ''t1'' ''m9'' ''image/jpeg'')" by (rule sample_root_path)
  moreover have "if_GetByID (store_messages sample_env) ''t1'' ''m9'' (mw_store sample_world) = Inr sample_media_message"
    using sample_media_get by (simp add: store_messages_def)
  ultimately show ?thesis
    by (simp add: admitted_def sample_fetcher_def sample_media_message_def sample_message_def emptyMessage_def
        HasMediaReference_def sample_world_def onDisk_def derefString_def MediaUnavailable_def)
qed

lemma sample_fetch:
  "\<exists>ref W'. fetch sample_fetcher id (\<lambda>_. []) 60 WriteOK ''t1'' ''m9'' sample_world = ((ref, None), W')"
  unfolding fetch_admitted [OF sample_admitted]
  by (simp add: download_def sample_fetcher_def Let_def writeMediaFile_def store_messages_def message_UpdateMedia_def
      sample_world_def sample_media_message_def)

lemma fetched_once_witness:
  "\<exists>ref W' ref'. fetch sample_fetcher id (\<lambda>_. []) 60 WriteOK ''t1'' ''m9'' sample_world = ((ref, None), W') \<and>
     fetch (sample_fetcher\<lparr>mf_downloaderFor := (\<lambda>_. Inl ErrNotPaired)\<rparr>) id (\<lambda>_. []) 70 (WriteFails None) ''t1'' ''m9'' W' = ((ref', None), W')"
proof -
  obtain ref W' where f: "fetch sample_fetcher id (\<lambda>_. []) 60 WriteOK ''t1'' ''m9'' sample_world = ((ref, None), W')"
    using sample_fetch by blast
  have "mf_messages sample_fetcher = store_messages sample_env"
    "mf_messages (sample_fetcher\<lparr>mf_downloaderFor := (\<lambda>_. Inl ErrNotPaired)\<rparr>) = store_messages sample_env"
    by (simp_all add: sample_fetcher_def)
  from fetched_once [OF this f, of id "\<lambda>_. []" 70 "WriteFails None"] f show ?thesis by blast
qed

text \<open>C27. A fetch that is refused is quiet: it sends no request, writes no file and changes no row. A
  request is sent only for a message of the asking tenant that has a reference, has not expired,
  has an allowed type and declares no more than the limit, and then one file at most changes,
  the one inside the tenant's directory.\<close>

lemma refused_fetch_is_quiet:
  assumes "mf_messages F = store_messages E"
  shows "snd (fetch F utl errtext now out t i W) = W \<or>
     (\<exists>m path. m \<in> set (messages (mw_store W)) \<and> m_TenantID m = t \<and> i \<in> {m_ID m, m_WAMessageID m} \<and>
        HasMediaReference m \<and>
        derefString (m_MediaStatus m) \<noteq> MediaUnavailable \<and>
        ToLower utl (derefString (m_MediaType m)) \<in> set (mf_allowed F) \<and>
        (\<forall>n. m_FileLength m = Some n \<longrightarrow> n \<le> mf_maxBytes F) \<and>
        mediaPathFor utl (mf_dir F) t (m_ID m) (derefString (m_MimeType m)) = Inr path \<and>
        mw_net (snd (fetch F utl errtext now out t i W)) = requestFor utl m # mw_net W \<and>
        (\<forall>p. p \<noteq> path \<longrightarrow> mw_files (snd (fetch F utl errtext now out t i W)) p = mw_files W p))"
proof (cases "\<exists>m path dl. admitted F utl t i W m path dl")
  case True
  then obtain m path dl where a: "admitted F utl t i W m path dl" by blast
  then have "message_GetByID E t i (mw_store W) = Inr m" using assms by (simp add: admitted_def store_messages_def)
  note row = message_GetByID_found [OF this]
  have f: "fetch F utl errtext now out t i W = download F utl errtext now out dl path t (mediaRefOf m) m W"
    by (rule fetch_admitted [OF a])
  show ?thesis
    unfolding f using a row download_net download_files by (intro disjI2 exI [of _ m] exI [of _ path]) (auto simp: admitted_def)
next
  case False
  then show ?thesis using fetch_refused by blast
qed

lemma refused_fetch_is_quiet_witness:
  "snd (fetch sample_fetcher id (\<lambda>_. []) 60 WriteOK ''t2'' ''m9'' sample_world) = sample_world"
proof -
  have "mf_messages sample_fetcher = store_messages sample_env" by (simp add: sample_fetcher_def)
  from refused_fetch_is_quiet [OF this, of id "\<lambda>_. []" 60 WriteOK "''t2''" "''m9''" sample_world] show ?thesis
    by (auto simp: sample_world_def sample_media_message_def)
qed

section \<open>Contacts\<close>

lemma conversation_lidMap [simp]: "conversation (d\<lparr>lidMap := b\<rparr>) t a = conversation d t a"
  by (simp add: conversation_def conversation_addresses_def same_person_def)

lemma aliases_flag:
  "snd (chatAliases E a d) = d \<or> snd (chatAliases E a d) = d\<lparr>lidMap := True\<rparr> \<and> lid_map d \<noteq> None"
  using chatAliases_ready [of E a d]
  by (auto simp: lidMapReady_def tableExists_def split: sum.splits if_splits)

lemma lid_map_ok_aliases: "lid_map_ok d \<Longrightarrow> lid_map_ok (snd (chatAliases E a d)) \<and>
    conversation (snd (chatAliases E a d)) t b = conversation d t b"
  using aliases_flag [of E a d] by (auto simp: lid_map_ok_def lid_rows_def)

lemma markStored_flags:
  assumes "markStored E i t cs d = (Inr out, d')" and "lid_map_ok d" and up: "\<And>k j. \<not> fault (E k) j"
  shows "\<forall>c\<in>set out. ct_HasMessages c \<longleftrightarrow> conversation d t (ct_JID c) \<noteq> []"
  using assms(1,2)
proof (induction cs arbitrary: i d out)
  case (Cons c cs)
  let ?d1 = "snd (message_ListByChat (E i) t (ct_JID c) 1 d)"
  have first: "fst (message_ListByChat (E i) t (ct_JID c) 1 d) =
      Inr (page_desc message_order (nat (normalizeLimit 1)) (conversation d t (ct_JID c)))"
    by (rule message_ListByChat_conversation [OF Cons.prems(2)]) (simp add: up)
  have ne: "page_desc message_order (nat (normalizeLimit 1)) xs \<noteq> [] \<longleftrightarrow> xs \<noteq> []" for xs
    by (cases xs) (auto simp: page_desc_def normalizeLimit_def maxMessageLimit_def take_eq_Nil)
  obtain rest where rest: "markStored E (Suc i) t cs ?d1 = (Inr rest, d')"
    "out = c\<lparr>ct_HasMessages := page_desc message_order (nat (normalizeLimit 1)) (conversation d t (ct_JID c)) \<noteq> []\<rparr> # rest"
    using Cons.prems(1) first by (cases "message_ListByChat (E i) t (ct_JID c) 1 d") (auto split: sum.splits prod.splits)
  have d1: "lid_map_ok ?d1" "\<And>b. conversation ?d1 t b = conversation d t b"
    using lid_map_ok_aliases [OF Cons.prems(2), of "E i" "ct_JID c" t] by (simp_all add: message_ListByChat_snd)
  show ?case using Cons.IH [OF rest(1) d1(1)] rest(2) d1(2) ne by simp
qed simp

lemma lids_flag:
  "snd (lidMapReady E d) = d \<or> snd (lidMapReady E d) = d\<lparr>lidMap := True\<rparr> \<and> lid_map d \<noteq> None"
  by (auto simp: lidMapReady_def tableExists_def split: sum.splits if_splits)

lemma lid_map_ready: "lid_map_ok d \<Longrightarrow> fst (lidMapReady E d) \<Longrightarrow> lid_map (snd (lidMapReady E d)) \<noteq> None"
  by (auto simp: lid_map_ok_def lidMapReady_def tableExists_def split: if_splits sum.splits)

lemma SearchChats_snd: "snd (message_SearchChats E t q n d) \<in> {d, snd (lidMapReady E d)}"
  by (simp add: message_SearchChats_def Let_def case_prod_beta)

lemma SearchChats_keeps:
  assumes "lid_map_ok d" and "message_SearchChats E t q n d = (r, d1)"
  shows "lid_map_ok d1 \<and> conversation d1 t b = conversation d t b"
proof -
  have "d1 = d \<or> d1 = d\<lparr>lidMap := True\<rparr> \<and> lid_map d \<noteq> None"
    using SearchChats_snd [of E t q n d] assms(2) lids_flag [of E d] by auto
  then show ?thesis using assms(1) by (auto simp: lid_map_ok_def lid_rows_def)
qed

lemma markStored_answers:
  assumes "lid_map_ok d" and up: "\<And>k j. \<not> fault (E k) j"
  shows "\<exists>out d'. markStored E i t cs d = (Inr out, d')"
  using assms(1)
proof (induction cs arbitrary: i d)
  case (Cons c cs)
  obtain stored d1 where l: "message_ListByChat (E i) t (ct_JID c) 1 d = (Inr stored, d1)"
    using message_ListByChat_conversation [OF Cons.prems, of "E i" t "ct_JID c" 1] up by (metis prod.collapse)
  have "d1 = snd (chatAliases (E i) (ct_JID c) d)"
    using l message_ListByChat_snd [of "E i" t "ct_JID c" 1 d] by simp
  then have "lid_map_ok d1" using lid_map_ok_aliases [OF Cons.prems] by simp
  from Cons.IH [OF this, of "Suc i"] obtain rest d' where "markStored E (Suc i) t cs d1 = (Inr rest, d')" by blast
  with l show ?case by simp
qed simp

text \<open>With a paired client, an address book and a store that answers, a search answers.\<close>

lemma FindContacts_answers:
  assumes ok: "lid_map_ok (mg_db m)" and up: "\<And>k j. \<not> fault (E k) j"
    and "mg_clients m t = Some client" "cl_LoggedIn client"
  shows "\<exists>out m'. FindContacts E L utl (Some contacts) ask t q m = (Inr out, m')"
proof (cases "TrimSpace q = []")
  case False
  obtain sc d1 where s: "message_SearchChats (E 0) t (TrimSpace q) maxContactResults (mg_db m) = (Inr sc, d1)"
    using up lid_map_ready [OF ok, of "E 0"] by (fastforce simp: message_SearchChats_def Let_def case_prod_beta)
  have "\<exists>nc. chat_Search (E 1) t (TrimSpace q) maxContactResults d1 = Inr nc"
    by (simp add: chat_Search_def up)
  then obtain nc where nc: "chat_Search (E 1) t (TrimSpace q) maxContactResults d1 = Inr nc" by blast
  obtain out d2 where "markStored E 2 t
      (take (nat maxContactResults) (order_asc (\<lambda>c. (ct_Name c, ct_JID c))
        (map snd (candidates L utl contacts ask (TrimSpace q) sc nc)))) d1 = (Inr out, d2)"
    using markStored_answers [where E = E, OF conjunct1 [OF SearchChats_keeps [OF ok s]] up] by blast
  then show ?thesis
    using False assms(3,4) s nc by (simp add: FindContacts_def Let_def del: One_nat_def)
qed (simp add: FindContacts_def)

text \<open>C33. A contact search answers at most 25 contacts, one per address, ordered by name and then by
  address, and a contact is marked as having messages exactly when the tenant has a stored
  conversation with it, under either of its two addresses.\<close>

lemma contacts_found:
  assumes out: "FindContacts E L utl book ask t q m = (Inr out, m')" and ok: "lid_map_ok (mg_db m)"
    and up: "\<And>k j. \<not> fault (E k) j"
  shows "distinct (map ct_JID out) \<and> length out \<le> 25 \<and> sorted (map (\<lambda>c. (ct_Name c, ct_JID c)) out) \<and>
     (\<forall>c\<in>set out. ct_HasMessages c \<longleftrightarrow> conversation (mg_db m) t (ct_JID c) \<noteq> [])"
proof (cases "TrimSpace q = []")
  case True
  then show ?thesis using out by (simp add: FindContacts_def)
next
  case False
  then obtain cs sc d1 d2 where
    s: "message_SearchChats (E 0) t (TrimSpace q) maxContactResults (mg_db m) = (Inr sc, d1)" and
    ms: "markStored E 2 t cs d1 = (Inr out, d2)"
    using out by (auto simp: FindContacts_def Let_def split: option.splits if_splits sum.splits prod.splits)
  note keeps = SearchChats_keeps [OF ok s]
  show ?thesis
    using FindContacts_result [OF out] markStored_flags [OF ms conjunct1 [OF keeps] up] keeps by simp
qed

lemma contacts_found_witness:
  "\<exists>out m'. FindContacts (\<lambda>_. sample_env) plain_jids id (Some []) (\<lambda>_. []) ''t1'' ''57311'' sample_manager = (Inr out, m') \<and>
     (\<forall>c\<in>set out. ct_HasMessages c \<longleftrightarrow> conversation sample_db ''t1'' (ct_JID c) \<noteq> [])"
proof -
  have db: "mg_db sample_manager = sample_db" by (simp add: sample_manager_def)
  obtain out m' where f: "FindContacts (\<lambda>_. sample_env) plain_jids id (Some []) (\<lambda>_. []) ''t1'' ''57311'' sample_manager = (Inr out, m')"
    using FindContacts_answers [of sample_manager "\<lambda>_. sample_env" "''t1''" sample_client plain_jids id "[]" "\<lambda>_. []" "''57311''"]
      sample_lids by (auto simp: db sample_manager_def sample_client_def)
  with contacts_found [OF f] sample_lids show ?thesis by (simp add: db)
qed

end
