(* ===== verification/GatewayProps.thy ===== *)
theory GatewayProps
  imports Startup McpTools AuthProps
begin

text \<open>
  Properties that span the gateway: its start, the life of a tenant and of its keys through the
  HTTP surface, and the agreement of the HTTP and the MCP surface.
\<close>

section \<open>Migrations\<close>

lemma ensure_cases:
  assumes "ensureLIDMapReadable f s = (e, made, s1)"
  shows "applied s1 = applied s" and "lid_table s1 = lid_table s" and "content s1 = content s"
    and "e = None \<Longrightarrow> made \<longleftrightarrow> \<not> lid_table s" and "made \<Longrightarrow> \<not> standin s" and "s1 = (if made then s\<lparr>standin := True\<rparr> else s)"
  using assms by (auto simp: ensureLIDMapReadable_def split: if_splits)

lemma drop_standin_schema:
  "drop_standin f made s = (e, s') \<Longrightarrow> applied s' = applied s \<and> lid_table s' = lid_table s \<and> content s' = content s \<and>
     (e = None \<longrightarrow> s' = (if made then s\<lparr>standin := False\<rparr> else s))"
  by (auto simp: drop_standin_def split: if_splits)

lemma Migrate_steps:
  assumes "Migrate sql f entries s = (e, s')"
  obtains (refused) made where "ensureLIDMapReadable f s = (e, made, s')" "e \<noteq> None"
  | (run) made s1 e2 s2 c where "ensureLIDMapReadable f s = (None, made, s1)"
      "f 3 \<and> e2 \<noteq> None \<and> s2 = s1 \<or>
       \<not> f 3 \<and> apply_each sql (\<lambda>i. f (i + 4)) (sort (filter sql_file entries)) s1 = (e2, s2)"
      "drop_standin f made s2 = (c, s')" "e = (if e2 = None then c else e2)"
proof -
  obtain e1 made s1 where en: "ensureLIDMapReadable f s = (e1, made, s1)" by (cases "ensureLIDMapReadable f s") auto
  show ?thesis
  proof (cases e1)
    case (Some x)
    with en assms show ?thesis by (intro refused) (auto simp: Migrate_def)
  next
    case None
    obtain e2 s2 where b: "(if f 3 then (Some (MigrateError ''store: create migrations table''), s1)
        else apply_each sql (\<lambda>i. f (i + 4)) (sort (filter sql_file entries)) s1) = (e2, s2)" by fastforce
    obtain c s3 where c: "drop_standin f made s2 = (c, s3)" by fastforce
    have "Migrate sql f entries s = (case e2 of None \<Rightarrow> (c, s3) | Some e' \<Rightarrow> (Some e', s3))"
      by (simp only: Migrate_def en None b c prod.case option.case)
    then have m: "s' = s3" "e = (if e2 = None then c else e2)" using assms by (cases e2; simp)+
    have "f 3 \<and> e2 \<noteq> None \<and> s2 = s1 \<or>
        \<not> f 3 \<and> apply_each sql (\<lambda>i. f (i + 4)) (sort (filter sql_file entries)) s1 = (e2, s2)"
      using b by (cases "f 3") auto
    then show ?thesis using en None c m by (intro run) auto
  qed
qed

lemma Migrate_keeps:
  assumes d: "distinct (applied s)" and m: "Migrate sql f entries s = (e, s')"
  shows "distinct (applied s')" and "set (applied s) \<subseteq> set (applied s')"
    and "set (applied s') \<subseteq> set (applied s) \<union> {n \<in> set entries. sql_file n}"
    and "e = None \<Longrightarrow> {n \<in> set entries. sql_file n} \<subseteq> set (applied s')"
    and "e = None \<Longrightarrow> \<not> standin s \<Longrightarrow> \<not> standin s'"
proof -
  have "distinct (applied s') \<and> set (applied s) \<subseteq> set (applied s') \<and>
      set (applied s') \<subseteq> set (applied s) \<union> {n \<in> set entries. sql_file n} \<and>
      (e = None \<longrightarrow> {n \<in> set entries. sql_file n} \<subseteq> set (applied s')) \<and>
      (e = None \<and> \<not> standin s \<longrightarrow> \<not> standin s')"
    using m
  proof (cases rule: Migrate_steps)
    case (refused made)
    with ensure_cases(1) [OF refused(1)] d show ?thesis by auto
  next
    case (run made s1 e2 s2 c)
    let ?files = "sort (filter sql_file entries)"
    note en = ensure_cases [OF run(1)] and dr = drop_standin_schema [OF run(3)]
    have d1: "distinct (applied s1)" using d en(1) by simp
    have "f 3 \<and> e2 \<noteq> None \<and> s2 = s1 \<or> apply_each sql (\<lambda>i. f (i + 4)) ?files s1 = (e2, s2)"
      using run(2) by blast
    then have k: "distinct (applied s2)" "set (applied s) \<subseteq> set (applied s2)" "standin s2 = standin s1"
      "set (applied s2) \<subseteq> set (applied s) \<union> {n \<in> set entries. sql_file n}"
      using apply_each_keeps [of sql "\<lambda>i. f (i + 4)" ?files s1 e2 s2, OF _ d1] d1 en(1) by auto
    have all: "{n \<in> set entries. sql_file n} \<subseteq> set (applied s2)" if "e = None"
      using that run(2,4) apply_each_ok [OF _ d1, of sql "\<lambda>i. f (i + 4)" ?files s2] by (auto split: if_splits)
    have "e = None \<Longrightarrow> \<not> standin s \<Longrightarrow> \<not> standin s'"
      using dr run(4) k(3) en(6) by (auto split: if_splits)
    with k all dr show ?thesis by simp
  qed
  then show "distinct (applied s')" and "set (applied s) \<subseteq> set (applied s')"
    and "set (applied s') \<subseteq> set (applied s) \<union> {n \<in> set entries. sql_file n}"
    and "e = None \<Longrightarrow> {n \<in> set entries. sql_file n} \<subseteq> set (applied s')"
    and "e = None \<Longrightarrow> \<not> standin s \<Longrightarrow> \<not> standin s'" by blast+
qed

lemma Migrate_again:
  assumes "{n \<in> set entries. sql_file n} \<subseteq> set (applied s)" and no: "\<not> standin s" and "\<forall>i. \<not> f i"
  shows "Migrate sql f entries s = (None, s)"
proof -
  have ap: "apply_each sql (\<lambda>_. False) (sort (filter sql_file entries)) x = (None, x)" if "applied x = applied s" for x
    by (rule apply_each_done) (use assms(1) that in auto)
  have "s\<lparr>standin := False\<rparr> = s" using no by (cases s) simp
  moreover have "f = (\<lambda>_. False)" using assms(3) by auto
  ultimately show ?thesis
    using no by (cases "lid_table s") (simp_all add: Migrate_def ensureLIDMapReadable_def drop_standin_def ap)
qed

text \<open>C37. A migration run never applies a file twice and never forgets one: it records only files that
  end in .sql, and when it succeeds all of them, and leaves no stand-in behind. Running it again,
  as every start does, changes nothing.\<close>

lemma migrations_once:
  assumes d: "distinct (applied s)" and m: "Migrate sql f entries s = (e, s')"
  shows "distinct (applied s') \<and> set (applied s) \<subseteq> set (applied s') \<and>
     set (applied s') \<subseteq> set (applied s) \<union> {n \<in> set entries. sql_file n} \<and>
     (e = None \<longrightarrow> {n \<in> set entries. sql_file n} \<subseteq> set (applied s')) \<and>
     (e = None \<and> \<not> standin s \<longrightarrow> \<not> standin s' \<and>
        (\<forall>sql' f'. (\<forall>i. \<not> f' i) \<longrightarrow> Migrate sql' f' entries s' = (None, s')))"
  using Migrate_keeps [OF d m] Migrate_again [of entries s'] by blast

lemma Migrate_succeeds:
  assumes ok: "\<And>n c. sql n c = Some (g n c)" and "\<not> standin s"
  shows "\<exists>s'. Migrate sql (\<lambda>_. False) entries s = (None, s')"
proof -
  have each: "fst (apply_each sql (\<lambda>_. False) ns x) = None" for ns and x :: "'a schema"
    by (induction ns arbitrary: x) (auto simp: applyMigration_def Let_def ok)
  obtain s2 where "apply_each sql (\<lambda>_. False) (sort (filter sql_file entries)) s = (None, s2)"
    using each [of "sort (filter sql_file entries)" s] by (metis prod.collapse)
  moreover obtain s3 where "apply_each sql (\<lambda>_. False) (sort (filter sql_file entries)) (s\<lparr>standin := True\<rparr>) = (None, s3)"
    using each [of "sort (filter sql_file entries)" "s\<lparr>standin := True\<rparr>"] by (metis prod.collapse)
  ultimately show ?thesis
    using assms(2) by (cases "lid_table s") (simp_all add: Migrate_def ensureLIDMapReadable_def drop_standin_def)
qed

lemma migrations_once_witness:
  "\<exists>s'. Migrate (\<lambda>_ c. Some (Suc c)) (\<lambda>_. False) [''0002.sql'', ''notes.txt'', ''0001.sql'']
       \<lparr>content = 0, applied = [], lid_table = False, standin = False\<rparr> = (None, s') \<and>
     Migrate (\<lambda>_ c. Some (Suc c)) (\<lambda>_. False) [''0002.sql'', ''notes.txt'', ''0001.sql''] s' = (None, s')"
proof -
  let ?s = "\<lparr>content = 0 :: nat, applied = [], lid_table = False, standin = False\<rparr>"
  define es where "es = [''0002.sql'', ''notes.txt'', ''0001.sql'']"
  obtain s' where m: "Migrate (\<lambda>_ c. Some (Suc c)) (\<lambda>_. False) es ?s = (None, s')"
    using Migrate_succeeds [of "\<lambda>_ c. Some (Suc c)" "\<lambda>_ c. Suc c" ?s es] by auto
  with migrations_once [OF _ m] show ?thesis unfolding es_def by auto
qed

section \<open>Start\<close>

lemma parsePort_Atoi: "parsePort raw = Inr n \<Longrightarrow> Atoi raw = Some n \<and> raw \<noteq> []"
  by (auto simp: parsePort_def Atoi_def split: option.splits if_splits)

lemma resolveBindAddr_given:
  assumes "resolveBindAddr b p = Inr (addr, n)" and "b \<noteq> []"
  obtains host raw where "SplitHostPort b = Some (host, raw)" and "parsePort raw = Inr n"
  using assms by (auto simp: resolveBindAddr_def Let_def split: option.splits sum.splits)

text \<open>Without a bind address: the port that was set, or 8080, on the loopback interface.\<close>

lemma resolveBindAddr_loopback:
  assumes r: "resolveBindAddr [] p = Inr (addr, n)"
  shows "Atoi (if p \<noteq> [] then p else ''8080'') = Some n" and "SplitHostPort addr = Some (''127.0.0.1'', Itoa n)"
proof -
  have split: "SplitHostPort (JoinHostPort ''127.0.0.1'' (Itoa k)) = Some (''127.0.0.1'', Itoa k)" if "0 \<le> k" for k
    using Itoa_plain [of k] that by (intro SplitHostPort_Join) auto
  have d: "SplitHostPort defaultBindAddr = Some (''127.0.0.1'', ''8080'')"
    by (simp add: SplitHostPort_def defaultBindAddr_def before_last_def after_last_def)
  have a: "Atoi ''8080'' = Some 8080" by (simp add: Atoi_def digits_value_def ascii_digit_def less_eq_char_def)
  then have e: "parsePort ''8080'' = Inr 8080" by (simp add: parsePort_def)
  have "parsePort (if p \<noteq> [] then p else ''8080'') = Inr n \<and> addr = JoinHostPort ''127.0.0.1'' (Itoa n)"
  proof (cases "p = []")
    case True
    with r d e show ?thesis by (auto simp: resolveBindAddr_def Let_def)
  next
    case False
    with r obtain k where k: "parsePort p = Inr k" by (auto simp: resolveBindAddr_def Let_def split: sum.splits)
    with False r split [of k] parsePort_Itoa [of k] parsePort_Inr [OF k] show ?thesis by (auto simp: resolveBindAddr_def Let_def)
  qed
  then show "Atoi (if p \<noteq> [] then p else ''8080'') = Some n" and "SplitHostPort addr = Some (''127.0.0.1'', Itoa n)"
    using parsePort_Atoi parsePort_Inr [of "if p \<noteq> [] then p else ''8080''" n] split by auto
qed

lemma healthcheck_port_cases:
  assumes "LoadGateway utl dur getenv = Inr cfg"
  shows "Atoi (healthcheckPort getenv) = Some (ga_Port cfg)"
    and "TrimSpace (getenv ''BIND_ADDR'') = [] \<Longrightarrow> SplitHostPort (ga_BindAddr cfg) = Some (''127.0.0.1'', Itoa (ga_Port cfg))"
proof -
  define b where "b = TrimSpace (getenv ''BIND_ADDR'')"
  define p where "p = TrimSpace (getenv ''PORT'')"
  have r: "resolveBindAddr b p = Inr (ga_BindAddr cfg, ga_Port cfg)"
    using LoadGateway_Inr(2) [OF assms] by (simp add: b_def p_def)
  have h: "healthcheckPort getenv = (case (if b \<noteq> [] then SplitHostPort b else None) of
        Some (_, q) \<Rightarrow> if q \<noteq> [] then q else if p \<noteq> [] then p else ''8080''
      | None \<Rightarrow> if p \<noteq> [] then p else ''8080'')"
    unfolding healthcheckPort_def Let_def b_def p_def by (rule refl)
  have "Atoi (healthcheckPort getenv) = Some (ga_Port cfg) \<and>
      (b = [] \<longrightarrow> SplitHostPort (ga_BindAddr cfg) = Some (''127.0.0.1'', Itoa (ga_Port cfg)))"
  proof (cases "b = []")
    case True
    with resolveBindAddr_loopback [of p] r show ?thesis by (simp add: h)
  next
    case False
    with r obtain host raw where "SplitHostPort b = Some (host, raw)" "parsePort raw = Inr (ga_Port cfg)"
      by (rule resolveBindAddr_given)
    with False parsePort_Atoi show ?thesis by (auto simp: h)
  qed
  then show "Atoi (healthcheckPort getenv) = Some (ga_Port cfg)"
    and "TrimSpace (getenv ''BIND_ADDR'') = [] \<Longrightarrow> SplitHostPort (ga_BindAddr cfg) = Some (''127.0.0.1'', Itoa (ga_Port cfg))"
    by (simp_all add: b_def)
qed

lemmas healthcheck_port = healthcheck_port_cases(1)

text \<open>The container's health check looks where the gateway listens: whenever the configuration is
  accepted, the port the check reads from the environment is the port of the address the server
  is bound to, which is in range; with no bind address configured the gateway listens on the
  loopback interface, where the check connects.\<close>

lemma healthcheck_agrees:
  assumes "LoadGateway utl dur getenv = Inr cfg"
  shows "1 \<le> ga_Port cfg \<and> ga_Port cfg \<le> 65535 \<and> Atoi (healthcheckPort getenv) = Some (ga_Port cfg) \<and>
     (\<exists>host. SplitHostPort (ga_BindAddr cfg) = Some (host, Itoa (ga_Port cfg)) \<and>
        (TrimSpace (getenv ''BIND_ADDR'') = [] \<longrightarrow> host = ''127.0.0.1''))"
  using resolveBindAddr_Inr [OF LoadGateway_Inr(2) [OF assms]] healthcheck_port_cases [OF assms] by auto

definition sample_getenv :: "string \<Rightarrow> string" where
  "sample_getenv k = (if k = ''ADMIN_TOKEN'' then ''s3cret'' else if k = ''PORT'' then ''9090'' else [])"

lemma sample_config: "\<exists>cfg. LoadGateway id (\<lambda>_. None) sample_getenv = Inr cfg"
proof -
  have t: "TrimSpace ''s3cret'' = ''s3cret''" "TrimSpace ''9090'' = ''9090''" "TrimSpace [] = []"
    by (simp_all add: trim_eval)
  have p: "parsePort ''9090'' = Inr 9090"
    by (simp add: parsePort_def Atoi_def digits_value_def ascii_digit_def less_eq_char_def)
  have s: "splitList (ToLower id []) = []" "splitList [] = []"
    by (simp_all add: splitList_def ToLower_def t)
  have "SplitHostPort (JoinHostPort ''127.0.0.1'' (Itoa 9090)) = Some (''127.0.0.1'', Itoa 9090)"
    using Itoa_plain [of 9090] by (intro SplitHostPort_Join) auto
  with p parsePort_Itoa [of 9090]
  have "resolveBindAddr [] ''9090'' = Inr (JoinHostPort ''127.0.0.1'' (Itoa 9090), 9090)"
    by (simp add: resolveBindAddr_def Let_def)
  then show ?thesis
    by (simp add: LoadGateway_def Let_def sample_getenv_def t s ParseHistorySyncScope_def
        parseHistorySyncTimeout_def ParseMediaMaxBytes_def ParseMediaFetchTypes_def)
qed

lemma restore_each_clients:
  "mg_clients (restore_each L C devs ss m) t \<noteq> None \<Longrightarrow> mg_clients m t \<noteq> None \<or>
     (\<exists>s\<in>set ss. s_TenantID s = t \<and> (\<exists>raw. s_WAJID s = Some raw \<and> raw \<noteq> []))"
  by (induction L C devs ss m rule: restore_each.induct) (fastforce split: option.splits if_splits)+

lemma restore_each_rest:
  "mg_db (restore_each L C devs ss m) = mg_db m \<and> mg_pending (restore_each L C devs ss m) = mg_pending m \<and>
   mg_scope (restore_each L C devs ss m) = mg_scope m"
  by (induction L C devs ss m rule: restore_each.induct) (auto split: option.splits if_splits)

lemma RestoreSessions_clients:
  assumes "RestoreSessions E L C m = (e, m')" and none: "mg_clients m = (\<lambda>_. None)"
  shows "mg_db m' = mg_db m \<and> mg_pending m' = mg_pending m \<and> mg_scope m' = mg_scope m \<and>
    (\<forall>t. mg_clients m' t \<noteq> None \<longrightarrow>
       (\<exists>s\<in>set (sessions (mg_db m)). s_TenantID s = t \<and> (\<exists>raw. s_WAJID s = Some raw \<and> raw \<noteq> [])))"
proof -
  have scan: "\<exists>s\<in>set (sessions (mg_db m)). s_TenantID s = t \<and> (\<exists>raw. s_WAJID s = Some raw \<and> raw \<noteq> [])"
    if "session_List E (mg_db m) = Inr ss" "s \<in> set ss" "s_TenantID s = t" "s_WAJID s = Some raw" "raw \<noteq> []" for ss s t raw
    using that by (fastforce simp: session_List_def scanSession_def split: if_splits option.splits)
  show ?thesis
  proof (cases "session_List E (mg_db m)")
    case (Inr ss)
    show ?thesis
      using assms Inr scan [OF Inr] restore_each_clients [of L C _ ss m] restore_each_rest [of L C _ ss m]
      by (auto simp: RestoreSessions_def split: option.splits) blast
  qed (use assms in \<open>simp add: RestoreSessions_def\<close>)
qed

lemma default_scope_valid: "ValidateScopes [ScopeMessagesSend] = None"
proof -
  have "TrimSpace ''messages:send'' = ''messages:send''" by (simp add: trim_eval)
  then show ?thesis by (simp add: ScopeMessagesSend_def Wildcard_def splitScope_lit knownScopes_lit)
qed

text \<open>The pieces of a successful start.\<close>

lemma startup_parts:
  fixes B :: "'j boot"
  assumes st: "startup B L utl dur getenv = Inr st"
  obtains cfg m0 m1 e d' where "LoadGateway utl dur getenv = Inr cfg"
    and "m0 = \<lparr>mg_db = d', mg_pending = newPendingHistory, mg_unresolved = 0, mg_clients = (\<lambda>_. None),
      mg_scope = ga_HistorySyncScope cfg\<rparr>"
    and "RestoreSessions (bo_env B) L (bo_container B) m0 = (e, m1)"
    and "st = \<lparr>ru_Config = cfg,
      ru_Settings = \<lparr>se_utl = utl, se_errtext = bo_errtext B, se_mediaDir = ga_MediaDir cfg,
        se_mediaMaxBytes = ga_MediaMaxBytes cfg, se_mediaAllowed = ga_MediaFetchTypes cfg\<rparr>,
      ru_HistoryTimeout = ga_HistorySyncTimeout cfg,
      ru_Gateway = \<lparr>gw_db = mg_db m1, gw_wa = \<lparr>en_manager = m1, en_files = bo_files B, en_net = []\<rparr>\<rparr>\<rparr>"
proof -
  obtain cfg where cfg: "LoadGateway utl dur getenv = Inr cfg" using st by (auto simp: startup_def split: sum.splits)
  let ?o = "\<lparr>mo_HistoryScope = ga_HistorySyncScope cfg, mo_HistoryTimeout = ga_HistorySyncTimeout cfg,
     mo_MediaDir = ga_MediaDir cfg, mo_MediaMaxBytes = ga_MediaMaxBytes cfg,
     mo_MediaFetchTypes = ga_MediaFetchTypes cfg\<rparr>"
  note c = LoadGateway_Inr [OF cfg]
  have opts: "with_defaults ?o = ?o"
    using c(3-7) by (auto simp: with_defaults_def HistorySyncScopeDM_def HistorySyncScopeDMGroup_def HistorySyncScopeAll_def)
  have dirs: "bo_dirs B" using st cfg by (auto simp: startup_def split: if_splits)
  let ?open = "Open (bo_abs B) (bo_open B) (\<lambda>_. bo_ping B) (ga_DBPath cfg)"
  obtain s0 repos where s0: "?open = Inr (s0, repos)"
    using st cfg dirs by (cases ?open) (auto simp: startup_def)
  obtain me s1 where mg: "Migrate (bo_sql B) (bo_fault B) (bo_entries B) s0 = (me, s1)" by fastforce
  have me: "me = None" using st cfg dirs s0 mg by (cases me) (auto simp: startup_def)
  let ?new = "NewManager (bo_upgrade B) utl (bo_errtext B) ?o (content s1) :: wa_error + 'j manager \<times> settings \<times> int"
  obtain p where p: "?new = Inr p" using st cfg dirs s0 mg me by (cases ?new) (auto simp: startup_def)
  obtain m0 S timeout where nm: "?new = Inr (m0, S, timeout)" using p by (cases p) auto
  obtain e m1 where rs: "RestoreSessions (bo_env B) L (bo_container B) m0 = (e, m1)" by fastforce
  have r: "st = \<lparr>ru_Config = cfg, ru_Settings = S, ru_HistoryTimeout = timeout,
      ru_Gateway = \<lparr>gw_db = mg_db m1, gw_wa = \<lparr>en_manager = m1, en_files = bo_files B, en_net = []\<rparr>\<rparr>\<rparr>"
    using st cfg dirs s0 mg me nm rs by (simp add: startup_def)
  obtain d' where m0: "m0 = \<lparr>mg_db = d', mg_pending = newPendingHistory, mg_unresolved = 0, mg_clients = (\<lambda>_. None),
      mg_scope = ga_HistorySyncScope cfg\<rparr>"
    and S: "S = \<lparr>se_utl = utl, se_errtext = bo_errtext B, se_mediaDir = ga_MediaDir cfg,
      se_mediaMaxBytes = ga_MediaMaxBytes cfg, se_mediaAllowed = allowedMediaTypes utl (ga_MediaFetchTypes cfg)\<rparr>"
    and timeout: "timeout = ga_HistorySyncTimeout cfg"
    using nm by (auto simp: NewManager_def Let_def opts split: option.splits)
  have types: "allowedMediaTypes utl (ga_MediaFetchTypes cfg) = ga_MediaFetchTypes cfg"
    using c(6) by (intro allowed_known) blast
  show thesis using that [OF cfg m0 rs] r S timeout types by simp
qed

lemma running_server_ok:
  assumes "startup B L utl dur getenv = Inr st"
  shows "\<exists>S. running_server Ou L gmt st = Inr S \<and> sv_adminToken S = ga_AdminToken (ru_Config st) \<and>
    sv_adminToken S \<noteq> [] \<and> sv_defaultScopes S = [ScopeMessagesSend]"
  by (rule startup_parts [OF assms])
     (use LoadGateway_Inr(1) default_scope_valid in \<open>auto simp: running_server_def New_def Let_def\<close>)

text \<open>C38. A gateway that starts is a configured one: the admin token is not empty and is the one the
  HTTP surface checks, keys without requested scopes get exactly the right to send, the history
  scope, the timeout and the media limits are the accepted settings, only known media types may
  be fetched, nothing waits for history, and a client exists only for a tenant whose session
  has a paired number.\<close>

lemma started_gateway:
  fixes B :: "'j boot"
  assumes st: "startup B L utl dur getenv = Inr st"
  shows "LoadGateway utl dur getenv = Inr (ru_Config st) \<and>
     (\<exists>S. running_server Ou L gmt st = Inr S \<and> sv_adminToken S = ga_AdminToken (ru_Config st) \<and>
        sv_adminToken S \<noteq> [] \<and> sv_defaultScopes S = [ScopeMessagesSend]) \<and>
     ru_HistoryTimeout st = ga_HistorySyncTimeout (ru_Config st) \<and> 0 < ru_HistoryTimeout st \<and>
     se_mediaMaxBytes (ru_Settings st) = ga_MediaMaxBytes (ru_Config st) \<and> 0 < se_mediaMaxBytes (ru_Settings st) \<and>
     se_mediaDir (ru_Settings st) = ga_MediaDir (ru_Config st) \<and>
     se_mediaAllowed (ru_Settings st) = ga_MediaFetchTypes (ru_Config st) \<and>
     set (se_mediaAllowed (ru_Settings st)) \<subseteq> set knownMediaTypes \<and>
     mg_scope (en_manager (gw_wa (ru_Gateway st))) = ga_HistorySyncScope (ru_Config st) \<and>
     mg_pending (en_manager (gw_wa (ru_Gateway st))) = newPendingHistory \<and>
     (\<forall>t. mg_clients (en_manager (gw_wa (ru_Gateway st))) t \<noteq> None \<longrightarrow>
        (\<exists>s\<in>set (sessions (gw_db (ru_Gateway st))). s_TenantID s = t \<and> (\<exists>raw. s_WAJID s = Some raw \<and> raw \<noteq> [])))"
proof -
  obtain cfg m0 m1 e d' where cfg: "LoadGateway utl dur getenv = Inr cfg"
    and m0: "m0 = \<lparr>mg_db = d', mg_pending = newPendingHistory, mg_unresolved = 0, mg_clients = (\<lambda>_. None),
      mg_scope = ga_HistorySyncScope cfg\<rparr>"
    and rs: "RestoreSessions (bo_env B) L (bo_container B) m0 = (e, m1)"
    and r: "st = \<lparr>ru_Config = cfg,
      ru_Settings = \<lparr>se_utl = utl, se_errtext = bo_errtext B, se_mediaDir = ga_MediaDir cfg,
        se_mediaMaxBytes = ga_MediaMaxBytes cfg, se_mediaAllowed = ga_MediaFetchTypes cfg\<rparr>,
      ru_HistoryTimeout = ga_HistorySyncTimeout cfg,
      ru_Gateway = \<lparr>gw_db = mg_db m1, gw_wa = \<lparr>en_manager = m1, en_files = bo_files B, en_net = []\<rparr>\<rparr>\<rparr>"
    by (rule startup_parts [OF st])
  note c = LoadGateway_Inr [OF cfg]
  have "mg_clients m0 = (\<lambda>_. None)" by (simp add: m0)
  note rest = RestoreSessions_clients [OF rs this]
  have srv: "\<exists>S. running_server Ou L gmt st = Inr S \<and> sv_adminToken S = ga_AdminToken cfg \<and>
      sv_adminToken S \<noteq> [] \<and> sv_defaultScopes S = [ScopeMessagesSend]"
    using running_server_ok [OF st] by (simp add: r)
  show ?thesis using cfg srv rest c(4-6) by (simp add: r m0)
qed

definition sample_boot :: "plain_jid boot" where
  "sample_boot = \<lparr>bo_dirs = True,
     bo_abs = Some, bo_open = (\<lambda>_. Some \<lparr>content = sample_db, applied = [''0001_init.sql''], lid_table = True, standin = False\<rparr>), bo_ping = True,
     bo_sql = (\<lambda>_ d. Some d), bo_fault = (\<lambda>_. False), bo_entries = [''0001_init.sql'', ''0002_media_reference.sql''],
     bo_upgrade = Some, bo_env = sample_env,
     bo_container = \<lparr>ct_GetDevice = (\<lambda>_. Some None), ct_AllDevices = Some [Some (PlainJID ''57300'' 0 ''s.whatsapp.net'')],
       new_client = (\<lambda>dev. \<lparr>cl_ID = dev, cl_LIDs = None, cl_LoggedIn = True, cl_Connected = True\<rparr>)\<rparr>,
     bo_errtext = (\<lambda>_. []), bo_files = (\<lambda>_. None)\<rparr>"

lemma sample_start: "\<exists>st. startup sample_boot plain_jids id (\<lambda>_. None) sample_getenv = Inr st"
proof -
  obtain cfg where "LoadGateway id (\<lambda>_. None) sample_getenv = Inr cfg" using sample_config by blast
  moreover obtain s1 where "Migrate (bo_sql sample_boot) (bo_fault sample_boot) (bo_entries sample_boot)
      \<lparr>content = sample_db, applied = [''0001_init.sql''], lid_table = True, standin = False\<rparr> = (None, s1)"
    using Migrate_succeeds [of "bo_sql sample_boot" "\<lambda>_ d. d" "\<lparr>content = sample_db, applied = [''0001_init.sql''],
        lid_table = True, standin = False\<rparr>" "bo_entries sample_boot"]
    by (auto simp: sample_boot_def)
  moreover have "\<exists>dsn. buildDSN Some (ga_DBPath cfg) = Inr dsn" by (simp add: buildDSN_def)
  ultimately show ?thesis
    by (auto simp: startup_def sample_boot_def NewManager_def Let_def case_prod_beta Open_def)
qed

lemma started_gateway_witness:
  "\<exists>st. startup sample_boot plain_jids id (\<lambda>_. None) sample_getenv = Inr st \<and>
     (\<exists>(Ou :: plain_jid outside) S. running_server Ou plain_jids (\<lambda>_. MediaImage) st = Inr S \<and> sv_adminToken S \<noteq> [])"
  using sample_start started_gateway [of sample_boot plain_jids id "\<lambda>_. None" sample_getenv] by blast

section \<open>Tenants and keys over HTTP\<close>

lemma live_key_frame: "api_keys d' = api_keys d \<Longrightarrow> live_key d' h = live_key d h"
  by (simp add: live_key_def)

lemma issueKey_issued:
  assumes "issueKey E E' utl rand t name scopes d = (Some ik, d')"
  shows "\<exists>k. apikey_Create E' k d = (None, d') \<and> k_TenantID k = t \<and> k_Scopes k = scopes \<and> k_ID k = ik_ID ik \<and>
    k_KeyHash k = HashKey (ik_Key ik) \<and> ik_Scopes ik = scopes"
proof -
  obtain gen where gen: "GenerateKey utl rand t = Inr gen" using assms by (auto simp: issueKey_def split: sum.splits)
  let ?k = "\<lparr>k_ID = NewID E 0, k_TenantID = t, k_Name = name, k_KeyHash = Hash gen, k_KeyPrefix = Prefix gen,
    k_Scopes = scopes, k_CreatedAt = nowAt E 0, k_LastUsedAt = None, k_RevokedAt = None\<rparr>"
  have hash: "Hash gen = HashKey (Plaintext gen)" using gen GenerateKey_Inr [of utl rand t gen] by auto
  have "apikey_Create E' ?k d = (None, d')" and ik: "ik = \<lparr>ik_ID = NewID E 0, ik_Name = name, ik_KeyPrefix = Prefix gen,
      ik_Scopes = scopes, ik_Key = Plaintext gen\<rparr>"
    using assms gen by (auto simp: issueKey_def Let_def split: prod.splits option.splits)
  then show ?thesis using hash by (intro exI [of _ ?k]) simp
qed

lemma issueKey_failed: "issueKey E E' utl rand t name scopes d = (None, d') \<Longrightarrow> d' = d"
  by (auto simp: issueKey_def Let_def dest: apikey_Create_error split: sum.splits prod.splits option.splits)

lemma session_Ensure_exists:
  "session_EnsureForTenant E t d = (Inr s, d') \<Longrightarrow> t \<in> s_TenantID ` set (sessions d')"
  by (auto simp: session_EnsureForTenant_def Let_def dest!: session_GetByTenant_found
      split: sum.splits store_error.splits if_splits option.splits)

lemma issued_live:
  assumes c: "apikey_Create E k d = (None, d')" and v: "ValidateScopes (k_Scopes k) = None"
  shows "\<exists>key. live_key d' (k_KeyHash k) = Some key \<and> k_TenantID key = k_TenantID k \<and> k_ID key = k_ID k \<and>
    (\<forall>q. HasScope (k_Scopes key) q = HasScope (k_Scopes k) q)"
  using live_key_created [OF c] HasScope_stored [OF v] by (auto simp: scanAPIKey_def key_row_def)

text \<open>What the handler did, from the answer: refused before the key was stored, or every step.\<close>

lemma create_chain:
  assumes h: "handleCreateTenant E utl rand S r g = (resp, g')"
  shows "status resp \<in> {400, 500} \<and> api_keys (gw_db g') = api_keys (gw_db g) \<or>
    (\<exists>t s d1 d2 d3 issued scopes. ValidateScopes scopes = None \<and> tenant_Create (E 3) t (gw_db g) = (None, d1) \<and>
       session_EnsureForTenant (E 4) (t_ID t) d1 = (Inr s, d2) \<and>
       issueKey (E 5) (E 6) utl rand (t_ID t) ''default'' scopes d2 = (Some issued, d3) \<and>
       resp = writeJSON 201 (RTenant \<lparr>cr_ID = t_ID t, cr_TenantName = t_Name t, cr_CreatedAt = t_CreatedAt t,
         cr_APIKey = issued\<rparr>) \<and> g' = g\<lparr>gw_db := d3\<rparr>)"
proof (cases "decodeJSON emptyNameScopes decodeNameScopes r")
  case (Inr req)
  let ?scopes = "resolveScopes S (rq_Scopes req)"
  let ?t = "\<lparr>t_ID = NewID (E 2) 0, t_Name = TrimSpace (rq_Name req), t_CreatedAt = nowAt (E 2) 0\<rparr>"
  obtain e1 d1 where tc: "tenant_Create (E 3) ?t (gw_db g) = (e1, d1)" by fastforce
  obtain s2 d2 where se: "session_EnsureForTenant (E 4) (t_ID ?t) d1 = (s2, d2)" by fastforce
  obtain ik d3 where ki: "issueKey (E 5) (E 6) utl rand (t_ID ?t) ''default'' ?scopes d2 = (ik, d3)" by fastforce
  note frames = tenant_Create_frame [OF tc] session_EnsureForTenant_frame [OF se]
  show ?thesis
  proof (cases "TrimSpace (rq_Name req) \<noteq> [] \<and> ValidateScopes ?scopes = None \<and> e1 = None \<and> isl s2 = False \<and> ik \<noteq> None")
    case True
    then obtain s issued where "s2 = Inr s" "ik = Some issued" by (cases s2) auto
    then have "resp = writeJSON 201 (RTenant \<lparr>cr_ID = t_ID ?t, cr_TenantName = t_Name ?t, cr_CreatedAt = t_CreatedAt ?t,
        cr_APIKey = issued\<rparr>) \<and> g' = g\<lparr>gw_db := d3\<rparr>"
      using h Inr True tc se ki by (simp add: handleCreateTenant_def Let_def)
    then show ?thesis using True tc se ki \<open>s2 = Inr s\<close> \<open>ik = Some issued\<close> by blast
  next
    case False
    then consider "TrimSpace (rq_Name req) = []"
      | e where "TrimSpace (rq_Name req) \<noteq> []" "ValidateScopes ?scopes = Some e"
      | e where "TrimSpace (rq_Name req) \<noteq> []" "ValidateScopes ?scopes = None" "e1 = Some e"
      | e where "TrimSpace (rq_Name req) \<noteq> []" "ValidateScopes ?scopes = None" "e1 = None" "s2 = Inl e"
      | s where "TrimSpace (rq_Name req) \<noteq> []" "ValidateScopes ?scopes = None" "e1 = None" "s2 = Inr s" "ik = None"
      by (cases s2; cases "ValidateScopes ?scopes"; cases e1) auto
    moreover have "ik = None \<Longrightarrow> d3 = d2" using ki issueKey_failed by blast
    ultimately show ?thesis
      by cases (use h Inr tc se ki frames in \<open>simp_all add: handleCreateTenant_def Let_def\<close>, auto)
  qed
qed (use h in \<open>auto simp: handleCreateTenant_def\<close>)

lemma live_principal_frame: "api_keys (gw_db g') = api_keys (gw_db g) \<Longrightarrow> live_principal g' = live_principal g"
  by (rule ext) (simp add: live_principal_def live_key_def)

text \<open>C11. Creating a tenant hands out a working credential: the 201 answer names a new tenant, which
  has a session row, and a key that from then on authenticates as that tenant, with exactly the
  authority of the scopes the answer lists, and never as an administrator; nobody else's
  credential changes. Any other answer leaves every credential as it was.\<close>

lemma created_tenant_works:
  assumes h: "handleCreateTenant E utl rand S r g = (resp, g')"
  shows "(status resp = 201 \<and> (\<exists>c p. rbody resp = Payload (RTenant c) \<and> \<not> tenant_exists (gw_db g) (cr_ID c) \<and>
        tenant_exists (gw_db g') (cr_ID c) \<and> cr_ID c \<in> s_TenantID ` set (sessions (gw_db g')) \<and>
        live_principal g' (HashKey (ik_Key (cr_APIKey c))) = Some p \<and> TenantID p = cr_ID c \<and>
        KeyID p = ik_ID (cr_APIKey c) \<and> \<not> IsAdmin p \<and>
        (\<forall>q. HasScope (Scopes p) q = HasScope (ik_Scopes (cr_APIKey c)) q) \<and>
        (\<forall>x. x = HashKey (ik_Key (cr_APIKey c)) \<or> live_principal g' x = live_principal g x))) \<or>
     (status resp \<in> {400, 500} \<and> live_principal g' = live_principal g)"
  using create_chain [OF h]
proof (elim disjE exE conjE)
  fix t s d1 d2 d3 issued scopes
  assume v: "ValidateScopes scopes = None" and tc: "tenant_Create (E 3) t (gw_db g) = (None, d1)"
    and se: "session_EnsureForTenant (E 4) (t_ID t) d1 = (Inr s, d2)"
    and ki: "issueKey (E 5) (E 6) utl rand (t_ID t) ''default'' scopes d2 = (Some issued, d3)"
    and resp: "resp = writeJSON 201 (RTenant \<lparr>cr_ID = t_ID t, cr_TenantName = t_Name t, cr_CreatedAt = t_CreatedAt t,
        cr_APIKey = issued\<rparr>)" and g': "g' = g\<lparr>gw_db := d3\<rparr>"
  obtain k where k: "apikey_Create (E 6) k d2 = (None, d3)" "k_TenantID k = t_ID t" "k_Scopes k = scopes"
    "k_ID k = ik_ID issued" "k_KeyHash k = HashKey (ik_Key issued)" "ik_Scopes issued = scopes"
    using issueKey_issued [OF ki] by blast
  note frames = tenant_Create_frame [OF tc] session_EnsureForTenant_frame [OF se] apikey_Create_frame [OF k(1)]
  obtain key where key: "live_key d3 (HashKey (ik_Key issued)) = Some key" "k_TenantID key = t_ID t"
    "k_ID key = ik_ID issued" "\<forall>q. HasScope (k_Scopes key) q = HasScope scopes q"
    using issued_live [OF k(1)] v k by auto
  have other: "live_key d3 x = live_key (gw_db g) x" if "x \<noteq> HashKey (ik_Key issued)" for x
    using live_key_create_other [OF k(1)] that k(5) live_key_frame [of d2 "gw_db g"] frames by simp
  have "\<not> tenant_exists (gw_db g) (t_ID t)" "tenant_exists d3 (t_ID t)"
    using tc tenant_Create_ok [of "E 3" t "gw_db g" d1] frames by auto
  moreover have "t_ID t \<in> s_TenantID ` set (sessions d3)" using session_Ensure_exists [OF se] frames by simp
  ultimately show ?thesis
    using key other k(6) by (intro disjI1) (auto simp: g' resp live_principal_def principal_of_def)
qed (auto dest: live_principal_frame)

definition sample_server :: "unit Server" where
  "sample_server =
     \<lparr>sv_adminToken = ''s3cret'',
      sv_sessions = \<lparr>sm_StartPairing = (\<lambda>_ _ g. (Inl ErrNotPaired, g)), sm_Status = (\<lambda>_ g. (Inl ErrNotPaired, g)),
        sm_SendText = (\<lambda>_ to _ g. (Inr \<lparr>sm_WAMessageID = ''wa7'', sm_ChatJID = to, sm_SenderJID = ''57300@s.whatsapp.net'',
          sm_Timestamp = 70\<rparr>, g)),
        sm_FindContacts = (\<lambda>_ _ g. (Inr [], g)), sm_SyncHistory = (\<lambda>_ _ _ g. (Inl ErrNotPaired, g)),
        sm_FetchMedia = (\<lambda>_ _ g. ((emptyMediaRef, Some ErrNotPaired), g))\<rparr>,
      sv_defaultScopes = [ScopeMessagesSend], sv_mcpOrigins = []\<rparr>"

definition sample_gateway :: "unit gateway" where
  "sample_gateway = \<lparr>gw_db = sample_db, gw_wa = ()\<rparr>"

definition sample_request :: "string \<Rightarrow> json_body \<Rightarrow> request" where
  "sample_request token bdy =
     \<lparr>r_Method = ''POST'', r_Path = ''/'', r_Authorization = ''Bearer '' @ token, r_Origin = [], r_PathValues = [],
      r_Query = [], r_Body = bdy, r_Principal = None\<rparr>"

lemma sample_created:
  "status (fst (handleCreateTenant (\<lambda>_. sample_env) id (Some (replicate 32 7)) sample_server
     (sample_request ''s3cret'' (JObject [(''name'', JString ''Acme'')])) sample_gateway)) = 201"
proof -
  have t: "TrimSpace ''Acme'' = ''Acme''" by (simp add: trim_eval)
  have d: "decodeJSON emptyNameScopes decodeNameScopes (sample_request ''s3cret'' (JObject [(''name'', JString ''Acme'')])) =
      Inr \<lparr>rq_Name = ''Acme'', rq_Scopes = []\<rparr>"
    by (simp add: decodeJSON_def sample_request_def decodeNameScopes_def field_values_def char_eval)
  have gen: "\<exists>gen. GenerateKey id (Some (replicate 32 7)) ''id'' = Inr gen \<and> length (Hash gen) = 64"
    by (simp add: GenerateKey_Inr shortenTenantID_spec tenantShortLen_def ToLower_def is_ascii_def char_eval lower_alnum_def)
  let ?t = "\<lparr>t_ID = ''id'', t_Name = ''Acme'', t_CreatedAt = 100\<rparr>"
  let ?d1 = "sample_db\<lparr>tenants := tenants sample_db @ [?t]\<rparr>"
  have ids: "''id'' \<notin> t_ID ` set (tenants sample_db)" "''id'' \<notin> s_TenantID ` set (sessions sample_db)"
    "''id'' \<notin> s_ID ` set (sessions sample_db)"
    by (simp_all add: sample_db_def)
  have tc: "tenant_Create sample_env ?t sample_db = (None, ?d1)" using ids by (simp add: tenant_Create_def)
  obtain s ss where se: "session_EnsureForTenant sample_env ''id'' ?d1 = (Inr s, ?d1\<lparr>sessions := ss\<rparr>)"
    using session_Ensure_creates [of "''id''" ?d1 sample_env] ids by (auto simp: Let_def)
  obtain gen where g: "GenerateKey id (Some (replicate 32 7)) ''id'' = Inr gen" "length (Hash gen) = 64" using gen by blast
  then have "Hash gen \<noteq> ''h1'' \<and> Hash gen \<noteq> ''h2'' \<and> Hash gen \<noteq> []" by auto
  then have ki: "\<exists>issued d3. issueKey sample_env sample_env id (Some (replicate 32 7)) ''id'' ''default'' [ScopeMessagesSend]
      (?d1\<lparr>sessions := ss\<rparr>) = (Some issued, d3)"
    using g(1) by (auto simp: issueKey_def apikey_Create_def Let_def NewID_def)
  have "resolveScopes sample_server [] = [ScopeMessagesSend]" by (simp add: resolveScopes_def sample_server_def)
  then show ?thesis
    using d t tc se ki default_scope_valid
    by (auto simp: handleCreateTenant_def sample_gateway_def Let_def NewID_def)
qed

lemma created_tenant_works_witness:
  "\<exists>c p g'. handleCreateTenant (\<lambda>_. sample_env) id (Some (replicate 32 7)) sample_server
       (sample_request ''s3cret'' (JObject [(''name'', JString ''Acme'')])) sample_gateway = (writeJSON 201 (RTenant c), g') \<and>
     live_principal g' (HashKey (ik_Key (cr_APIKey c))) = Some p \<and> TenantID p = cr_ID c"
proof -
  let ?r = "sample_request ''s3cret'' (JObject [(''name'', JString ''Acme'')])"
  obtain resp g' where h: "handleCreateTenant (\<lambda>_. sample_env) id (Some (replicate 32 7)) sample_server ?r sample_gateway = (resp, g')"
    by fastforce
  then have "status resp = 201" using sample_created by (metis fst_conv)
  with created_tenant_works [OF h] create_chain [OF h] h show ?thesis by auto
qed

text \<open>A reply in the gateway's error shape.\<close>

definition json_error :: "nat set \<Rightarrow> 'p response \<Rightarrow> bool" where
  "json_error codes resp \<longleftrightarrow> status resp \<in> codes \<and> hdrGet ''Content-Type'' (hdr resp) = ''application/json'' \<and>
     (\<exists>code msg. rbody resp = ErrorBody code msg)"

lemma json_error_Write [simp]: "json_error codes (Write h st code msg) \<longleftrightarrow> st \<in> codes"
  by (simp add: json_error_def Write_def)

lemma json_error_replies [simp]:
  "json_error codes (Unauthorized m) \<longleftrightarrow> 401 \<in> codes" "json_error codes (Forbidden m) \<longleftrightarrow> 403 \<in> codes"
  "json_error codes Internal \<longleftrightarrow> 500 \<in> codes"
  by (simp_all add: Unauthorized_def Forbidden_def Internal_def)

lemma json_error_mono: "json_error A resp \<Longrightarrow> A \<subseteq> B \<Longrightarrow> json_error B resp"
  by (auto simp: json_error_def)

lemma dead_key_refused:
  fixes g :: "'w gateway"
  assumes "resolver mw = keyResolver E" and "BearerToken r = [] \<or> live_principal g (HashKey (BearerToken r)) = None"
  shows "\<exists>resp. json_error {401, 500} resp \<and> authenticateTenant mw r g = (Inl resp :: 'p response + Principal, g)"
proof -
  have none: "\<nexists>p. resolver_ResolveKeyHash (E 0) (HashKey (BearerToken r)) g = Inr p" if "BearerToken r \<noteq> []"
    using assms(2) that kr.resolve_live [of E "HashKey (BearerToken r)" g] by (auto simp: keyResolver_def)
  show ?thesis
    using none assms(1)
    by (cases "BearerToken r = []") (auto simp: authenticateTenant_def Let_def keyResolver_def split: sum.splits resolve_error.splits)
qed

text \<open>A successful revocation kills one row's digest, for every later state of the store.\<close>

lemma revoked_row:
  assumes ok: "db_ok d" and rev: "apikey_Revoke E t i d = (None, d')"
  obtains row where "row \<in> set (api_keys d)" and "kr_ID row = i" and "kr_TenantID row = t"
    and "\<forall>x. x \<noteq> kr_KeyHash row \<longrightarrow> live_key d' x = live_key d x"
    and "\<forall>d''. store_step\<^sup>*\<^sup>* d' d'' \<longrightarrow> live_key d'' (kr_KeyHash row) = None"
proof -
  obtain row where row: "row \<in> set (api_keys d)" "kr_ID row = i" "kr_TenantID row = t"
    "\<forall>x. x \<noteq> kr_KeyHash row \<longrightarrow> live_key d' x = live_key d x"
    using revoke_run [OF ok rev rtranclp.rtrancl_refl] by blast
  have dead: "live_key d'' (kr_KeyHash row) = None" if run: "store_step\<^sup>*\<^sup>* d' d''" for d''
  proof -
    obtain row' where "row' \<in> set (api_keys d)" "kr_ID row' = i" "live_key d'' (kr_KeyHash row') = None"
      using revoke_run [OF ok rev run] by blast
    moreover have "row' = row" if "row' \<in> set (api_keys d)" "kr_ID row' = kr_ID row" for row'
      using ok that row(1) by (auto simp: db_ok_def keys_ok_def distinct_map dest: inj_onD)
    ultimately show ?thesis using row(2) by metis
  qed
  show ?thesis by (rule that [OF row]) (use dead in blast)
qed

lemma sample_token: "BearerToken (sample_request ''tok'' b) = ''tok''"
proof -
  have t: "TrimSpace ''tok'' = ''tok''" by (simp add: trim_eval)
  show ?thesis by (rule BearerToken_header [of _ "''Bearer''"]) (simp_all add: sample_request_def EqualFold_def t)
qed

section \<open>The surface\<close>

lemma Split_one: "Split s c = [p] \<Longrightarrow> s = p"
  by (induction s arbitrary: p) (auto split: if_splits list.splits)

lemma RequireScope_dead:
  fixes h :: "('w gateway, 'p) handler"
  assumes "resolver mw = keyResolver E" and "BearerToken r = [] \<or> live_principal g (HashKey (BearerToken r)) = None"
  shows "\<exists>resp. RequireScope mw required h r g = (resp, g) \<and> json_error {401, 500} resp"
  using dead_key_refused [where 'p = 'p, OF assms] by (fastforce simp: RequireScope_def)

lemma RequireTenant_dead:
  fixes h :: "('w gateway, 'p) handler"
  assumes "resolver mw = keyResolver E" and "BearerToken r = [] \<or> live_principal g (HashKey (BearerToken r)) = None"
  shows "\<exists>resp. RequireTenant mw h r g = (resp, g) \<and> json_error {401, 500} resp"
  using dead_key_refused [where 'p = 'p, OF assms] by (fastforce simp: RequireTenant_def)

lemma RequireAllowedOrigin_dead:
  assumes "\<exists>resp. h r g = (resp, g) \<and> json_error {401, 500} resp"
  shows "\<exists>resp. RequireAllowedOrigin utl allowed h r g = (resp, g) \<and> json_error {401, 403, 500} resp"
  using assms json_error_mono [of "{401, 500}" _ "{401, 403, 500}"] by (auto simp: RequireAllowedOrigin_def Let_def)

text \<open>No credential, no handler: every route but the health check turns the request away untouched.\<close>

lemma routes_guarded:
  assumes rt: "rt \<in> set (routes E utl rand open_file mcp S)"
    and dead: "BearerToken r = [] \<or> live_principal g (HashKey (BearerToken r)) = None"
    and admin: "sv_adminToken S = [] \<or> BearerToken r \<noteq> sv_adminToken S"
  shows "rt = \<lparr>rt_Method = ''GET'', rt_Segs = [Lit ''healthz''], rt_Handler = handleHealthz\<rparr> \<or>
    (\<exists>resp. rt_Handler rt r g = (resp, g) \<and> json_error {401, 403, 500} resp)"
proof -
  let ?mw = "server_mw S E"
  have res: "resolver ?mw = keyResolver E" "adminToken ?mw = sv_adminToken S" by (simp_all add: server_mw_def)
  have a: "\<exists>resp. RequireAdmin ?mw h r g = (resp, g) \<and> json_error {401, 403, 500} resp" for h
    using admin res(2) by (simp add: RequireAdmin_rejects)
  have s: "\<exists>resp. RequireScope ?mw required h r g = (resp, g) \<and> json_error {401, 403, 500} resp" for required h
    using RequireScope_dead [OF res(1) dead, of required h] json_error_mono by blast
  have m: "\<exists>resp. RequireAllowedOrigin utl os (RequireTenant ?mw h) r g = (resp, g) \<and> json_error {401, 403, 500} resp" for os h
    by (rule RequireAllowedOrigin_dead) (rule RequireTenant_dead [OF res(1) dead])
  show ?thesis using rt by (auto simp: routes_def Let_def a [simplified] s [simplified] m [simplified])
qed

lemma refused_without_key:
  assumes dead: "BearerToken r = [] \<or> live_principal g (HashKey (BearerToken r)) = None"
    and admin: "sv_adminToken S = [] \<or> BearerToken r \<noteq> sv_adminToken S"
  shows "\<exists>resp. Server_Handler E utl rand open_file mcp S r g = (resp, g) \<and>
     (json_error {401, 403, 404, 405, 500} resp \<or>
      resp = writeJSON 200 RHealth \<and> drop 1 (r_Path r) = ''healthz'' \<and> r_Method r \<in> {''GET'', ''HEAD''})"
proof -
  define rts where "rts = routes E utl rand open_file mcp S"
  define segs where "segs = Split (drop 1 (r_Path r)) (CHR ''/'')"
  define hits where "hits = filter (\<lambda>rt. match_segs (rt_Segs rt) segs \<noteq> None) rts"
  show ?thesis
  proof (cases "find (\<lambda>rt. method_ok (rt_Method rt) (r_Method r)) hits")
    case None
    then show ?thesis
      by (auto simp: Server_Handler_def jsonErrors_def serveMux_def Let_def rts_def segs_def hits_def hdrGet_def)
  next
    case (Some rt)
    then have rt: "rt \<in> set rts" "match_segs (rt_Segs rt) segs \<noteq> None" "method_ok (rt_Method rt) (r_Method r)"
      by (auto simp: hits_def dest: find_SomeD)
    define r' where "r' = r\<lparr>r_PathValues := the (match_segs (rt_Segs rt) segs), r_Principal := None\<rparr>"
    have tok: "BearerToken r' = BearerToken r" by (simp add: BearerToken_def r'_def)
    have mux: "serveMux rts r g = rt_Handler rt r' g"
      using Some by (simp add: serveMux_def Let_def hits_def segs_def r'_def)
    consider (health) "rt = \<lparr>rt_Method = ''GET'', rt_Segs = [Lit ''healthz''], rt_Handler = handleHealthz\<rparr>"
      | (refused) resp where "rt_Handler rt r' g = (resp, g)" "json_error {401, 403, 500} resp"
      using routes_guarded [of rt E utl rand open_file mcp S r' g] rt(1) dead admin by (auto simp: rts_def tok)
    then show ?thesis
    proof cases
      case health
      then have "segs = [''healthz'']" using rt(2) by (cases segs; cases "tl segs") (auto split: if_splits)
      then have "drop 1 (r_Path r) = ''healthz''" unfolding segs_def by (rule Split_one)
      moreover have "r_Method r \<in> {''GET'', ''HEAD''}" using rt(3) by (auto simp: health method_ok_def)
      ultimately show ?thesis
        using mux by (simp add: Server_Handler_def jsonErrors_def rts_def [symmetric] health handleHealthz_def writeJSON_def hdrGet_def)
    next
      case (refused resp)
      then have "jsonErrors (serveMux rts) r g = (resp, g)" using mux by (simp add: jsonErrors_def json_error_def)
      then show ?thesis using refused(2) by (auto simp: Server_Handler_def rts_def [symmetric] json_error_def)
    qed
  qed
qed


lemma sample_dead: "live_principal sample_gateway (HashKey t) = None"
proof -
  have "HashKey t \<noteq> x" if "length x = 2" for x
  proof
    assume "HashKey t = x"
    then have "length x = 64" by (metis length_HashKey)
    with that show False by simp
  qed
  then have "HashKey t \<noteq> ''h1'' \<and> HashKey t \<noteq> ''h2''" by simp
  then show ?thesis by (auto simp: live_principal_def live_key_def sample_gateway_def)
qed




end
