(* ===== verification/SessionRace.thy ===== *)
theory SessionRace
  imports Store Samples
begin

text \<open>
  \<open>EnsureForTenant\<close> of \<open>internal/store/session_repo.go\<close> is three statements, and other goroutines may
  run between them. Here each statement is a step of its own: any number of callers ask for the
  session of one tenant, interleaved with each other and with every other operation of the store.
  Run without interruption, the three steps are the operation of \<open>SessionRepo\<close>.
\<close>

section \<open>The three statements\<close>

text \<open>Where a caller is, and how it ended.\<close>

datatype ensure_phase = Asking | Missing | Inserted | Answered Session | Refused store_error

definition phase_of :: "ensure_phase \<Rightarrow> store_error + Session \<Rightarrow> ensure_phase" where
  "phase_of missing r = (case r of Inr s \<Rightarrow> Answered s | Inl ErrNotFound \<Rightarrow> missing | Inl e \<Rightarrow> Refused e)"

definition ensure_read :: "env \<Rightarrow> string \<Rightarrow> db \<Rightarrow> ensure_phase" where
  "ensure_read E tenantID d = phase_of Missing (session_GetByTenant E tenantID d)"

definition ensure_insert :: "env \<Rightarrow> string \<Rightarrow> db \<Rightarrow> ensure_phase \<times> db" where
  "ensure_insert E tenantID d =
     (let now = nowAt E 0;
          session = \<lparr>s_ID = NewID E 0, s_TenantID = tenantID, s_WAJID = None,
                     s_Status = SessionPending, s_CreatedAt = now, s_UpdatedAt = now\<rparr>
      in if fault E 1 then (Refused (StoreError ''store: create session''), d)
         else case insert_session session d of
           None \<Rightarrow> (Refused (StoreError ''store: create session''), d)
         | Some d' \<Rightarrow> (Inserted, d'))"

definition ensure_reread :: "env \<Rightarrow> string \<Rightarrow> db \<Rightarrow> ensure_phase" where
  "ensure_reread E tenantID d = phase_of (Refused ErrNotFound) (session_GetByTenant E tenantID d)"

text \<open>Without interleaving the statements are \<open>EnsureForTenant\<close>.\<close>

lemma ensure_sequential:
  "session_EnsureForTenant E t d =
     (case ensure_read E t d of
        Missing \<Rightarrow>
          (case ensure_insert E t d of
             (Inserted, d') \<Rightarrow>
               (case ensure_reread (later 2 E) t d' of Answered s \<Rightarrow> (Inr s, d') | Refused e \<Rightarrow> (Inl e, d'))
           | (Refused e, d') \<Rightarrow> (Inl e, d'))
      | Answered s \<Rightarrow> (Inr s, d)
      | Refused e \<Rightarrow> (Inl e, d))"
  by (auto simp: session_EnsureForTenant_def ensure_read_def ensure_insert_def ensure_reread_def phase_of_def Let_def
      split: sum.splits store_error.splits option.splits)

inductive race_step :: "string \<Rightarrow> db \<times> (nat \<Rightarrow> ensure_phase) \<Rightarrow> db \<times> (nat \<Rightarrow> ensure_phase) \<Rightarrow> bool" for t where
  read: "ph c = Asking \<Longrightarrow> race_step t (d, ph) (d, ph(c := ensure_read E t d))"
| insert: "ph c = Missing \<Longrightarrow> ensure_insert E t d = (p, d') \<Longrightarrow> race_step t (d, ph) (d', ph(c := p))"
| reread: "ph c = Inserted \<Longrightarrow> race_step t (d, ph) (d, ph(c := ensure_reread E t d))"
| other: "store_step d d' \<Longrightarrow> race_step t (d, ph) (d', ph)"

inductive_cases race_step_cases: "race_step t (d, ph) (d', ph')"

section \<open>What stays true\<close>

definition has_session :: "string \<Rightarrow> string \<Rightarrow> db \<Rightarrow> bool" where
  "has_session t i d \<longleftrightarrow> (\<exists>r\<in>set (sessions d). s_TenantID r = t \<and> s_ID r = i)"

definition race_ok :: "string \<Rightarrow> db \<times> (nat \<Rightarrow> ensure_phase) \<Rightarrow> bool" where
  "race_ok t st \<longleftrightarrow>
     (case st of (d, ph) \<Rightarrow>
        db_ok d \<and>
        (\<forall>c s. ph c = Answered s \<longrightarrow> s_TenantID s = t \<and> has_session t (s_ID s) d) \<and>
        (\<forall>c. ph c = Inserted \<longrightarrow> (\<exists>i. has_session t i d)))"

lemma has_session_grows:
  assumes "db_grows d d'" and "has_session t i d"
  shows "has_session t i d'"
proof -
  obtain r where r: "r \<in> set (sessions d)" "s_TenantID r = t" "s_ID r = i" using assms(2) by (auto simp: has_session_def)
  then obtain r' where "r' \<in> set (sessions d')" "session_step r r'"
    using rows_grow_member [of session_step "sessions d" "sessions d'"] assms(1) by (auto simp: db_grows_def)
  with r show ?thesis by (auto simp: has_session_def session_step_def)
qed

lemma has_session_unique: "db_ok d \<Longrightarrow> has_session t i d \<Longrightarrow> has_session t j d \<Longrightarrow> i = j"
  by (auto simp: has_session_def db_ok_def sessions_ok_def distinct_map dest: inj_onD)

lemma get_session_row:
  "session_GetByTenant E t d = Inr s \<Longrightarrow> s_TenantID s = t \<and> has_session t (s_ID s) d"
  by (auto simp: session_GetByTenant_def scanSession_def has_session_def find_Some_iff split: if_splits option.splits)

lemma get_session_there:
  "has_session t i d \<Longrightarrow> \<not> fault E 0 \<Longrightarrow> \<exists>s. session_GetByTenant E t d = Inr s"
  by (auto simp: session_GetByTenant_def has_session_def find_None_iff split: option.split)

lemma phase_answered: "phase_of p r = Answered s \<Longrightarrow> (\<forall>x. p \<noteq> Answered x) \<Longrightarrow> r = Inr s"
  by (auto simp: phase_of_def split: sum.splits store_error.splits)

lemma phase_inserted: "phase_of p r = Inserted \<Longrightarrow> p = Inserted"
  by (auto simp: phase_of_def split: sum.splits store_error.splits)

lemma ensure_insert_ok:
  assumes "ensure_insert E t d = (p, d')"
  shows "db_ok d \<Longrightarrow> db_ok d'" and "db_grows d d'" and "p = Inserted \<Longrightarrow> \<exists>i. has_session t i d'" and "p \<noteq> Answered s"
proof -
  define n where "n = \<lparr>s_ID = NewID E 0, s_TenantID = t, s_WAJID = None, s_Status = SessionPending,
    s_CreatedAt = nowAt E 0, s_UpdatedAt = nowAt E 0\<rparr>"
  have v: "SessionStatus_Valid (s_Status n)" "s_WAJID n = None" "s_TenantID n = t"
    by (simp_all add: n_def SessionStatus_Valid_def)
  have c: "d' = d \<and> p \<noteq> Inserted \<and> p \<noteq> Answered s \<or> insert_session n d = Some d' \<and> p = Inserted"
    using assms by (auto simp: ensure_insert_def Let_def n_def [symmetric] split: if_splits option.splits)
  show "db_ok d \<Longrightarrow> db_ok d'" using c insert_session_contract(1) [OF _ v(1,2)] by blast
  show "db_grows d d'" using c insert_session_contract(2) [OF _ v(1,2)] db_grows_refl by blast
  show "p = Inserted \<Longrightarrow> \<exists>i. has_session t i d'"
    using c v(3) by (fastforce simp: insert_session_def has_session_def split: if_splits)
  show "p \<noteq> Answered s" using c by auto
qed

lemma race_step_ok:
  assumes "race_step t st st'" and "race_ok t st"
  shows "race_ok t st'"
  using assms
proof (induction rule: race_step.induct)
  case (read ph c d E)
  then show ?case
    using get_session_row [of E t d] phase_answered [of Missing "session_GetByTenant E t d"]
      phase_inserted [of Missing "session_GetByTenant E t d"]
    by (auto simp: race_ok_def ensure_read_def)
next
  case (insert ph c E d p d')
  note i = ensure_insert_ok [OF insert(2)]
  show ?case
    using insert(3) i has_session_grows [OF i(2)] by (fastforce simp: race_ok_def)
next
  case (reread ph c d E)
  then show ?case
    using get_session_row [of E t d] phase_answered [of "Refused ErrNotFound" "session_GetByTenant E t d"]
      phase_inserted [of "Refused ErrNotFound" "session_GetByTenant E t d"]
    by (auto simp: race_ok_def ensure_reread_def)
next
  case (other d d' ph)
  show ?case
    using other(2) store_step_ok [OF other(1)] has_session_grows [OF store_step_grows [OF other(1)]]
    by (fastforce simp: race_ok_def)
qed

lemma race_run_ok: "(race_step t)\<^sup>*\<^sup>* st st' \<Longrightarrow> race_ok t st \<Longrightarrow> race_ok t st'"
  by (induction rule: rtranclp_induct) (auto dest: race_step_ok)

text \<open>C20. Callers that race for a tenant's session agree: however their statements interleave with each
  other and with the rest of the store, a tenant never has two sessions, all callers that are answered
  are given that one session, and a caller whose insert went through, whether it or a rival created
  the row, finds a session when it reads again.\<close>

lemma racing_callers_agree:
  assumes "db_ok d0" and "(race_step t)\<^sup>*\<^sup>* (d0, \<lambda>_. Asking) (d, ph)"
  shows "(\<forall>a b s s'. ph a = Answered s \<and> ph b = Answered s' \<longrightarrow> s_ID s = s_ID s' \<and> s_TenantID s = t) \<and>
     (\<forall>r\<in>set (sessions d). \<forall>r'\<in>set (sessions d). s_TenantID r = t \<and> s_TenantID r' = t \<longrightarrow> r = r') \<and>
     (\<forall>c E. ph c = Inserted \<and> \<not> fault E 0 \<longrightarrow> (\<exists>s. ensure_reread E t d = Answered s))"
proof -
  have "race_ok t (d0, \<lambda>_. Asking)" using assms(1) by (simp add: race_ok_def)
  from race_run_ok [OF assms(2) this] have ok: "db_ok d"
    and ans: "\<And>c s. ph c = Answered s \<Longrightarrow> s_TenantID s = t \<and> has_session t (s_ID s) d"
    and ins: "\<And>c. ph c = Inserted \<Longrightarrow> \<exists>i. has_session t i d"
    by (auto simp: race_ok_def)
  have "\<exists>s. ensure_reread E t d = Answered s" if "ph c = Inserted" "\<not> fault E 0" for c E
    using ins [OF that(1)] get_session_there [OF _ that(2)] by (fastforce simp: ensure_reread_def phase_of_def)
  moreover have "r = r'" if "r \<in> set (sessions d)" "r' \<in> set (sessions d)" "s_TenantID r = t" "s_TenantID r' = t" for r r'
    using ok that by (auto simp: db_ok_def sessions_ok_def distinct_map dest: inj_onD)
  moreover have "s_ID s = s_ID s' \<and> s_TenantID s = t" if "ph a = Answered s" "ph b = Answered s'" for a b s s'
    using ans [OF that(1)] ans [OF that(2)] has_session_unique [OF ok] by blast
  ultimately show ?thesis by blast
qed

lemma racing_callers_agree_witness:
  "\<exists>d ph s s'. (race_step ''t2'')\<^sup>*\<^sup>* (sample_db, \<lambda>_. Asking) (d, ph) \<and> ph 0 = Answered s \<and> ph 1 = Answered s' \<and>
     s_ID s = s_ID s' \<and> s_TenantID s = ''t2''"
proof -
  let ?E = sample_env and ?R = "race_step ''t2''"
  have no: "''t2'' \<notin> s_TenantID ` set (sessions sample_db)" "''id'' \<notin> s_ID ` set (sessions sample_db)"
    by (simp_all add: sample_db_def)
  have "find (\<lambda>r. s_TenantID r = ''t2'') (sessions sample_db) = None" using no(1) by (force simp: find_None_iff)
  then have miss: "ensure_read ?E ''t2'' sample_db = Missing"
    by (simp add: ensure_read_def phase_of_def session_GetByTenant_def)
  obtain d where i0: "ensure_insert ?E ''t2'' sample_db = (Inserted, d)" and r: "''t2'' \<in> s_TenantID ` set (sessions d)"
    using no by (simp add: ensure_insert_def Let_def insert_session_def NewID_def)
  have i1: "ensure_insert ?E ''t2'' d = (Inserted, d)"
    using r by (simp add: ensure_insert_def Let_def insert_session_def)
  obtain i where "has_session ''t2'' i d" using ensure_insert_ok(3) [OF i0] by blast
  then obtain s where s: "ensure_reread ?E ''t2'' d = Answered s"
    using get_session_there [of "''t2''" i d ?E] by (auto simp: ensure_reread_def phase_of_def)
  let ?p0 = "(\<lambda>_. Asking)(0 := Missing)" and ?p1 = "(\<lambda>_. Asking)(0 := Missing, 1 := Missing)"
  have 1: "?R (sample_db, \<lambda>_. Asking) (sample_db, ?p0)"
    using race_step.read [of "\<lambda>_. Asking" 0 "''t2''" sample_db ?E] by (simp add: miss)
  have 2: "?R (sample_db, ?p0) (sample_db, ?p1)"
    using race_step.read [of ?p0 1 "''t2''" sample_db ?E] by (simp add: miss)
  have 3: "?R (sample_db, ?p1) (d, ?p1(0 := Inserted))" by (rule race_step.insert [OF _ i0]) simp
  have 4: "?R (d, ?p1(0 := Inserted)) (d, ?p1(0 := Inserted, 1 := Inserted))" by (rule race_step.insert [OF _ i1]) simp
  have 5: "?R (d, ?p1(0 := Inserted, 1 := Inserted)) (d, ?p1(0 := Answered s, 1 := Inserted))"
    using race_step.reread [of "?p1(0 := Inserted, 1 := Inserted)" 0 "''t2''" d ?E] by (simp add: s fun_upd_twist)
  have 6: "?R (d, ?p1(0 := Answered s, 1 := Inserted)) (d, ?p1(0 := Answered s, 1 := Answered s))"
    using race_step.reread [of "?p1(0 := Answered s, 1 := Inserted)" 1 "''t2''" d ?E] by (simp add: s)
  have run: "?R\<^sup>*\<^sup>* (sample_db, \<lambda>_. Asking) (d, ?p1(0 := Answered s, 1 := Answered s))"
    using 1 2 3 4 5 6 by (meson converse_rtranclp_into_rtranclp rtranclp.rtrancl_refl)
  have "s_ID s = s_ID s \<and> s_TenantID s = ''t2''"
    by (rule racing_callers_agree [OF sample_db_ok run, THEN conjunct1, rule_format, of 0 s 1 s]) simp
  with run show ?thesis by (intro exI [of _ d] exI [of _ "?p1(0 := Answered s, 1 := Answered s)"] exI [of _ s]) simp
qed

end
