(* ===== verification/Repair.thy ===== *)
theory Repair
  imports MessageReads Store
begin

text \<open>
  \<open>internal/store/migrations/0003_canonical_addresses.sql\<close>: the repair of rows written before
  addresses were canonical. The address of every message is computed from the stored one and the
  LID index before anything is written, one row per message and per match of the two left joins;
  a CHECK refuses the file when a WhatsApp message is stored twice, a unique index when a join has
  several matches. Then the messages whose addresses differ are repointed and the messages the
  tenant sent from the phone get their direction. \<open>None\<close> is a refused file. Where whatsmeow's table
  is missing, \<open>Migrate\<close> puts an empty one in its place, which is what \<open>lid_rows\<close> reads.
\<close>

section \<open>Definitions\<close>

text \<open>\<open>substr\<close> before and after the first \<open>@\<close>, empty where there is none; \<open>substr\<close> before a colon.\<close>

definition address_user :: "string \<Rightarrow> string" where
  "address_user jid = (if CHR ''@'' \<in> set jid then takeWhile (\<lambda>c. c \<noteq> CHR ''@'') jid else [])"

definition address_server :: "string \<Rightarrow> string" where
  "address_server jid = (if CHR ''@'' \<in> set jid then drop 1 (dropWhile (\<lambda>c. c \<noteq> CHR ''@'') jid) else [])"

definition without_device :: "string \<Rightarrow> string" where
  "without_device user = (if CHR '':'' \<in> set user then takeWhile (\<lambda>c. c \<noteq> CHR '':'') user else user)"

definition repaired_address :: "string \<Rightarrow> string option \<Rightarrow> string" where
  "repaired_address jid pn =
     (if address_server jid = [] then jid
      else if address_server jid = lidServer
        then (case pn of Some p \<Rightarrow> p @ CHR ''@'' # phoneServer
              | None \<Rightarrow> without_device (address_user jid) @ CHR ''@'' # lidServer)
      else without_device (address_user jid) @ CHR ''@'' # address_server jid)"

definition joined_addresses :: "db \<Rightarrow> string \<Rightarrow> string list" where
  "joined_addresses d jid =
     map (repaired_address jid)
       (left_join (map snd (filter (\<lambda>r. fst r = without_device (address_user jid)) (lid_rows d))))"

definition canonical_rows :: "db \<Rightarrow> (string \<times> string \<times> string) list" where
  "canonical_rows d =
     concat (map (\<lambda>m. concat (map (\<lambda>c. map (\<lambda>s. (m_ID m, c, s)) (joined_addresses d (m_SenderJID m)))
       (joined_addresses d (m_ChatJID m)))) (messages d))"

definition no_duplicate_wa_message_ids :: "db \<Rightarrow> bool" where
  "no_duplicate_wa_message_ids d \<longleftrightarrow> distinct (map (\<lambda>m. (m_TenantID m, m_WAMessageID m)) (messages d))"

definition repoint :: "(string \<times> string \<times> string) list \<Rightarrow> Message \<Rightarrow> Message" where
  "repoint rows m =
     (case map_of rows (m_ID m) of
        None \<Rightarrow> m
      | Some (c, s) \<Rightarrow> if c \<noteq> m_ChatJID m \<or> s \<noteq> m_SenderJID m then m\<lparr>m_ChatJID := c, m_SenderJID := s\<rparr> else m)"

definition own_numbers :: "db \<Rightarrow> (string \<times> string) list" where
  "own_numbers d =
     map (\<lambda>s. (s_TenantID s, without_device (address_user (the (s_WAJID s)))))
       (filter (\<lambda>s. s_WAJID s \<noteq> None \<and> s_WAJID s \<noteq> Some [] \<and> address_user (the (s_WAJID s)) \<noteq> []) (sessions d))"

definition redirect :: "(string \<times> string) list \<Rightarrow> Message \<Rightarrow> Message" where
  "redirect own m =
     (if m_Direction m = DirectionIn \<and>
         list_ex (\<lambda>(t, u). t = m_TenantID m \<and> m_SenderJID m = u @ CHR ''@'' # phoneServer) own
      then m\<lparr>m_Direction := DirectionOut\<rparr> else m)"

definition canonical_addresses :: "db \<Rightarrow> db option" where
  "canonical_addresses d =
     (if \<not> no_duplicate_wa_message_ids d then None
      else
        (let rows = canonical_rows d in
         if \<not> distinct (map fst rows) then None
         else Some (d\<lparr>messages := map (\<lambda>m. redirect (own_numbers d) (repoint rows m)) (messages d)\<rparr>)))"

section \<open>The repaired address is the canonical one\<close>

lemma split_at:
  "c \<notin> set u \<Longrightarrow> takeWhile (\<lambda>x. x \<noteq> c) (u @ c # s) = u"
  "c \<notin> set u \<Longrightarrow> dropWhile (\<lambda>x. x \<noteq> c) (u @ c # s) = c # s"
  "c \<notin> set u \<Longrightarrow> takeWhile (\<lambda>x. x \<noteq> c) u = u"
  by (induction u) auto

lemma address_parts: "CHR ''@'' \<in> set jid \<Longrightarrow> jid = address_user jid @ CHR ''@'' # address_server jid"
proof -
  assume at: "CHR ''@'' \<in> set jid"
  then obtain u s where j: "jid = u @ CHR ''@'' # s" "CHR ''@'' \<notin> set u" by (meson split_list_first)
  then have "takeWhile (\<lambda>c. c \<noteq> CHR ''@'') jid = u" "dropWhile (\<lambda>c. c \<noteq> CHR ''@'') jid = CHR ''@'' # s"
    by (simp_all add: split_at)
  with j at show ?thesis by (simp add: address_user_def address_server_def)
qed

lemma without_device_takeWhile: "without_device u = takeWhile (\<lambda>c. c \<noteq> CHR '':'') u"
  by (simp add: without_device_def split_at(3))

lemma without_device_chars: "CHR '':'' \<notin> set (without_device u)" "set (without_device u) \<subseteq> set u"
  by (auto simp: without_device_takeWhile dest: set_takeWhileD)

lemma address_user_at: "CHR ''@'' \<notin> set (address_user jid)"
  by (auto simp: address_user_def dest: set_takeWhileD)

lemma splitAddress_parts:
  "splitAddress jid =
     (if without_device (address_user jid) = [] \<or> address_server jid = [] then None
      else Some (without_device (address_user jid), address_server jid))"
proof (cases "CHR ''@'' \<in> set jid")
  case True
  have "Cut jid (CHR ''@'') = (address_user jid, address_server jid, True)"
    using address_parts [OF True] address_user_at [of jid] Cut_append by metis
  then show ?thesis by (auto simp: splitAddress_def without_device_def Let_def)
next
  case False
  then have "Cut jid (CHR ''@'') = (jid, [], False)" by (simp add: Cut_not_found)
  with False show ?thesis by (auto simp: splitAddress_def address_user_def without_device_def)
qed

definition repaired :: "db \<Rightarrow> string \<Rightarrow> string" where
  "repaired d jid =
     repaired_address jid (map_option snd (find (\<lambda>r. fst r = without_device (address_user jid)) (lid_rows d)))"

lemma joined_single:
  assumes "lid_map_ok d"
  shows "joined_addresses d jid = [repaired d jid]"
proof -
  have "filter (\<lambda>r. fst r = u) (lid_rows d) = (case find (\<lambda>r. fst r = u) (lid_rows d) of None \<Rightarrow> [] | Some r \<Rightarrow> [r])" for u
    using assms by (intro filter_at_most_one [where f = fst]) (simp_all add: lid_map_ok_def)
  then show ?thesis by (simp add: joined_addresses_def repaired_def left_join_def split: option.split)
qed

lemma parts_of_address:
  assumes "CHR ''@'' \<notin> set u" and "CHR '':'' \<notin> set u" and "s \<noteq> []"
  shows "address_user (u @ CHR ''@'' # s) = u" and "address_server (u @ CHR ''@'' # s) = s" and "without_device u = u"
  using assms by (simp_all add: address_user_def address_server_def without_device_def split_at)

text \<open>The form of a repaired address: untouched, a known person's phone number, or a user without device.\<close>

lemma repaired_cases:
  assumes ok: "lid_map_ok d"
  obtains (odd) "address_server jid = []" "repaired d jid = jid"
    | (known) lid pn where "(lid, pn) \<in> set (lid_rows d)" "lid = without_device (address_user jid)"
        "address_server jid = lidServer" "repaired d jid = pn @ CHR ''@'' # phoneServer"
    | (plain) "address_server jid \<noteq> []" "repaired d jid = without_device (address_user jid) @ CHR ''@'' # address_server jid"
        "address_server jid = lidServer \<Longrightarrow> without_device (address_user jid) \<notin> fst ` set (lid_rows d)"
proof -
  let ?u = "without_device (address_user jid)"
  show ?thesis
  proof (cases "find (\<lambda>r. fst r = ?u) (lid_rows d)")
    case None
    then have "?u \<notin> fst ` set (lid_rows d)" by (auto simp: find_None_iff)
    with None odd plain show ?thesis by (cases "address_server jid = []") (auto simp: repaired_def repaired_address_def)
  next
    case (Some r)
    then have "r \<in> set (lid_rows d)" "fst r = ?u" by (auto dest: find_SomeD)
    with Some odd known [of ?u "snd r"] plain show ?thesis
      by (cases "address_server jid = []"; cases "address_server jid = lidServer"; cases r)
        (auto simp: repaired_def repaired_address_def)
  qed
qed

lemma repaired_fixed:
  assumes ok: "lid_map_ok d"
  shows "repaired d (repaired d jid) = repaired d jid"
  using ok
proof (cases rule: repaired_cases [of d jid])
  case (known lid pn)
  then show ?thesis
    using parts_of_address [of pn phoneServer] lid_map_ok_bare [OF ok known(1)]
    by (simp add: repaired_def [of d "pn @ _"] repaired_address_def bare_user_def)
next
  case plain
  define u srv where "u = without_device (address_user jid)" and "srv = address_server jid"
  have "CHR ''@'' \<notin> set u" "CHR '':'' \<notin> set u" "srv \<noteq> []"
    using address_user_at without_device_chars plain(1) unfolding u_def srv_def by blast+
  note P = parts_of_address [OF this]
  have "find (\<lambda>r. fst r = u) (lid_rows d) = None" if "srv = lidServer"
    using plain(3) that by (force simp: find_None_iff u_def srv_def)
  then have "repaired d (u @ CHR ''@'' # srv) = u @ CHR ''@'' # srv"
    using P \<open>srv \<noteq> []\<close> by (cases "srv = lidServer") (simp_all add: repaired_def repaired_address_def)
  then show ?thesis using plain(2) by (simp add: u_def srv_def)
qed simp_all

lemma repaired_nonAD:
  assumes "lid_map_ok d"
  shows "nonADAddress (repaired d jid) = repaired d jid"
  using assms
proof (cases rule: repaired_cases [of d jid])
  case odd
  then show ?thesis by (simp add: nonADAddress_def splitAddress_parts)
next
  case (known lid pn)
  then show ?thesis using assms lid_map_ok_bare [of d lid pn] by (simp add: nonADAddress_bare)
next
  case plain
  have "CHR ''@'' \<notin> set (without_device (address_user jid))"
    using address_user_at without_device_chars(2) by blast
  note P = parts_of_address [OF this without_device_chars(1) plain(1)]
  show ?thesis unfolding plain(2) by (simp add: nonADAddress_def splitAddress_parts P)
qed

text \<open>Go leaves an address alone whose user is nothing but a device; the file drops the device.\<close>

lemma repaired_canonical:
  assumes ok: "lid_map_ok d" and user: "splitAddress jid \<noteq> None"
  shows "repaired d jid = canonical_address d (nonADAddress jid)"
proof -
  let ?u = "without_device (address_user jid)"
  have s: "address_server jid \<noteq> []" and n: "nonADAddress jid = ?u @ CHR ''@'' # address_server jid" and b: "bare_user ?u"
    using user splitAddress_Some(1) [of jid ?u "address_server jid"]
    by (auto simp: nonADAddress_def splitAddress_parts split: if_splits)
  show ?thesis
    using ok
  proof (cases rule: repaired_cases [of d jid])
    case (known lid pn)
    then show ?thesis using canonical_lid [OF ok known(1)] by (simp add: n)
  next
    case plain
    have "canonical_address d (nonADAddress jid) = nonADAddress jid"
      using ok
    proof (cases rule: canonical_cases [of d "nonADAddress jid"])
      case (lid lid pn)
      with b lid_map_ok_bare [OF ok lid(1)] n have "?u = lid" "address_server jid = lidServer"
        by (simp_all add: append_at_inject)
      with plain(3) lid(1) show ?thesis by force
    qed
    with plain(2) n show ?thesis by simp
  qed (use s in simp)
qed

section \<open>The whole file\<close>

text \<open>What the file does to one message.\<close>

definition repair :: "db \<Rightarrow> Message \<Rightarrow> Message" where
  "repair d m =
     redirect (own_numbers d) (m\<lparr>m_ChatJID := repaired d (m_ChatJID m), m_SenderJID := repaired d (m_SenderJID m)\<rparr>)"

lemma repair_simps [simp]:
  "m_ID (repair d m) = m_ID m" "m_TenantID (repair d m) = m_TenantID m" "m_WAMessageID (repair d m) = m_WAMessageID m"
  "m_ChatJID (repair d m) = repaired d (m_ChatJID m)" "m_SenderJID (repair d m) = repaired d (m_SenderJID m)"
  "m_Timestamp (repair d m) = m_Timestamp m"
  by (simp_all add: repair_def redirect_def)

lemma redirect_again: "redirect own (redirect own m) = redirect own m"
  by (simp add: redirect_def)

lemma repair_again:
  assumes "lid_map_ok d"
  shows "repair d (repair d m) = repair d m"
proof -
  define x where "x = m\<lparr>m_ChatJID := repaired d (m_ChatJID m), m_SenderJID := repaired d (m_SenderJID m)\<rparr>"
  have r: "repair d m = redirect (own_numbers d) x" by (simp add: repair_def x_def)
  have "(repair d m)\<lparr>m_ChatJID := m_ChatJID x, m_SenderJID := m_SenderJID x\<rparr> = repair d m"
    by (cases x) (simp add: r redirect_def)
  then have "(repair d m)\<lparr>m_ChatJID := repaired d (m_ChatJID (repair d m)), m_SenderJID := repaired d (m_SenderJID (repair d m))\<rparr> = repair d m"
    by (simp add: repaired_fixed [OF assms] x_def)
  then show ?thesis unfolding repair_def [of d "repair d m"] by (simp only: r redirect_again)
qed

lemma canonical_rows_single:
  "lid_map_ok d \<Longrightarrow> canonical_rows d =
     map (\<lambda>m. (m_ID m, repaired d (m_ChatJID m), repaired d (m_SenderJID m))) (messages d)"
  by (simp add: canonical_rows_def joined_single)

lemma repoint_repaired:
  assumes "lid_map_ok d" and "distinct (map m_ID (messages d))" and "m \<in> set (messages d)"
  shows "repoint (canonical_rows d) m = m\<lparr>m_ChatJID := repaired d (m_ChatJID m), m_SenderJID := repaired d (m_SenderJID m)\<rparr>"
proof -
  have "map_of (canonical_rows d) (m_ID m) = Some (repaired d (m_ChatJID m), repaired d (m_SenderJID m))"
    unfolding canonical_rows_single [OF assms(1)]
    using assms(2,3) by (intro map_of_is_SomeI) (auto simp: comp_def)
  then show ?thesis by (cases m) (simp add: repoint_def)
qed

lemma canonical_addresses_runs:
  assumes ok: "lid_map_ok d" and ids: "distinct (map m_ID (messages d))" and wa: "no_duplicate_wa_message_ids d"
  shows "canonical_addresses d = Some (d\<lparr>messages := map (repair d) (messages d)\<rparr>)"
proof -
  have "map (\<lambda>m. redirect (own_numbers d) (repoint (canonical_rows d) m)) (messages d) = map (repair d) (messages d)"
    by (rule map_cong [OF refl]) (simp add: repoint_repaired [OF ok ids] repair_def)
  moreover have "distinct (map fst (canonical_rows d))"
    unfolding canonical_rows_single [OF ok] using ids by (simp add: comp_def)
  ultimately show ?thesis using wa by (simp add: canonical_addresses_def Let_def)
qed

lemma repair_frame [simp]:
  "lid_rows (d\<lparr>messages := ms\<rparr>) = lid_rows d" "lid_map_ok (d\<lparr>messages := ms\<rparr>) = lid_map_ok d"
  "repaired (d\<lparr>messages := ms\<rparr>) = repaired d" "own_numbers (d\<lparr>messages := ms\<rparr>) = own_numbers d"
  "repair (d\<lparr>messages := ms\<rparr>) = repair d"
proof -
  show rows: "lid_rows (d\<lparr>messages := ms\<rparr>) = lid_rows d" by (simp add: lid_rows_def)
  then show "lid_map_ok (d\<lparr>messages := ms\<rparr>) = lid_map_ok d" by (simp add: lid_map_ok_def)
  show r: "repaired (d\<lparr>messages := ms\<rparr>) = repaired d" by (rule ext) (simp add: repaired_def rows)
  show o: "own_numbers (d\<lparr>messages := ms\<rparr>) = own_numbers d" by (simp add: own_numbers_def)
  show "repair (d\<lparr>messages := ms\<rparr>) = repair d" by (rule ext) (simp add: repair_def r o)
qed

lemma canonical_addresses_again:
  assumes ok: "lid_map_ok d" and ids: "distinct (map m_ID (messages d))" and wa: "no_duplicate_wa_message_ids d"
  shows "canonical_addresses (d\<lparr>messages := map (repair d) (messages d)\<rparr>) = Some (d\<lparr>messages := map (repair d) (messages d)\<rparr>)"
proof -
  have "canonical_addresses (d\<lparr>messages := map (repair d) (messages d)\<rparr>) =
      Some (d\<lparr>messages := map (repair d) (map (repair d) (messages d))\<rparr>)"
    using canonical_addresses_runs [of "d\<lparr>messages := map (repair d) (messages d)\<rparr>"] ok ids wa
    by (simp add: no_duplicate_wa_message_ids_def comp_def)
  then show ?thesis by (simp add: repair_again [OF ok] comp_def)
qed

text \<open>A conversation after the repair: every message whose address was one of the person's.\<close>

lemma conversation_repaired:
  assumes ok: "lid_map_ok d" and a: "splitAddress a \<noteq> None"
  shows "conversation (d\<lparr>messages := map (repair d) (messages d)\<rparr>) t a =
    map (repair d) (filter (\<lambda>m. m_TenantID m = t \<and> repaired d (m_ChatJID m) = repaired d a) (messages d))"
proof -
  let ?d = "d\<lparr>messages := map (repair d) (messages d)\<rparr>"
  have addr: "conversation_addresses ?d a = conversation_addresses d a"
    by (simp add: conversation_addresses_def same_person_def)
  have c: "repaired d a = canonical_address d (nonADAddress a)" by (rule repaired_canonical [OF ok a])
  have "repaired d j \<in> conversation_addresses d a \<longleftrightarrow> repaired d j = repaired d a" for j
  proof -
    have fixed: "canonical_address d (repaired d j) = repaired d j"
    proof (cases "splitAddress (repaired d j) = None")
      case True
      have "\<forall>(lid, pn)\<in>set (lid_rows d). repaired d j \<noteq> lid @ CHR ''@'' # lidServer"
        using True lid_map_ok_bare [OF ok] splitAddress_bare [of _ lidServer] by force
      then show ?thesis by (cases rule: canonical_cases [OF ok, of "repaired d j"]) auto
    next
      case False
      show ?thesis
        using repaired_canonical [OF ok False] by (simp add: repaired_fixed [OF ok] repaired_nonAD [OF ok])
    qed
    have "canonical_address d (repaired d j) = repaired d a \<longleftrightarrow> repaired d j \<in> conversation_addresses d (repaired d a)"
      by (rule canonical_conversation [OF ok c]) simp
    moreover have "conversation_addresses d (repaired d a) = conversation_addresses d a"
    proof (cases rule: canonical_cases [OF ok, of "nonADAddress a"])
      case 1
      then show ?thesis by (simp add: c conversation_addresses_def)
    next
      case (2 lid pn)
      then have "same_person d (nonADAddress a) (repaired d a)" by (force simp: same_person_def c)
      then show ?thesis by (rule conversation_addresses_alias [OF ok])
    qed
    ultimately show ?thesis by (simp add: fixed)
  qed
  then show ?thesis by (simp add: conversation_def addr filter_map comp_def)
qed

lemma repaired_split:
  assumes ok: "lid_map_ok d"
  shows "splitAddress (repaired d jid) = None \<longleftrightarrow> splitAddress jid = None"
  using ok
proof (cases rule: repaired_cases [of d jid])
  case (known lid pn)
  then have "splitAddress (pn @ CHR ''@'' # phoneServer) \<noteq> None" "without_device (address_user jid) \<noteq> []"
    using lid_map_ok_bare [OF ok known(1)] by (auto simp: splitAddress_bare bare_user_def)
  with known show ?thesis by (simp add: splitAddress_parts [of jid])
next
  case plain
  have "CHR ''@'' \<notin> set (without_device (address_user jid))"
    using address_user_at without_device_chars(2) by blast
  note P = parts_of_address [OF this without_device_chars(1) plain(1)]
  show ?thesis unfolding plain(2) by (simp add: splitAddress_parts P)
qed simp

lemma repaired_same_person:
  assumes ok: "lid_map_ok d" and a: "splitAddress a \<noteq> None"
  shows "repaired d j = repaired d a \<longleftrightarrow>
    splitAddress j \<noteq> None \<and> canonical_address d (nonADAddress j) = canonical_address d (nonADAddress a)"
proof (cases "splitAddress j = None")
  case True
  then show ?thesis using repaired_split [OF ok, of j] repaired_split [OF ok, of a] a by auto
next
  case False
  then show ?thesis by (simp add: repaired_canonical [OF ok] a)
qed

lemma repaired_no_lid:
  assumes ok: "lid_map_ok d" and known: "(lid, pn) \<in> set (lid_rows d)"
  shows "repaired d j \<noteq> lid @ CHR ''@'' # lidServer"
proof
  assume r: "repaired d j = lid @ CHR ''@'' # lidServer"
  have b: "bare_user lid" using lid_map_ok_bare [OF ok known] by simp
  have "repaired d (repaired d j) = canonical_address d (nonADAddress (repaired d j))"
    using splitAddress_bare [OF b, of lidServer] by (intro repaired_canonical [OF ok]) (simp add: r)
  then have "lid @ CHR ''@'' # lidServer = pn @ CHR ''@'' # phoneServer"
    using canonical_lid [OF ok known] repaired_fixed [OF ok, of j] nonADAddress_bare [OF b, of lidServer] by (simp add: r)
  then show False using b lid_map_ok_bare [OF ok known] by (simp add: append_at_inject)
qed

end
