(* ===== verification/RepairProps.thy ===== *)
theory RepairProps
  imports Repair Samples
begin

text \<open>
  What the repair of stored addresses promises, for the file itself and for the reads that follow it.
\<close>

text \<open>C18. Repairing the stored addresses loses nothing and settles: on a database that keeps its schema the
  file runs, changes no table but the messages and of a message only its two addresses and its
  direction, leaves no address with a device suffix and no LID whose phone number is known, turns
  messages into sent ones only, and a second run changes nothing.\<close>

lemma repair_loses_nothing:
  assumes ok: "messages_ok d" and lids: "lid_map_ok d"
  shows "\<exists>d'. canonical_addresses d = Some d' \<and> canonical_addresses d' = Some d' \<and> d'\<lparr>messages := messages d\<rparr> = d \<and>
     list_all2 (\<lambda>m m'. m' = m\<lparr>m_ChatJID := m_ChatJID m', m_SenderJID := m_SenderJID m', m_Direction := m_Direction m'\<rparr> \<and>
        m_Direction m' \<in> {m_Direction m, DirectionOut}) (messages d) (messages d') \<and>
     (\<forall>m'\<in>set (messages d'). nonADAddress (m_ChatJID m') = m_ChatJID m' \<and> nonADAddress (m_SenderJID m') = m_SenderJID m' \<and>
        (\<forall>(lid, pn)\<in>set (lid_rows d). m_ChatJID m' \<noteq> lid @ ''@lid'' \<and> m_SenderJID m' \<noteq> lid @ ''@lid''))"
proof -
  let ?d = "d\<lparr>messages := map (repair d) (messages d)\<rparr>"
  have ids: "distinct (map m_ID (messages d))" and wa: "no_duplicate_wa_message_ids d"
    using ok by (simp_all add: messages_ok_def no_duplicate_wa_message_ids_def)
  note run = canonical_addresses_runs [OF lids ids wa] canonical_addresses_again [OF lids ids wa]
  have one: "repair d m = m\<lparr>m_ChatJID := m_ChatJID (repair d m), m_SenderJID := m_SenderJID (repair d m),
      m_Direction := m_Direction (repair d m)\<rparr> \<and> m_Direction (repair d m) \<in> {m_Direction m, DirectionOut}" for m
    by (cases m) (simp add: repair_def redirect_def)
  have "repaired d j \<noteq> lid @ ''@lid''" if "(lid, pn) \<in> set (lid_rows d)" for j lid pn
    using repaired_no_lid [OF lids that] by (simp add: lidServer_def)
  then show ?thesis
    using run one repaired_nonAD [OF lids] by (intro exI [of _ ?d]) (auto simp: list_all2_map2 list_all2_same)
qed

definition sample_split :: db where
  "sample_split = sample_db\<lparr>messages :=
     [sample_message ''m1'' ''t1'' ''57311:4@s.whatsapp.net'' 10, sample_message ''m2'' ''t1'' ''8888@lid'' 20,
      sample_message ''m3'' ''t1'' ''57300:87@s.whatsapp.net'' 30]\<rparr>"

lemma sample_split_ok: "messages_ok sample_split" "lid_map_ok sample_split"
  using sample_lids by (simp_all add: messages_ok_def sample_split_def lid_map_ok_def lid_rows_def)

lemma repair_loses_nothing_witness:
  "\<exists>d'. canonical_addresses sample_split = Some d' \<and> canonical_addresses d' = Some d' \<and> d'\<lparr>messages := messages sample_split\<rparr> = sample_split"
  using repair_loses_nothing [OF sample_split_ok] by blast

text \<open>C17. The repair reunites a conversation: afterwards, asked for under the phone number, the LID or a
  device address of a person, the listing is the newest messages, in order, out of all those the
  tenant had stored under any address of that person.\<close>

lemma repair_reunites:
  assumes ok: "messages_ok d" and lids: "lid_map_ok d" and d': "canonical_addresses d = Some d'"
    and a: "splitAddress a \<noteq> None" and up: "\<forall>i. \<not> fault E i"
  shows "\<exists>ms. fst (message_ListByChat E t a n d') = Inr ms \<and>
     map m_ID ms = map m_ID (page_desc message_order (nat (normalizeLimit n))
       (filter (\<lambda>m. m_TenantID m = t \<and> splitAddress (m_ChatJID m) \<noteq> None \<and>
          canonical_address d (nonADAddress (m_ChatJID m)) = canonical_address d (nonADAddress a)) (messages d)))"
proof -
  have "distinct (map m_ID (messages d))" "no_duplicate_wa_message_ids d"
    using ok by (simp_all add: messages_ok_def no_duplicate_wa_message_ids_def)
  with d' have d'_eq: "d' = d\<lparr>messages := map (repair d) (messages d)\<rparr>"
    using canonical_addresses_runs [OF lids] by simp
  have "message_order (repair d m) = message_order m" for m by (simp add: message_order_def)
  moreover have "lid_map_ok d'" using lids by (simp add: d'_eq)
  ultimately show ?thesis
    using message_ListByChat_conversation [of d' E t a n] up
    by (simp add: d'_eq conversation_repaired [OF lids a] repaired_same_person [OF lids a] page_desc_map comp_def)
qed

lemma sample_same_chat:
  "splitAddress ''8888@lid'' = Some (''8888'', lidServer)" "splitAddress ''57311:4@s.whatsapp.net'' = Some (''57311'', phoneServer)"
  "splitAddress ''57300:87@s.whatsapp.net'' = Some (''57300'', phoneServer)"
  by (simp_all add: splitAddress_def Cut_def lidServer_def phoneServer_def)

lemma repair_reunites_witness:
  "\<exists>d' ms. canonical_addresses sample_split = Some d' \<and>
     fst (message_ListByChat sample_env ''t1'' ''57311:4@s.whatsapp.net'' 0 d') = Inr ms \<and> map m_ID ms = [''m2'', ''m1'']"
proof -
  obtain d' where d': "canonical_addresses sample_split = Some d'"
    using canonical_addresses_runs [OF sample_split_ok(2)] sample_split_ok(1)
    by (auto simp: messages_ok_def no_duplicate_wa_message_ids_def)
  have up: "\<forall>i. \<not> fault sample_env i" by simp
  have a: "splitAddress ''57311:4@s.whatsapp.net'' \<noteq> None" by (simp add: sample_same_chat)
  have f: "filter (\<lambda>m. m_TenantID m = ''t1'' \<and> splitAddress (m_ChatJID m) \<noteq> None \<and>
      canonical_address sample_split (nonADAddress (m_ChatJID m)) = canonical_address sample_split (nonADAddress ''57311:4@s.whatsapp.net''))
      (messages sample_split) = [sample_message ''m1'' ''t1'' ''57311:4@s.whatsapp.net'' 10, sample_message ''m2'' ''t1'' ''8888@lid'' 20]"
    by (simp add: sample_split_def nonADAddress_def sample_same_chat canonical_address_def lid_rows_def lidServer_def phoneServer_def)
  show ?thesis
    using repair_reunites [OF sample_split_ok d' a up, of "''t1''" 0] d'
    unfolding f by (auto simp: page_desc_def message_order_def normalizeLimit_def defaultMessageLimit_def)
qed

end
