(* ===== verification/McpServer.thy ===== *)
theory McpServer
  imports McpTools
begin

text \<open>
  The MCP server of \<open>internal/mcpserver/server.go\<close> around the tools of \<open>McpTools\<close>: their input
  structs, their registration in \<open>New\<close>, and \<open>mcpHandler\<close> of \<open>internal/httpapi/server.go\<close>, which
  mounts the server behind the HTTP surface. What the SDK does is a parameter: how it finds a tool
  call in a request, how it fills an input struct from the call's arguments, and how it renders a
  result. The handler is stateless, so a tool runs in the context of the very request that calls
  it; a request carries at most one call, as in the protocol versions without batches.
\<close>

section \<open>Inputs\<close>

record ListChatsInput =
  li_Limit :: int

record ListMessagesInput =
  lm_ChatJID :: string
  lm_Limit :: int

record SendMessageInput =
  si_To :: string
  si_Body :: string

record FindContactInput =
  fi_Query :: string

record SyncHistoryInput =
  sy_ChatJID :: string
  sy_Count :: int

record GetMediaInput =
  gi_MessageID :: string

section \<open>The SDK\<close>

text \<open>A call of a tool by name with its arguments; what it gives, \<open>None\<close> where the SDK itself refuses.\<close>

type_synonym tool_result = "(string + tool_output) option"

record mcp_sdk =
  sd_ListChats :: "json_body \<Rightarrow> ListChatsInput option"
  sd_ListMessages :: "json_body \<Rightarrow> ListMessagesInput option"
  sd_SendMessage :: "json_body \<Rightarrow> SendMessageInput option"
  sd_FindContact :: "json_body \<Rightarrow> FindContactInput option"
  sd_SyncHistory :: "json_body \<Rightarrow> SyncHistoryInput option"
  sd_GetMedia :: "json_body \<Rightarrow> GetMediaInput option"
  sd_Call :: "request \<Rightarrow> (string \<times> json_body) option"
  sd_Reply :: "request \<Rightarrow> tool_result \<Rightarrow> reply response"

record 'w Tool =
  to_Name :: string
  to_ReadOnlyHint :: bool
  to_Call :: "json_body \<Rightarrow> Principal option \<Rightarrow> 'w gateway \<Rightarrow> tool_result \<times> 'w gateway"

text \<open>\<open>mcp.AddTool\<close>: the handler runs on the decoded arguments; a tool of the same name is replaced.\<close>

definition run_tool ::
  "(json_body \<Rightarrow> 'i option) \<Rightarrow> ('i \<Rightarrow> 'w tool) \<Rightarrow> json_body \<Rightarrow> Principal option \<Rightarrow> 'w gateway \<Rightarrow> tool_result \<times> 'w gateway" where
  "run_tool decode h args ctx g =
     (case decode args of
        None \<Rightarrow> (None, g)
      | Some input \<Rightarrow> (case h input ctx g of (out, g') \<Rightarrow> (Some out, g')))"

definition AddTool ::
  "string \<Rightarrow> bool \<Rightarrow> (json_body \<Rightarrow> 'i option) \<Rightarrow> ('i \<Rightarrow> 'w tool) \<Rightarrow> 'w Tool list \<Rightarrow> 'w Tool list" where
  "AddTool name readOnly decode h server =
     filter (\<lambda>t. to_Name t \<noteq> name) server @
     [\<lparr>to_Name = name, to_ReadOnlyHint = readOnly,
       to_Call = run_tool decode h\<rparr>]"

section \<open>Registration\<close>

text \<open>The message repository is reached through the outsides of its calls.\<close>

record 'w Deps =
  dp_Messages :: "nat \<Rightarrow> env"
  dp_Sessions :: "'w SessionManager"

definition registerListChats :: "mcp_sdk \<Rightarrow> 'w Deps \<Rightarrow> 'w Tool list \<Rightarrow> 'w Tool list" where
  "registerListChats sdk deps =
     AddTool ''list_chats'' True (sd_ListChats sdk) (\<lambda>i. list_chats (dp_Messages deps) (li_Limit i))"

definition registerListMessages :: "mcp_sdk \<Rightarrow> 'w Deps \<Rightarrow> 'w Tool list \<Rightarrow> 'w Tool list" where
  "registerListMessages sdk deps =
     AddTool ''list_messages'' True (sd_ListMessages sdk)
       (\<lambda>i. list_messages (dp_Messages deps) (lm_ChatJID i) (lm_Limit i))"

definition registerSendMessage :: "mcp_sdk \<Rightarrow> 'w Deps \<Rightarrow> 'w Tool list \<Rightarrow> 'w Tool list" where
  "registerSendMessage sdk deps =
     AddTool ''send_message'' False (sd_SendMessage sdk)
       (\<lambda>i. send_message (dp_Messages deps) (dp_Sessions deps) (si_To i) (si_Body i))"

definition registerFindContact :: "mcp_sdk \<Rightarrow> 'w Deps \<Rightarrow> 'w Tool list \<Rightarrow> 'w Tool list" where
  "registerFindContact sdk deps =
     AddTool ''find_contact'' True (sd_FindContact sdk) (\<lambda>i. find_contact (dp_Sessions deps) (fi_Query i))"

definition registerSyncHistory :: "mcp_sdk \<Rightarrow> 'w Deps \<Rightarrow> 'w Tool list \<Rightarrow> 'w Tool list" where
  "registerSyncHistory sdk deps =
     AddTool ''sync_history'' False (sd_SyncHistory sdk)
       (\<lambda>i. sync_history (dp_Sessions deps) (sy_ChatJID i) (sy_Count i))"

definition registerGetMedia :: "mcp_sdk \<Rightarrow> 'w Deps \<Rightarrow> 'w Tool list \<Rightarrow> 'w Tool list" where
  "registerGetMedia sdk deps =
     AddTool ''get_media'' False (sd_GetMedia sdk) (\<lambda>i. get_media (dp_Sessions deps) (gi_MessageID i))"

definition mcpserver_New :: "mcp_sdk \<Rightarrow> 'w Deps \<Rightarrow> 'w Tool list" where
  "mcpserver_New sdk deps =
     (let server1 = registerListChats sdk deps [];
          server2 = registerListMessages sdk deps server1;
          server3 = registerSendMessage sdk deps server2;
          server4 = registerFindContact sdk deps server3;
          server5 = registerSyncHistory sdk deps server4
      in registerGetMedia sdk deps server5)"

lemmas register_defs =
  registerListChats_def registerListMessages_def registerSendMessage_def registerFindContact_def
  registerSyncHistory_def registerGetMedia_def

section \<open>The endpoint\<close>

definition call_tool ::
  "'w Tool list \<Rightarrow> string \<times> json_body \<Rightarrow> Principal option \<Rightarrow> 'w gateway \<Rightarrow> tool_result \<times> 'w gateway" where
  "call_tool server c ctx g =
     (case find (\<lambda>t. to_Name t = fst c) server of
        None \<Rightarrow> (None, g)
      | Some t \<Rightarrow> to_Call t (snd c) ctx g)"

definition mcpHandler :: "mcp_sdk \<Rightarrow> (nat \<Rightarrow> env) \<Rightarrow> 'w Server \<Rightarrow> 'w http_handler" where
  "mcpHandler sdk E S r g =
     (let server = mcpserver_New sdk \<lparr>dp_Messages = E, dp_Sessions = sv_sessions S\<rparr> in
      case sd_Call sdk r of
        None \<Rightarrow> (sd_Reply sdk r None, g)
      | Some c \<Rightarrow> (case call_tool server c (PrincipalFrom r) g of (out, g') \<Rightarrow> (sd_Reply sdk r out, g')))"

section \<open>The six tools\<close>

lemma tool_names:
  "map to_Name (mcpserver_New sdk deps) =
     [''list_chats'', ''list_messages'', ''send_message'', ''find_contact'', ''sync_history'', ''get_media'']"
  by (simp add: mcpserver_New_def register_defs AddTool_def)

text \<open>A call is one of the six tools on decoded arguments, or is refused by the SDK.\<close>

lemma mcpserver_New_eq:
  "mcpserver_New sdk \<lparr>dp_Messages = E, dp_Sessions = sm\<rparr> =
     [\<lparr>to_Name = ''list_chats'', to_ReadOnlyHint = True,
       to_Call = run_tool (sd_ListChats sdk) (\<lambda>i. list_chats E (li_Limit i))\<rparr>,
      \<lparr>to_Name = ''list_messages'', to_ReadOnlyHint = True,
       to_Call = run_tool (sd_ListMessages sdk) (\<lambda>i. list_messages E (lm_ChatJID i) (lm_Limit i))\<rparr>,
      \<lparr>to_Name = ''send_message'', to_ReadOnlyHint = False,
       to_Call = run_tool (sd_SendMessage sdk) (\<lambda>i. send_message E sm (si_To i) (si_Body i))\<rparr>,
      \<lparr>to_Name = ''find_contact'', to_ReadOnlyHint = True,
       to_Call = run_tool (sd_FindContact sdk) (\<lambda>i. find_contact sm (fi_Query i))\<rparr>,
      \<lparr>to_Name = ''sync_history'', to_ReadOnlyHint = False,
       to_Call = run_tool (sd_SyncHistory sdk) (\<lambda>i. sync_history sm (sy_ChatJID i) (sy_Count i))\<rparr>,
      \<lparr>to_Name = ''get_media'', to_ReadOnlyHint = False,
       to_Call = run_tool (sd_GetMedia sdk) (\<lambda>i. get_media sm (gi_MessageID i))\<rparr>]"
  by (simp add: mcpserver_New_def register_defs AddTool_def)

lemma run_tool_keeps:
  assumes "to_Call t = run_tool decode h" and "to_Call t args ctx g = (out, g')" and P: "\<And>i. P (h i ctx g)"
  shows "out = None \<and> g' = g \<or> (\<exists>o'. out = Some o' \<and> P (o', g'))"
proof (cases "decode args")
  case (Some i)
  with assms(1,2) have "h i ctx g = (the out, g')" "out = Some (the out)"
    by (auto simp: run_tool_def split: prod.splits)
  with P [of i] show ?thesis by auto
qed (use assms(1,2) in \<open>simp add: run_tool_def\<close>)

text \<open>What holds of every tool's answer, given that it holds of each tool, holds of a call.\<close>

lemma call_tool_induct:
  assumes c: "call_tool (mcpserver_New sdk \<lparr>dp_Messages = E, dp_Sessions = sm\<rparr>) (name, args) ctx g = (out, g')"
    and "\<And>n. P ''list_chats'' (list_chats E n ctx g)"
    and "\<And>j n. P ''list_messages'' (list_messages E j n ctx g)"
    and "\<And>to body. P ''send_message'' (send_message E sm to body ctx g)"
    and "\<And>q. P ''find_contact'' (find_contact sm q ctx g)"
    and "\<And>j n. P ''sync_history'' (sync_history sm j n ctx g)"
    and "\<And>i. P ''get_media'' (get_media sm i ctx g)"
  shows "out = None \<and> g' = g \<or> (\<exists>o'. out = Some o' \<and> P name (o', g'))"
proof (cases "find (\<lambda>t. to_Name t = name) (mcpserver_New sdk \<lparr>dp_Messages = E, dp_Sessions = sm\<rparr>)")
  case None
  then show ?thesis using c by (simp add: call_tool_def)
next
  case (Some t)
  then have t: "t \<in> set (mcpserver_New sdk \<lparr>dp_Messages = E, dp_Sessions = sm\<rparr>)" "to_Name t = name"
    by (auto simp: find_Some_iff)
  have run: "to_Call t args ctx g = (out, g')" using c Some by (simp add: call_tool_def)
  from t(1) show ?thesis
    unfolding mcpserver_New_eq set_simps insert_iff empty_iff simp_thms
    by (elim disjE; intro run_tool_keeps [OF _ run, where P = "P name"])
       (use t(2) assms(2-) in \<open>simp_all, auto\<close>)
qed

text \<open>The scope a tool asks for.\<close>

definition tool_scope :: "string \<Rightarrow> string" where
  "tool_scope name =
     (if name = ''send_message'' then ScopeMessagesSend else if name = ''get_media'' then ScopeMediaRead
      else ScopeMessagesRead)"

lemma call_tool_refuses:
  assumes no: "\<nexists>p. ctx = Some p \<and> TenantID p \<noteq> [] \<and> principal_HasScope p (tool_scope name)"
    and c: "call_tool (mcpserver_New sdk \<lparr>dp_Messages = E, dp_Sessions = sm\<rparr>) (name, args) ctx g = (out, g')"
  shows "g' = g \<and> (out = None \<or> (\<exists>message. out = Some (Inl message)))"
proof -
  let ?P = "\<lambda>name' r. name' = name \<longrightarrow> (\<exists>message. r = (Inl message, g))"
  have scope: "\<exists>message. with_scope (tool_scope name) h ctx g = (Inl message, g)" for h
    using with_scope_refuses [of ctx "tool_scope name" h g] no by blast
  have "out = None \<and> g' = g \<or> (\<exists>o'. out = Some o' \<and> ?P name (o', g'))"
    by (rule call_tool_induct [OF c, where P = ?P])
       (use scope in \<open>auto simp: list_chats_def list_messages_def send_message_def find_contact_def
          sync_history_def get_media_def tool_scope_def\<close>)
  then show ?thesis by auto
qed

end
