(* ===== verification/Surface.thy ===== *)
theory Surface
  imports McpServer
begin

text \<open>
  What one request does to the gateway, whichever endpoint it reaches. The locale
  \<open>tenant_relation\<close> asks of a relation between gateways that it is a preorder and that it admits
  what the tenants of a set may cause: calls of the session manager for them, messages recorded for
  them, the use of a key noted. Then every handler and every tool keeps it when it runs for such a
  tenant, and so does the whole surface of \<open>internal/httpapi\<close> and \<open>internal/mcpserver\<close> for a request
  that carries such a tenant's key. \<open>handler_relation\<close> admits every step of the store instead, and
  gives the same for every request. The relations are chosen by the interpretations: see \<open>System\<close>
  and \<open>Isolation\<close>.
\<close>

section \<open>Steps of the store\<close>

lemma store_steps:
  "tenant_Create E t d = (e, d') \<Longrightarrow> store_step d d'"
  "apikey_Create E k d = (e, d') \<Longrightarrow> store_step d d'"
  "apikey_Revoke E a b d = (e, d') \<Longrightarrow> store_step d d'"
  "apikey_MarkUsed E i d = (e, d') \<Longrightarrow> store_step d d'"
  "session_EnsureForTenant E a d = (s, d') \<Longrightarrow> store_step d d'"
  "message_Append E m d = (e, d') \<Longrightarrow> store_step d d'"
  using store_step.intros(1,2,3,4,5,7) by (metis snd_conv)+

lemma message_ListChats_snd: "snd (message_ListChats E t n d) \<in> {d, snd (lidMapReady E d)}"
  by (auto simp: message_ListChats_def Let_def case_prod_beta)

lemma issueKey_step: "issueKey E E' utl rand t name scopes d = (r, d') \<Longrightarrow> d' = d \<or> store_step d d'"
  by (auto simp: issueKey_def Let_def dest!: store_steps(2) split: sum.splits option.splits prod.splits)

section \<open>Requests of a tenant\<close>

locale tenant_relation =
  fixes R :: "'w gateway \<Rightarrow> 'w gateway \<Rightarrow> bool"
    and sm :: "'w SessionManager"
    and T :: "string set"
  assumes here: "R g g"
    and onwards: "R g g1 \<Longrightarrow> R g1 g2 \<Longrightarrow> R g g2"
    and recorded: "m_TenantID m \<in> T \<Longrightarrow> R g (g\<lparr>gw_db := snd (message_Append E m (gw_db g))\<rparr>)"
    and looked: "R g (g\<lparr>gw_db := snd (lidMapReady E (gw_db g))\<rparr>)"
    and used: "R g (g\<lparr>gw_db := snd (apikey_MarkUsed E i (gw_db g))\<rparr>)"
    and get_status: "t \<in> T \<Longrightarrow> R g (snd (sm_Status sm t g))"
    and send: "t \<in> T \<Longrightarrow> R g (snd (sm_SendText sm t to body g))"
    and contacts: "t \<in> T \<Longrightarrow> R g (snd (sm_FindContacts sm t q g))"
    and sync: "t \<in> T \<Longrightarrow> R g (snd (sm_SyncHistory sm t c n g))"
    and media: "t \<in> T \<Longrightarrow> R g (snd (sm_FetchMedia sm t i g))"
begin

lemma calls:
  "sm_Status sm t g = (r1, g') \<Longrightarrow> t \<in> T \<Longrightarrow> R g g'"
  "sm_SendText sm t to body g = (r2, g') \<Longrightarrow> t \<in> T \<Longrightarrow> R g g'"
  "sm_FindContacts sm t q g = (r3, g') \<Longrightarrow> t \<in> T \<Longrightarrow> R g g'"
  "sm_SyncHistory sm t c n g = (r4, g') \<Longrightarrow> t \<in> T \<Longrightarrow> R g g'"
  "sm_FetchMedia sm t i g = (r5, g') \<Longrightarrow> t \<in> T \<Longrightarrow> R g g'"
  using get_status send contacts sync media by (metis snd_conv)+

lemma reads:
  "message_ListByChat E t a n (gw_db g) = (r1, d') \<Longrightarrow> R g (g\<lparr>gw_db := d'\<rparr>)"
  "message_ListChats E t n (gw_db g) = (r2, d') \<Longrightarrow> R g (g\<lparr>gw_db := d'\<rparr>)"
proof -
  have same: "R g (g\<lparr>gw_db := d\<rparr>)" if "d = gw_db g \<or> d = snd (lidMapReady E (gw_db g))" for d
    using that looked here by fastforce
  show "message_ListByChat E t a n (gw_db g) = (r1, d') \<Longrightarrow> R g (g\<lparr>gw_db := d'\<rparr>)"
    using message_ListByChat_snd [of E t a n "gw_db g"] chatAliases_ready [of E a "gw_db g"] same by (metis snd_conv)
  show "message_ListChats E t n (gw_db g) = (r2, d') \<Longrightarrow> R g (g\<lparr>gw_db := d'\<rparr>)"
    using message_ListChats_snd [of E t n "gw_db g"] same by (metis insertE singletonD snd_conv)
qed

lemma with_tenant:
  "(\<And>p. PrincipalFrom r = Some p \<Longrightarrow> TenantID p \<in> T) \<Longrightarrow> (\<And>p. TenantID p \<in> T \<Longrightarrow> R g (snd (h p r g))) \<Longrightarrow>
   R g (snd (withTenant h r g))"
  by (simp add: withTenant_def here split: option.split)

lemma wa_reply [simp]: "snd (waReply x g) = g"
  by (simp add: waReply_def split: sum.split option.split)

lemma sent_then_stored:
  assumes "sm_SendText sm t to body g = (x, g1)" and "t \<in> T"
  shows "R g (g1\<lparr>gw_db := snd (message_Append E (outboundRecord E' t sent b) (gw_db g1))\<rparr>)"
proof -
  have "m_TenantID (outboundRecord E' t sent b) \<in> T" using assms(2) by (simp add: outboundRecord_def)
  from onwards [OF calls(2) [OF assms] recorded [OF this]] show ?thesis .
qed

lemma tenant_handlers:
  assumes S: "sv_sessions S = sm" and p: "\<And>p. PrincipalFrom r = Some p \<Longrightarrow> TenantID p \<in> T"
  shows "R g (snd (handleGetSession S r g))"
    and "R g (snd (handleSendMessage E S r g))"
    and "R g (snd (handleListChats E r g))"
    and "R g (snd (handleListChatMessages E r g))"
    and "R g (snd (handleSyncChatHistory S r g))"
    and "R g (snd (handleFindContacts S r g))"
    and "R g (snd (handleGetMessageMedia open_file S r g))"
proof -
  show "R g (snd (handleGetSession S r g))"
    unfolding handleGetSession_def
    by (rule with_tenant [OF p]) (use calls(1) in \<open>simp_all add: S split: prod.split\<close>)
  show "R g (snd (handleSendMessage E S r g))"
    unfolding handleSendMessage_def
    by (rule with_tenant [OF p])
       (use calls(2) sent_then_stored in \<open>simp_all add: S here Let_def split: sum.split prod.split option.split\<close>)
  show "R g (snd (handleListChats E r g))"
    unfolding handleListChats_def
    by (rule with_tenant [OF p]) (use reads(2) in \<open>simp_all split: sum.split prod.split\<close>)
  show "R g (snd (handleListChatMessages E r g))"
    unfolding handleListChatMessages_def
    by (rule with_tenant [OF p]) (use reads(1) in \<open>simp_all add: here Let_def split: sum.split prod.split\<close>)
  show "R g (snd (handleSyncChatHistory S r g))"
    unfolding handleSyncChatHistory_def
    by (rule with_tenant [OF p]) (use calls(4) in \<open>simp_all add: S here Let_def split: prod.split option.split\<close>)
  show "R g (snd (handleFindContacts S r g))"
    unfolding handleFindContacts_def
    by (rule with_tenant [OF p]) (use calls(3) in \<open>simp_all add: S here Let_def split: prod.split\<close>)
  show "R g (snd (handleGetMessageMedia open_file S r g))"
    unfolding handleGetMessageMedia_def
    by (rule with_tenant [OF p]) (use calls(5) in \<open>simp_all add: S here Let_def split: prod.split option.split\<close>)
qed

text \<open>The guards record the use of a key and pass the request on for the key's tenant.\<close>

lemma authenticated:
  assumes mw: "resolver mw = keyResolver E" and a: "authenticateTenant mw r g = (x, g1)"
    and live: "\<forall>p. live_principal g (HashKey (BearerToken r)) = Some p \<longrightarrow> TenantID p \<in> T"
  shows "R g g1" and "x = Inr p \<Longrightarrow> TenantID p \<in> T"
proof -
  have "R g (snd (resolver_MarkKeyUsed (E 1) k g))" for k
    using used by (simp add: resolver_MarkKeyUsed_def case_prod_beta)
  then show "R g g1"
    using a by (auto simp: authenticateTenant_def mw keyResolver_def Let_def here
        split: sum.splits resolve_error.splits if_splits)
  show "x = Inr p \<Longrightarrow> TenantID p \<in> T"
    using kr.authenticate_cases [OF mw a] live by auto
qed

lemma require_scope:
  assumes mw: "resolver mw = keyResolver E"
    and live: "\<forall>p. live_principal g (HashKey (BearerToken r)) = Some p \<longrightarrow> TenantID p \<in> T"
    and h: "\<And>p g. TenantID p \<in> T \<Longrightarrow> R g (snd (h (WithPrincipal r p) g))"
  shows "R g (snd (RequireScope mw required h r g))"
  by (auto simp: RequireScope_def split: prod.split sum.split
      intro: authenticated(1) [OF mw _ live] onwards [OF authenticated(1) [OF mw _ live] h] authenticated(2) [OF mw _ live HOL.refl])

lemma require_tenant:
  assumes mw: "resolver mw = keyResolver E"
    and live: "\<forall>p. live_principal g (HashKey (BearerToken r)) = Some p \<longrightarrow> TenantID p \<in> T"
    and h: "\<And>p g. TenantID p \<in> T \<Longrightarrow> R g (snd (h (WithPrincipal r p) g))"
  shows "R g (snd (RequireTenant mw h r g))"
  by (auto simp: RequireTenant_def split: prod.split sum.split
      intro: authenticated(1) [OF mw _ live] onwards [OF authenticated(1) [OF mw _ live] h] authenticated(2) [OF mw _ live HOL.refl])

lemma require_origin: "R g (snd (h r g)) \<Longrightarrow> R g (snd (RequireAllowedOrigin utl allowed h r g))"
  by (simp add: RequireAllowedOrigin_def Let_def here)

text \<open>A route, given what the four administrative ones do with the request.\<close>

lemma every_route:
  assumes rt: "rt \<in> set (routes E utl rand open_file mcp S)" and S: "sv_sessions S = sm"
    and live: "\<forall>p. live_principal g (HashKey (BearerToken r)) = Some p \<longrightarrow> TenantID p \<in> T"
    and mcp: "\<And>p g. TenantID p \<in> T \<Longrightarrow> R g (snd (mcp (WithPrincipal r p) g))"
    and admin: "\<And>h. h \<in> {handleCreateTenant E utl rand S, handleIssueKey E utl rand S, handleRevokeKey E,
      handleStartPairing E S} \<Longrightarrow> R g (snd (RequireAdmin (server_mw S E) h r g))"
  shows "R g (snd (rt_Handler rt r g))"
proof -
  have mw: "resolver (server_mw S E) = keyResolver E" by (simp add: server_mw_def)
  have healthz: "R g (snd (handleHealthz r g))" by (simp add: handleHealthz_def here)
  have p: "PrincipalFrom (WithPrincipal r p) = Some q \<Longrightarrow> TenantID p \<in> T \<Longrightarrow> TenantID q \<in> T" for p q
    by (simp add: PrincipalFrom_def WithPrincipal_def)
  note handlers = tenant_handlers [OF S p]
  note guards = require_scope [OF mw live] require_tenant [OF mw live]
  from rt show ?thesis
    unfolding routes_def Let_def set_simps insert_iff empty_iff simp_thms
    by (elim disjE) (simp_all add: healthz admin guards handlers mcp require_origin)
qed

lemma mux:
  assumes "\<And>rt vs. rt \<in> set rts \<Longrightarrow> R g (snd (rt_Handler rt (r\<lparr>r_PathValues := vs, r_Principal := None\<rparr>) g))"
  shows "R g (snd (serveMux rts r g))"
proof -
  have "R g (snd (rt_Handler rt (r\<lparr>r_PathValues := vs, r_Principal := None\<rparr>) g))"
    if "find P (filter Q rts) = Some rt" for P Q rt vs
    using that assms by (auto simp: find_Some_iff dest!: nth_mem)
  then show ?thesis by (simp add: serveMux_def Let_def here split: option.split)
qed

lemma bearer_path [simp]: "BearerToken (r\<lparr>r_PathValues := vs, r_Principal := p\<rparr>) = BearerToken r"
  by (simp add: BearerToken_def)

lemma Server_Handler_mux:
  "snd (Server_Handler E utl rand open_file mcp S r g) = snd (serveMux (routes E utl rand open_file mcp S) r g)"
  by (simp add: Server_Handler_def jsonErrors_def case_prod_beta)

section \<open>Tools\<close>

lemma scoped:
  "(\<And>p. ctx = Some p \<Longrightarrow> TenantID p \<in> T) \<Longrightarrow> (\<And>p. TenantID p \<in> T \<Longrightarrow> R g (snd (h p g))) \<Longrightarrow>
   R g (snd (with_scope required h ctx g))"
  by (auto simp: with_scope_def requireScope_def here split: sum.split option.split)

lemma every_call:
  assumes c: "call_tool (mcpserver_New sdk \<lparr>dp_Messages = E, dp_Sessions = sm\<rparr>) (name, args) ctx g = (out, g')"
    and p: "\<And>p. ctx = Some p \<Longrightarrow> TenantID p \<in> T"
  shows "R g g'"
proof -
  have "out = None \<and> g' = g \<or> (\<exists>o'. out = Some o' \<and> R g (snd (o', g')))"
  proof (rule call_tool_induct [OF c, where P = "\<lambda>name r. R g (snd r)"])
    show "R g (snd (list_chats E n ctx g))" for n
      unfolding list_chats_def by (rule scoped [OF p]) (use reads(2) in \<open>simp_all split: prod.split sum.split\<close>)
    show "R g (snd (list_messages E j n ctx g))" for j n
      unfolding list_messages_def
      by (rule scoped [OF p]) (use reads(1) in \<open>simp_all add: here split: prod.split sum.split\<close>)
    show "R g (snd (send_message E sm to body ctx g))" for to body
      unfolding send_message_def
      by (rule scoped [OF p]) (use calls(2) sent_then_stored in \<open>simp_all add: here split: prod.split sum.split\<close>)
    show "R g (snd (find_contact sm q ctx g))" for q
      unfolding find_contact_def
      by (rule scoped [OF p]) (use calls(3) in \<open>simp_all add: here split: prod.split sum.split\<close>)
    show "R g (snd (sync_history sm j n ctx g))" for j n
      unfolding sync_history_def
      by (rule scoped [OF p]) (use calls(4) in \<open>simp_all add: here split: prod.split sum.split\<close>)
    show "R g (snd (get_media sm i ctx g))" for i
      unfolding get_media_def
      by (rule scoped [OF p]) (use calls(5) in \<open>simp_all add: here split: prod.split option.split\<close>)
  qed
  then show ?thesis using here by auto
qed

lemma mcp_endpoint:
  assumes "sv_sessions S = sm" and "\<And>p. PrincipalFrom r = Some p \<Longrightarrow> TenantID p \<in> T"
  shows "R g (snd (mcpHandler sdk E S r g))"
  using every_call [OF _ assms(2)] assms(1) by (auto simp: mcpHandler_def Let_def here split: option.split prod.split)

text \<open>A request with a key of such a tenant, or with none, that is not the administrator's.\<close>

lemma tenant_request:
  assumes S: "sv_sessions S = sm" and admin: "sv_adminToken S = [] \<or> BearerToken r \<noteq> sv_adminToken S"
    and live: "\<forall>p. live_principal g (HashKey (BearerToken r)) = Some p \<longrightarrow> TenantID p \<in> T"
  shows "R g (snd (Server_Handler E utl rand open_file (mcpHandler sdk E S) S r g))"
  unfolding Server_Handler_mux
proof (rule mux, rule every_route [OF _ S])
  fix vs p g' h
  let ?r = "r\<lparr>r_PathValues := vs, r_Principal := None\<rparr>"
  show "\<forall>p. live_principal g (HashKey (BearerToken ?r)) = Some p \<longrightarrow> TenantID p \<in> T" using live by simp
  show "TenantID p \<in> T \<Longrightarrow> R g' (snd (mcpHandler sdk E S (WithPrincipal ?r p) g'))"
    by (rule mcp_endpoint [OF S]) (simp add: PrincipalFrom_def WithPrincipal_def)
  show "R g (snd (RequireAdmin (server_mw S E) h ?r g))"
    using RequireAdmin_rejects [of "server_mw S E" ?r h g] admin here by (simp add: server_mw_def)
qed assumption

end

section \<open>Every request\<close>

locale handler_relation =
  fixes R :: "'w gateway \<Rightarrow> 'w gateway \<Rightarrow> bool"
    and sm :: "'w SessionManager"
  assumes here: "R g g"
    and onwards: "R g g1 \<Longrightarrow> R g1 g2 \<Longrightarrow> R g g2"
    and store: "store_step (gw_db g) d \<Longrightarrow> R g (g\<lparr>gw_db := d\<rparr>)"
    and pairing: "R g (snd (sm_StartPairing sm t phone g))"
    and calls_status: "R g (snd (sm_Status sm t g))"
    and calls_send: "R g (snd (sm_SendText sm t to body g))"
    and calls_contacts: "R g (snd (sm_FindContacts sm t q g))"
    and calls_sync: "R g (snd (sm_SyncHistory sm t c n g))"
    and calls_media: "R g (snd (sm_FetchMedia sm t i g))"

sublocale handler_relation \<subseteq> anyone: tenant_relation R sm UNIV
  by unfold_locales
     (simp_all add: here store store_step.intros calls_status calls_send calls_contacts calls_sync calls_media,
      erule (1) onwards)

context handler_relation
begin

lemma stores: "store_step (gw_db g) d \<or> d = gw_db g \<Longrightarrow> R g (g\<lparr>gw_db := d\<rparr>)"
  using store here by fastforce

lemma stores_again: "R g (g\<lparr>gw_db := d\<rparr>) \<Longrightarrow> store_step d d' \<or> d' = d \<Longrightarrow> R g (g\<lparr>gw_db := d'\<rparr>)"
  using onwards [of g "g\<lparr>gw_db := d\<rparr>" "g\<lparr>gw_db := d'\<rparr>"] stores [of "g\<lparr>gw_db := d\<rparr>" d'] by simp

lemma pairs: "sm_StartPairing sm t phone g = (x, g') \<Longrightarrow> R g g'"
  using pairing by (metis snd_conv)

lemma creates_tenant: "R g (snd (handleCreateTenant E utl rand S r g))"
proof (cases "decodeJSON emptyNameScopes decodeNameScopes r")
  case (Inr req)
  define t where "t = \<lparr>t_ID = NewID (E 2) 0, t_Name = TrimSpace (rq_Name req), t_CreatedAt = nowAt (E 2) 0\<rparr>"
  obtain e d1 where 1: "tenant_Create (E 3) t (gw_db g) = (e, d1)" by fastforce
  obtain s d2 where 2: "session_EnsureForTenant (E 4) (t_ID t) d1 = (s, d2)" by fastforce
  obtain k d3 where 3: "issueKey (E 5) (E 6) utl rand (t_ID t) ''default'' (resolveScopes S (rq_Scopes req)) d2 = (k, d3)"
    by fastforce
  have r1: "R g (g\<lparr>gw_db := d1\<rparr>)" using stores store_steps(1) [OF 1] by blast
  have r2: "R g (g\<lparr>gw_db := d2\<rparr>)" using stores_again [OF r1] store_steps(5) [OF 2] by blast
  have r3: "R g (g\<lparr>gw_db := d3\<rparr>)" using stores_again [OF r2] issueKey_step [OF 3] by blast
  show ?thesis
    by (simp add: handleCreateTenant_def Inr Let_def here 1 2 3 r1 r2 r3 flip: t_def split: option.split sum.split)
qed (simp add: handleCreateTenant_def here)

lemma issues_key: "R g (snd (handleIssueKey E utl rand S r g))"
proof -
  have "R g (snd (case issueKey (E 3) (E 4) utl rand t n ss (gw_db g) of
      (None, d1) \<Rightarrow> (Internal, g\<lparr>gw_db := d1\<rparr>) | (Some i, d1) \<Rightarrow> (writeJSON 201 (RIssued i), g\<lparr>gw_db := d1\<rparr>)))" for t n ss
    by (auto split: prod.split option.split intro!: stores dest: issueKey_step)
  then show ?thesis
    by (simp add: handleIssueKey_def Let_def here split: sum.split option.split store_error.split)
qed

lemma revokes_key: "R g (snd (handleRevokeKey E r g))"
  using stores store_steps(3)
  by (auto simp: handleRevokeKey_def split: option.split prod.split store_error.split)

lemma start_pairing:
  assumes "sv_sessions S = sm"
  shows "R g (snd (handleStartPairing E S r g))"
proof -
  have "R g (snd (case session_EnsureForTenant (E 3) t (gw_db g) of
      (Inl e, d1) \<Rightarrow> (Internal, g\<lparr>gw_db := d1\<rparr>)
    | (Inr x, d1) \<Rightarrow> (case sm_StartPairing sm t phone (g\<lparr>gw_db := d1\<rparr>) of
          (Inl e, g2) \<Rightarrow> (case writeWAError e of Some resp \<Rightarrow> (resp, g2) | None \<Rightarrow> (Internal, g2))
        | (Inr result, g2) \<Rightarrow> (writeJSON 200 (RPairing result), g2))))" for t phone
  proof -
    obtain x d1 where 1: "session_EnsureForTenant (E 3) t (gw_db g) = (x, d1)" by fastforce
    obtain y g2 where 2: "sm_StartPairing sm t phone (g\<lparr>gw_db := d1\<rparr>) = (y, g2)" by fastforce
    have "R g (g\<lparr>gw_db := d1\<rparr>)" using stores store_steps(5) [OF 1] by blast
    then show ?thesis using onwards pairs [OF 2] by (auto simp: 1 2 split: sum.split option.split)
  qed
  then show ?thesis
    unfolding handleStartPairing_def Let_def assms by (simp add: here split: sum.split option.split store_error.split)
qed

lemma every_request:
  assumes S: "sv_sessions S = sm"
  shows "R g (snd (Server_Handler E utl rand open_file (mcpHandler sdk E S) S r g))"
  unfolding anyone.Server_Handler_mux
proof (rule anyone.mux, rule anyone.every_route [OF _ S])
  fix vs p g' h
  let ?r = "r\<lparr>r_PathValues := vs, r_Principal := None\<rparr>"
  show "\<forall>p. live_principal g (HashKey (BearerToken ?r)) = Some p \<longrightarrow> TenantID p \<in> UNIV" by simp
  show "R g' (snd (mcpHandler sdk E S (WithPrincipal ?r p) g'))" by (rule anyone.mcp_endpoint [OF S]) simp
  show "R g (snd (RequireAdmin (server_mw S E) h ?r g))"
    if "h \<in> {handleCreateTenant E utl rand S, handleIssueKey E utl rand S, handleRevokeKey E, handleStartPairing E S}"
    using that creates_tenant issues_key revokes_key start_pairing [OF S] by (auto simp: RequireAdmin_def Let_def here)
qed assumption

end

end
