(* ===== verification/System.thy ===== *)
theory System
  imports Surface GatewayProps WaProps
begin

text \<open>
  The running gateway as a transition system: requests on the whole HTTP surface with the MCP
  endpoint mounted, events of the WhatsApp clients, the goroutines of
  \<open>syncGroupNamesInBackground\<close> (\<open>internal/wa/groups.go\<close>), and what whatsmeow does to its own table
  and clients. A request that nothing overtakes and an event handler are one step each. For requests
  that overlap, a single call of a repository is a step as well, and \<open>SyncHistory\<close> is the two steps
  before and after it waits. \<open>gateway_moves\<close> is what a step may do to the state; the locale
  \<open>handler_relation\<close> is interpreted on it and on the engine.
\<close>

section \<open>What a step may do\<close>

definition manager_of :: "'j engine gateway \<Rightarrow> 'j manager" where
  "manager_of g = (en_manager (gw_wa g))\<lparr>mg_db := gw_db g\<rparr>"

definition with_manager :: "'j manager \<Rightarrow> 'j engine gateway \<Rightarrow> 'j engine gateway" where
  "with_manager m g = g\<lparr>gw_db := mg_db m, gw_wa := (gw_wa g)\<lparr>en_manager := m\<rparr>\<rparr>"

text \<open>Files change only two levels below the media directory: a tenant's directory and a plain name.\<close>

definition below_media :: "string \<Rightarrow> string \<Rightarrow> bool" where
  "below_media dir p \<longleftrightarrow>
     (\<exists>t name. clean_segs p = clean_segs dir @ [t, name] \<and> plain_name t \<and> plain_name name \<and>
        rooted_path p = rooted_path dir)"

definition gateway_moves :: "settings \<Rightarrow> 'j engine gateway \<Rightarrow> 'j engine gateway \<Rightarrow> bool" where
  "gateway_moves S g g' \<longleftrightarrow>
     store_step\<^sup>*\<^sup>* (gw_db g) (gw_db g') \<and>
     (pending_ok (mg_pending (en_manager (gw_wa g))) \<longrightarrow> pending_ok (mg_pending (en_manager (gw_wa g')))) \<and>
     (\<forall>p. en_files (gw_wa g') p = en_files (gw_wa g) p \<or> below_media (se_mediaDir S) p)"

lemma gateway_moves_refl: "gateway_moves S g g"
  by (simp add: gateway_moves_def)

lemma gateway_moves_trans: "gateway_moves S g g1 \<Longrightarrow> gateway_moves S g1 g2 \<Longrightarrow> gateway_moves S g g2"
  unfolding gateway_moves_def by (metis rtranclp_trans)

lemma gateway_moves_store: "store_step (gw_db g) d \<Longrightarrow> gateway_moves S g (g\<lparr>gw_db := d\<rparr>)"
  by (simp add: gateway_moves_def r_into_rtranclp)

lemma gateway_moves_manager:
  assumes "store_step\<^sup>*\<^sup>* (gw_db g) (mg_db m)"
    and "pending_ok (mg_pending (en_manager (gw_wa g))) \<longrightarrow> pending_ok (mg_pending m)"
  shows "gateway_moves S g (with_manager m g)"
  using assms by (simp add: gateway_moves_def with_manager_def)

lemma manager_moves_gateway: "manager_moves (manager_of g) m \<Longrightarrow> gateway_moves S g (with_manager m g)"
  by (rule gateway_moves_manager) (simp_all add: manager_moves_def manager_of_def db_evolves_def)

lemma run_manager_with: "snd (run_manager f g) = with_manager (snd (f (manager_of g))) g"
  by (simp add: run_manager_def with_manager_def manager_of_def case_prod_beta)

lemma run_manager_moves:
  "(\<And>m. manager_moves m (snd (f m))) \<Longrightarrow> gateway_moves S g (snd (run_manager f g))"
  by (simp add: run_manager_with manager_moves_gateway)

lemma SyncHistory_pending:
  assumes "pending_ok (mg_pending m)"
  shows "pending_ok (mg_pending (snd (SyncHistory Ou L gmt t c n m)))"
proof -
  obtain r m1 where st: "SyncHistory_start (ou_env Ou 0) L (ou_peer Ou) t c n m = (r, m1)" by fastforce
  have "pending_ok (mg_pending m1)"
    using SyncHistory_start_moves [of m "ou_env Ou 0" L "ou_peer Ou" t c n] st assms by (simp add: manager_moves_def)
  then have m2: "pending_ok (mg_pending (handle_events L gmt (ou_events Ou) m1))" by (rule handle_events_ok)
  have "pending_ok (mg_pending m3)"
    if "SyncHistory_finish (ou_wake Ou) wt (handle_events L gmt (ou_events Ou) m1) = Some (x, m3)" for wt x m3
    using SyncHistory_finish_moves [OF that] m2 by (simp add: manager_moves_def)
  then show ?thesis using m2 pending_ok_release \<open>pending_ok (mg_pending m1)\<close>
    by (simp add: SyncHistory_def st Let_def split: sum.split option.split)
qed

lemma media_path_below:
  assumes "mediaPathFor utl root t i mime = Inr path"
  shows "below_media root path"
proof -
  have r: "root \<noteq> []" "safeTenantSegment t" "path = media_file utl root t i mime"
    using assms TrimSpace_ne by (auto simp: mediaPathFor_spec split: if_splits)
  have "rooted_path path = rooted_path root"
    unfolding r(3) media_file_def by (rule rooted_render [OF kept_media_file [OF r(1,2)]]) simp
  then show ?thesis
    unfolding below_media_def using clean_segs_media_file [OF r(1,2)] safe_plain [OF r(2)] media_name_plain r(3) by blast
qed

lemma fetch_files:
  "mw_files (snd (fetch F utl errtext now out t i W)) p = mw_files W p \<or> below_media (mf_dir F) p"
proof (cases "\<exists>m path dl. admitted F utl t i W m path dl")
  case True
  then obtain m path dl where a: "admitted F utl t i W m path dl" by blast
  then have "below_media (mf_dir F) path" using media_path_below by (auto simp: admitted_def)
  then show ?thesis using fetch_admitted [OF a] download_files by metis
next
  case False
  then show ?thesis using fetch_refused by metis
qed

lemma FetchMedia_moves: "gateway_moves S g (snd (FetchMedia Ou S t i g))"
proof -
  let ?W = "\<lparr>mw_store = gw_db g, mw_files = en_files (gw_wa g), mw_net = en_net (gw_wa g)\<rparr>"
  let ?F = "manager_fetcher Ou S (en_manager (gw_wa g))"
  obtain r W where f: "fetch ?F (se_utl S) (se_errtext S) (ou_now Ou) (ou_write Ou) t i ?W = (r, W)" by fastforce
  have "store_step\<^sup>*\<^sup>* (gw_db g) (mw_store W)"
    using evolving.fetch_kept [of ?F "ou_env Ou 0" ?W "se_utl S" "se_errtext S" "ou_now Ou" "ou_write Ou" t i] f
    by (simp add: db_evolves_def manager_fetcher_def)
  moreover have "\<forall>p. mw_files W p = en_files (gw_wa g) p \<or> below_media (se_mediaDir S) p"
    using fetch_files [of ?F "se_utl S" "se_errtext S" "ou_now Ou" "ou_write Ou" t i ?W] f
    by (simp add: manager_fetcher_def)
  ultimately show ?thesis by (simp add: FetchMedia_def f gateway_moves_def)
qed

interpretation engine: handler_relation "gateway_moves S" "manager_sessions Ou S L gmt" for Ou S L gmt
proof
  fix g g1 g2 :: "'a engine gateway" and d :: db and t phone to body q c i :: string and n :: int
  show "gateway_moves S g g" by (rule gateway_moves_refl)
  show "gateway_moves S g g1 \<Longrightarrow> gateway_moves S g1 g2 \<Longrightarrow> gateway_moves S g g2" by (rule gateway_moves_trans)
  show "store_step (gw_db g) d \<Longrightarrow> gateway_moves S g (g\<lparr>gw_db := d\<rparr>)" by (rule gateway_moves_store)
  show "gateway_moves S g (snd (sm_StartPairing (manager_sessions Ou S L gmt) t phone g))"
    unfolding manager_sessions_def SessionManager.simps by (intro run_manager_moves StartPairing_moves)
  show "gateway_moves S g (snd (sm_Status (manager_sessions Ou S L gmt) t g))"
    unfolding manager_sessions_def SessionManager.simps by (intro run_manager_moves) simp
  show "gateway_moves S g (snd (sm_SendText (manager_sessions Ou S L gmt) t to body g))"
    unfolding manager_sessions_def SessionManager.simps by (intro run_manager_moves SendText_moves)
  show "gateway_moves S g (snd (sm_FindContacts (manager_sessions Ou S L gmt) t q g))"
    unfolding manager_sessions_def SessionManager.simps by (intro run_manager_moves FindContacts_moves)
  show "gateway_moves S g (snd (sm_SyncHistory (manager_sessions Ou S L gmt) t c n g))"
    unfolding manager_sessions_def SessionManager.simps run_manager_with
    using SyncHistory_evolves [of "manager_of g" Ou L gmt t c n] SyncHistory_pending [of "manager_of g" Ou L gmt t c n]
    by (intro gateway_moves_manager) (simp_all add: db_evolves_def manager_of_def)
  show "gateway_moves S g (snd (sm_FetchMedia (manager_sessions Ou S L gmt) t i g))"
    unfolding manager_sessions_def SessionManager.simps by (rule FetchMedia_moves)
qed

section \<open>The transition system\<close>

text \<open>The gateway, the tenants whose name synchronisation runs in the background, and the history
  requests that wait for a phone.\<close>

record 'j system =
  sy_Gateway :: "'j engine gateway"
  sy_Syncs :: "string list"
  sy_Waiting :: "waiting list"

text \<open>\<open>syncGroupNamesInBackground\<close>: the goroutine; its error is logged and nothing else.\<close>

definition syncGroupNamesInBackground ::
  "env \<Rightarrow> 'j jid_lib \<Rightarrow> string \<Rightarrow> ('j \<times> string) option list option \<Rightarrow> 'j engine gateway \<Rightarrow> 'j engine gateway" where
  "syncGroupNamesInBackground E L tenantID groups g = snd (run_manager (syncGroupNames E L tenantID groups) g)"

inductive gateway_step ::
  "'j jid_lib \<Rightarrow> media_classes \<Rightarrow> unicode_lower \<Rightarrow> (string \<Rightarrow> 'j engine gateway \<Rightarrow> string option) \<Rightarrow> mcp_sdk \<Rightarrow>
   'j running \<Rightarrow> 'j system \<Rightarrow> 'j system \<Rightarrow> bool"
  for L gmt utl open_file sdk st where
  request: "running_server Ou L gmt st = Inr S \<Longrightarrow>
    gateway_step L gmt utl open_file sdk st s
      (s\<lparr>sy_Gateway := snd (Server_Handler E utl rand open_file (mcpHandler sdk E S) S r (sy_Gateway s))\<rparr>)"
| event: "handleEvent E L gmt t evt (manager_of (sy_Gateway s)) = Some (m', spawned) \<Longrightarrow>
    gateway_step L gmt utl open_file sdk st s
      (s\<lparr>sy_Gateway := with_manager m' (sy_Gateway s), sy_Syncs := (if spawned then t # sy_Syncs s else sy_Syncs s)\<rparr>)"
| names: "t \<in> set (sy_Syncs s) \<Longrightarrow>
    gateway_step L gmt utl open_file sdk st s
      (s\<lparr>sy_Gateway := syncGroupNamesInBackground E L t groups (sy_Gateway s), sy_Syncs := remove1 t (sy_Syncs s)\<rparr>)"
| asks: "SyncHistory_start E L sent t c n (manager_of (sy_Gateway s)) = (Inr wt, m') \<Longrightarrow>
    gateway_step L gmt utl open_file sdk st s
      (s\<lparr>sy_Gateway := with_manager m' (sy_Gateway s), sy_Waiting := wt # sy_Waiting s\<rparr>)"
| wakes: "wt \<in> set (sy_Waiting s) \<Longrightarrow> SyncHistory_finish w wt (manager_of (sy_Gateway s)) = Some (r, m') \<Longrightarrow>
    gateway_step L gmt utl open_file sdk st s
      (s\<lparr>sy_Gateway := with_manager m' (sy_Gateway s), sy_Waiting := remove1 wt (sy_Waiting s)\<rparr>)"
| store: "store_step (gw_db (sy_Gateway s)) d \<Longrightarrow>
    gateway_step L gmt utl open_file sdk st s (s\<lparr>sy_Gateway := (sy_Gateway s)\<lparr>gw_db := d\<rparr>\<rparr>)"
| client: "mg_clients (manager_of (sy_Gateway s)) t = Some c \<Longrightarrow>
    gateway_step L gmt utl open_file sdk st s
      (s\<lparr>sy_Gateway := with_manager ((manager_of (sy_Gateway s))
           \<lparr>mg_clients := (mg_clients (manager_of (sy_Gateway s)))(t \<mapsto> c')\<rparr>) (sy_Gateway s)\<rparr>)"

inductive_cases gateway_step_cases: "gateway_step L gmt utl open_file sdk st s s'"

lemma running_server_sessions:
  "running_server Ou L gmt st = Inr S \<Longrightarrow> sv_sessions S = manager_sessions Ou (ru_Settings st) L gmt"
  by (auto simp: running_server_def New_def Let_def split: if_splits option.splits)

text \<open>A step moves the gateway, given that the registry is sound (an event handler may then not block).\<close>

lemma gateway_step_moves:
  assumes "gateway_step L gmt utl open_file sdk st s s'"
    and ok: "pending_ok (mg_pending (en_manager (gw_wa (sy_Gateway s))))"
  shows "gateway_moves (ru_Settings st) (sy_Gateway s) (sy_Gateway s')"
  using assms(1)
proof cases
  case (request Ou S E rand r)
  then show ?thesis using engine.every_request [OF running_server_sessions] by simp
next
  case (event E t evt m' spawned)
  have "pending_ok (mg_pending (manager_of (sy_Gateway s)))" using ok by (simp add: manager_of_def)
  then have "manager_moves (manager_of (sy_Gateway s)) m'"
    using handleEvent_total [of "manager_of (sy_Gateway s)" E L gmt t evt] event(2) by auto
  then show ?thesis using event(1) manager_moves_gateway by simp
next
  case (names t E groups)
  then show ?thesis by (simp add: syncGroupNamesInBackground_def run_manager_moves)
next
  case (asks E sent t c n wt m')
  then have "manager_moves (manager_of (sy_Gateway s)) m'"
    using SyncHistory_start_moves [of "manager_of (sy_Gateway s)" E L sent t c n] by simp
  then show ?thesis using asks manager_moves_gateway by simp
next
  case (wakes wt w r m')
  then show ?thesis using manager_moves_gateway [OF SyncHistory_finish_moves] by simp
next
  case (store d)
  then show ?thesis using gateway_moves_store by simp
next
  case (client t c c')
  then show ?thesis by (simp add: gateway_moves_manager manager_of_def)
qed

lemma gateway_run_moves:
  assumes "(gateway_step L gmt utl open_file sdk st)\<^sup>*\<^sup>* s s'"
    and ok: "pending_ok (mg_pending (en_manager (gw_wa (sy_Gateway s))))"
  shows "gateway_moves (ru_Settings st) (sy_Gateway s) (sy_Gateway s')"
  using assms(1)
proof (induction rule: rtranclp_induct)
  case base
  show ?case by (rule gateway_moves_refl)
next
  case (step y z)
  then have "pending_ok (mg_pending (en_manager (gw_wa (sy_Gateway y))))" using ok by (simp add: gateway_moves_def)
  from gateway_step_moves [OF step(2) this] step(3) show ?case by (rule gateway_moves_trans [rotated])
qed

definition started :: "'j running \<Rightarrow> 'j system" where
  "started st = \<lparr>sy_Gateway = ru_Gateway st, sy_Syncs = [], sy_Waiting = []\<rparr>"

lemma started_sound:
  assumes "startup B L utl dur getenv = Inr st"
  shows "mg_pending (en_manager (gw_wa (ru_Gateway st))) = newPendingHistory" and "en_files (gw_wa (ru_Gateway st)) = bo_files B"
    and "se_mediaDir (ru_Settings st) = ga_MediaDir (ru_Config st)"
  by (rule startup_parts [OF assms], use RestoreSessions_clients in force)+

section \<open>The running gateway\<close>

text \<open>C4. Whatever requests, events and background work a gateway serves after it has started, in any
  order or overlap and under any failure: its database has moved by operations of the repositories only and
  still meets the schema, the registry of history requests is sound, so no event of WhatsApp's can
  block the gateway, and no file has changed but attachments two levels below the media directory.\<close>

lemma gateway_stays_sound:
  assumes st: "startup B L utl dur getenv = Inr st"
    and run: "(gateway_step L gmt utl open_file sdk st)\<^sup>*\<^sup>* (started st) s"
  shows "store_step\<^sup>*\<^sup>* (gw_db (ru_Gateway st)) (gw_db (sy_Gateway s)) \<and>
     (db_ok (gw_db (ru_Gateway st)) \<longrightarrow> db_ok (gw_db (sy_Gateway s))) \<and>
     pending_ok (mg_pending (en_manager (gw_wa (sy_Gateway s)))) \<and>
     (\<forall>E t evt. handleEvent E L gmt t evt (manager_of (sy_Gateway s)) \<noteq> None) \<and>
     (\<forall>p. en_files (gw_wa (sy_Gateway s)) p = bo_files B p \<or> below_media (ga_MediaDir (ru_Config st)) p)"
proof -
  note s0 = started_sound [OF st]
  have mv: "gateway_moves (ru_Settings st) (ru_Gateway st) (sy_Gateway s)"
    using gateway_run_moves [OF run] s0(1) by (simp add: started_def pending_ok_new)
  then have ok: "pending_ok (mg_pending (en_manager (gw_wa (sy_Gateway s))))" using s0(1) by (simp add: gateway_moves_def pending_ok_new)
  then have "handleEvent E L gmt t evt (manager_of (sy_Gateway s)) \<noteq> None" for E t evt
    using handleEvent_total [of "manager_of (sy_Gateway s)" E L gmt t evt] by (auto simp: manager_of_def)
  with mv ok s0 show ?thesis using store_run_ok by (auto simp: gateway_moves_def)
qed

definition sample_sdk :: mcp_sdk where
  "sample_sdk =
     \<lparr>sd_ListChats = (\<lambda>_. Some \<lparr>li_Limit = 0\<rparr>), sd_ListMessages = (\<lambda>_. None),
      sd_SendMessage = (\<lambda>_. Some \<lparr>si_To = ''57311'', si_Body = ''hola''\<rparr>),
      sd_FindContact = (\<lambda>_. Some \<lparr>fi_Query = ''ana''\<rparr>), sd_SyncHistory = (\<lambda>_. None), sd_GetMedia = (\<lambda>_. None),
      sd_Call = (\<lambda>r. Some (drop 1 (r_Path r), r_Body r)), sd_Reply = (\<lambda>_ _. writeJSON 200 RHealth)\<rparr>"

lemma gateway_stays_sound_witness:
  "\<exists>st s. startup sample_boot plain_jids id (\<lambda>_. None) sample_getenv = Inr st \<and>
     gateway_step plain_jids (\<lambda>_. MediaImage) id (\<lambda>_ _. None) sample_sdk st (started st) s \<and>
     handleEvent (\<lambda>_ _. sample_env) plain_jids (\<lambda>_. MediaImage) ''t1'' (EvMessage sample_inbound) (manager_of (sy_Gateway s)) \<noteq> None"
proof -
  obtain st where st: "startup sample_boot plain_jids id (\<lambda>_. None) sample_getenv = Inr st" using sample_start by blast
  obtain S where "running_server sample_outside plain_jids (\<lambda>_. MediaImage) st = Inr S"
    using running_server_ok [OF st] by blast
  from gateway_step.request [OF this] obtain s where
    step: "gateway_step plain_jids (\<lambda>_. MediaImage) id (\<lambda>_ _. None) sample_sdk st (started st) s" by blast
  then have "(gateway_step plain_jids (\<lambda>_. MediaImage) id (\<lambda>_ _. None) sample_sdk st)\<^sup>*\<^sup>* (started st) s"
    by (rule r_into_rtranclp)
  from gateway_stays_sound [OF st this] st step show ?thesis by blast
qed

end
