(* ===== verification/Backfills.thy ===== *)
theory Backfills
  imports System
begin

text \<open>
  History requests that overlap (\<open>SyncHistory\<close> of \<open>internal/wa/history.go\<close> over the registry of
  \<open>internal/wa/pending.go\<close>), with each other, with events and with everything else the gateway does.
  \<open>waits_ok\<close> ties the registry to the requests that wait; a relation between gateways that says it is
  kept is an instance of \<open>handler_relation\<close>.
\<close>

section \<open>The registry and the requests that wait\<close>

definition waits_ok :: "pendingHistory \<Rightarrow> waiting list \<Rightarrow> bool" where
  "waits_ok p W \<longleftrightarrow>
     pending_ok p \<and> inflight p = [] \<and> (\<forall>ch\<in>set (released p). ch < nextCh p) \<and> distinct (map wt_Channel W) \<and>
     set (waiters p) \<subseteq> (\<lambda>wt. (wt_Key wt, wt_Channel wt)) ` set W \<and>
     (\<forall>wt\<in>set W. wt_Channel wt < nextCh p \<and> wt_Channel wt \<notin> set (released p) \<and>
        ((wt_Key wt, wt_Channel wt) \<in> set (waiters p) \<or> buf p (wt_Channel wt) \<noteq> []))"

definition waits_kept :: "pendingHistory \<Rightarrow> pendingHistory \<Rightarrow> bool" where
  "waits_kept p p' \<longleftrightarrow> (\<forall>W. waits_ok p W \<longrightarrow> waits_ok p' W)"

lemma waits_kept_refl [simp]: "waits_kept p p"
  by (simp add: waits_kept_def)

lemma waits_kept_trans: "waits_kept p p1 \<Longrightarrow> waits_kept p1 p2 \<Longrightarrow> waits_kept p p2"
  by (simp add: waits_kept_def)

section \<open>Replies\<close>

lemma map_of_waiter: "pending_ok p \<Longrightarrow> map_of (waiters p) key = Some ch \<longleftrightarrow> (key, ch) \<in> set (waiters p)"
  by (simp add: pending_ok_def)

lemma deliver_kept:
  assumes "deliver key d p = Some (b, p')"
  shows "waits_kept p p'"
proof (cases "map_of (waiters p) key")
  case None
  then show ?thesis using assms by (simp add: deliver_def)
next
  case (Some ch)
  have p': "waiters p' = delete_key key (waiters p)" "buf p' = (buf p)(ch := buf p ch @ [d])" "nextCh p' = nextCh p"
    "released p' = released p" "inflight p' = inflight p"
    using assms Some by (auto simp: deliver_def deliver_take_def deliver_send_def split: if_splits)
  have ok: "pending_ok p'" if "pending_ok p"
  proof -
    obtain p1 where t: "deliver_take key d p = (True, p1)" "(ch, d) \<in> set (inflight p1)" "deliver_send ch d p1 = Some p'"
      using assms Some by (auto simp: deliver_def deliver_take_def)
    show ?thesis by (rule pending_ok_send [OF t(2,3) pending_ok_take [OF t(1) that]])
  qed
  show ?thesis
    unfolding waits_kept_def
  proof (intro allI impI)
    fix W assume w: "waits_ok p W"
    then have one: "fst x \<noteq> key \<or> x = (key, ch)" if "x \<in> set (waiters p)" for x
      using that map_of_waiter [of p key "snd x"] Some by (cases x) (auto simp: waits_ok_def)
    have "(wt_Key wt, wt_Channel wt) \<in> set (waiters p') \<or> buf p' (wt_Channel wt) \<noteq> []" if "wt \<in> set W" for wt
      using that w one [of "(wt_Key wt, wt_Channel wt)"] by (auto simp: waits_ok_def p' delete_key_def)
    then show "waits_ok p' W" using w ok by (auto simp: waits_ok_def p' delete_key_def)
  qed
qed

lemma deliverOnDemand_waits: "deliverOnDemand E L t chat i n m = Some m' \<Longrightarrow> waits_kept (mg_pending m) (mg_pending m')"
  by (auto simp: deliverOnDemand_def case_prod_beta Let_def dest!: deliver_kept split: option.splits)

lemma persistConversation_waits:
  "persistConversation E L gmt t od conv m = Some m' \<Longrightarrow> waits_kept (mg_pending m) (mg_pending m')"
  by (auto simp: persistConversation_def Let_def dest!: canonicaliseSenders_moves deliverOnDemand_waits
      split: option.splits if_splits prod.splits sum.splits)

lemma persistConversations_waits:
  "persistConversations E i L gmt t od cs m = Some m' \<Longrightarrow> waits_kept (mg_pending m) (mg_pending m')"
  by (induction cs arbitrary: i m)
    (auto split: option.splits dest!: persistConversation_waits intro: waits_kept_trans)

lemma handleEvent_waits:
  "handleEvent E L gmt t evt m = Some (m', b) \<Longrightarrow> waits_kept (mg_pending m) (mg_pending m')"
  by (auto simp: handleEvent_def persistHistorySync_def persistMessage_def updateStatus_def rememberGroupName_def
      Let_def case_prod_beta dest: persistConversations_waits split: event.splits option.splits)

lemma handle_events_waits: "waits_kept (mg_pending m) (mg_pending (handle_events L gmt es m))"
proof (induction es arbitrary: m)
  case (Cons e es)
  obtain E t evt where e: "e = (E, t, evt)" by (cases e)
  show ?case
    using Cons.IH handleEvent_waits [of E L gmt t evt m]
    by (auto simp: e split: option.split intro: waits_kept_trans)
qed simp

section \<open>Requests\<close>

lemma waits_ok_channels:
  "waits_ok p W \<Longrightarrow> buf p (nextCh p) = [] \<and> nextCh p \<notin> set (released p) \<and> nextCh p \<notin> wt_Channel ` set W"
proof -
  assume ok: "waits_ok p W"
  then have "\<forall>ch. tokens p ch \<le> (if ch < nextCh p then 1 else 0)" by (simp add: waits_ok_def pending_ok_def)
  then have "tokens p (nextCh p) \<le> 0" by (metis less_irrefl)
  then have "buf p (nextCh p) = []" by (simp add: tokens_def)
  with ok show ?thesis by (auto simp: waits_ok_def)
qed

lemma register_waits:
  assumes "register (wt_Key wt) p = (Inr (wt_Channel wt), p')" and ok: "waits_ok p W"
  shows "waits_ok p' (wt # W)"
proof -
  have r: "wt_Channel wt = nextCh p" "p' = p\<lparr>waiters := (wt_Key wt, nextCh p) # waiters p, nextCh := Suc (nextCh p)\<rparr>"
    using assms(1) by (auto simp: register_def split: if_splits)
  have "pending_ok p'" using pending_ok_register [OF assms(1)] ok by (simp add: waits_ok_def)
  then show ?thesis using ok waits_ok_channels [OF ok] by (auto simp: waits_ok_def r less_Suc_eq)
qed

text \<open>A request that ends, whatever has become of its own channel.\<close>

lemma ends_waits:
  assumes ok: "waits_ok p (wt # W)" and p': "pending_ok p'" "waiters p' = waiters p" "released p' = released p"
      "nextCh p' = nextCh p" "inflight p' = inflight p" "\<And>ch. ch \<noteq> wt_Channel wt \<Longrightarrow> buf p' ch = buf p ch"
  shows "waits_ok (release (wt_Key wt) (wt_Channel wt) p') W"
proof -
  let ?p = "release (wt_Key wt) (wt_Channel wt) p'"
  have new: "wt_Channel wt \<notin> set (released p')" and other: "\<forall>x\<in>set W. wt_Channel x \<noteq> wt_Channel wt"
    using ok by (simp_all add: waits_ok_def p'(3)) (metis imageI)
  have p: "waiters ?p = filter (\<lambda>w. w \<noteq> (wt_Key wt, wt_Channel wt)) (waiters p)"
    using release_own [OF p'(1) new] by (simp add: p'(2))
  have o: "buf ?p = buf p'" "inflight ?p = inflight p" "nextCh ?p = nextCh p" "released ?p = wt_Channel wt # released p"
    using new by (simp_all add: release_def Let_def p'(2-5))
  have old: "\<forall>x\<in>set W. wt_Channel x < nextCh p \<and> wt_Channel x \<notin> set (released p) \<and>
      ((wt_Key x, wt_Channel x) \<in> set (waiters p) \<or> buf p (wt_Channel x) \<noteq> [])"
    and sub: "set (waiters p) \<subseteq> (\<lambda>x. (wt_Key x, wt_Channel x)) ` set (wt # W)"
    using ok by (simp_all add: waits_ok_def)
  have "\<forall>x\<in>set W. wt_Channel x < nextCh ?p \<and> wt_Channel x \<notin> set (released ?p) \<and>
      ((wt_Key x, wt_Channel x) \<in> set (waiters ?p) \<or> buf ?p (wt_Channel x) \<noteq> [])"
    using old other p'(6) by (simp add: p o)
  moreover have "set (waiters ?p) \<subseteq> (\<lambda>x. (wt_Key x, wt_Channel x)) ` set W" using sub by (auto simp: p)
  ultimately show ?thesis
    using pending_ok_release [OF p'(1)] ok unfolding waits_ok_def o by simp
qed

lemma release_ends: "waits_ok p (wt # W) \<Longrightarrow> waits_ok (release (wt_Key wt) (wt_Channel wt) p) W"
  by (rule ends_waits) (simp_all add: waits_ok_def)

lemma receive_ends:
  assumes "receive (wt_Channel wt) p = Some (d, p')" and "waits_ok p (wt # W)"
  shows "waits_ok (release (wt_Key wt) (wt_Channel wt) p') W"
  by (rule ends_waits [OF assms(2)])
     (use assms pending_ok_receive [OF assms(1)] in \<open>auto simp: waits_ok_def receive_def split: list.splits\<close>)

lemma waits_ok_perm: "waits_ok p W \<Longrightarrow> wt \<in> set W \<Longrightarrow> waits_ok p (wt # remove1 wt W)"
proof -
  assume ok: "waits_ok p W" and wt: "wt \<in> set W"
  have d: "distinct W" "inj_on wt_Channel (set W)" using ok by (simp_all add: waits_ok_def distinct_map)
  then have "set (remove1 wt W) = set W - {wt}" by simp
  then have "set (wt # remove1 wt W) = set W" "distinct (map wt_Channel (wt # remove1 wt W))"
    using wt d by (auto simp: distinct_map inj_on_def)
  then show ?thesis using ok unfolding waits_ok_def by metis
qed

lemma SyncHistory_finish_waits:
  assumes "SyncHistory_finish w wt m = Some (r, m')" and "waits_ok (mg_pending m) W" and "wt \<in> set W"
  shows "waits_ok (mg_pending m') (remove1 wt W)"
  using assms(1) release_ends [OF waits_ok_perm [OF assms(2,3)]] receive_ends [OF _ waits_ok_perm [OF assms(2,3)]]
  by (auto simp: SyncHistory_finish_def split: wake.splits)

lemma SyncHistory_start_waits_ok:
  assumes "SyncHistory_start E L sent t c n m = (Inr wt, m')" and "waits_ok (mg_pending m) W"
  shows "waits_ok (mg_pending m') (wt # W)"
proof -
  have "register (wt_Key wt) (mg_pending m) = (Inr (wt_Channel wt), mg_pending m')"
    using assms(1)
    by (auto simp: SyncHistory_start_def Let_def split: option.splits if_splits sum.splits prod.splits store_error.splits)
  from register_waits [OF this assms(2)] show ?thesis .
qed

lemma SyncHistory_refused_waits:
  assumes "SyncHistory_start E L sent t c n m = (Inl e, m')"
  shows "waits_kept (mg_pending m) (mg_pending m')"
proof -
  have given_back: "waits_kept p (release key ch p')" if "register key p = (Inr ch, p')" for key ch p p'
    using that register_waits [of "\<lparr>wt_Key = key, wt_Channel = ch, wt_Chat = [], wt_Count = 0\<rparr>" p p']
      release_ends [of p' "\<lparr>wt_Key = key, wt_Channel = ch, wt_Chat = [], wt_Count = 0\<rparr>"]
    by (simp add: waits_kept_def)
  have busy: "waits_kept p p'" if "register key p = (Inl e', p')" for key p p' e'
    using that by (simp add: register_def split: if_splits)
  show ?thesis
    using assms given_back busy
    by (auto simp: SyncHistory_start_def Let_def split: option.splits if_splits sum.splits prod.splits store_error.splits)
qed

lemma SyncHistory_waits: "waits_kept (mg_pending m) (mg_pending (snd (SyncHistory Ou L gmt t c n m)))"
proof -
  obtain out m1 where st: "SyncHistory_start (ou_env Ou 0) L (ou_peer Ou) t c n m = (out, m1)" by fastforce
  show ?thesis
  proof (cases out)
    case (Inl e)
    with SyncHistory_refused_waits [OF st [unfolded Inl]] st show ?thesis by (simp add: SyncHistory_def)
  next
    case (Inr wt)
    define m2 where "m2 = handle_events L gmt (ou_events Ou) m1"
    have waits: "waits_ok (mg_pending m2) (wt # W)" if "waits_ok (mg_pending m) W" for W
      using SyncHistory_start_waits_ok [OF st [unfolded Inr] that] handle_events_waits [of m1 L gmt "ou_events Ou"]
      by (simp add: waits_kept_def m2_def)
    have "waits_ok (mg_pending (snd (SyncHistory Ou L gmt t c n m))) W" if "waits_ok (mg_pending m) W" for W
      using SyncHistory_finish_waits [of "ou_wake Ou" wt m2 _ _ "wt # W"] release_ends waits [OF that]
      by (auto simp: SyncHistory_def st Inr Let_def split: option.split simp flip: m2_def)
    then show ?thesis by (simp add: waits_kept_def)
  qed
qed

section \<open>The gateway\<close>

lemma pending_unchanged:
  "mg_pending (snd (clientFor E1 L C raced t m)) = mg_pending m"
  "mg_pending (snd (StartPairing E L C raced calls t phone m)) = mg_pending m"
  "mg_pending (snd (SendText now L reply t to body m)) = mg_pending m"
  "mg_pending (snd (FindContacts E L utl book ask t q m)) = mg_pending m"
  "mg_pending (snd (syncGroupNames E1 L t gs m)) = mg_pending m"
proof -
  show c: "mg_pending (snd (clientFor E1 L C raced t m)) = mg_pending m" for E1
    by (auto simp: clientFor_def split: option.split sum.split store_error.split)
  show "mg_pending (snd (StartPairing E L C raced calls t phone m)) = mg_pending m"
    using c [of "E 0"] by (auto simp: StartPairing_def Let_def split: prod.splits sum.splits)
  show "mg_pending (snd (SendText now L reply t to body m)) = mg_pending m"
    by (auto simp: SendText_def Let_def split: option.split sum.split)
  show "mg_pending (snd (FindContacts E L utl book ask t q m)) = mg_pending m"
    by (simp add: FindContacts_def Let_def case_prod_beta split: option.split sum.split)
  show "mg_pending (snd (syncGroupNames E1 L t gs m)) = mg_pending m"
    by (simp add: syncGroupNames_def Let_def case_prod_beta split: option.split)
qed

abbreviation registry :: "'j engine gateway \<Rightarrow> pendingHistory" where
  "registry g \<equiv> mg_pending (en_manager (gw_wa g))"

lemma registry_manager [simp]: "mg_pending (manager_of g) = registry g" "registry (with_manager m g) = mg_pending m"
  by (simp_all add: manager_of_def with_manager_def)

interpretation backfills: handler_relation "\<lambda>g g'. waits_kept (registry g) (registry g')" "manager_sessions Ou S L gmt"
  for Ou S L gmt
proof
  fix g g1 g2 :: "'a engine gateway" and d :: db and t phone to body q c i :: string and n :: int
  let ?sm = "manager_sessions Ou S L gmt"
  show "waits_kept (registry g) (registry g)" by simp
  show "waits_kept (registry g) (registry g1) \<Longrightarrow> waits_kept (registry g1) (registry g2) \<Longrightarrow> waits_kept (registry g) (registry g2)"
    by (rule waits_kept_trans)
  show "waits_kept (registry g) (registry (g\<lparr>gw_db := d\<rparr>))" by simp
  show "waits_kept (registry g) (registry (snd (sm_StartPairing ?sm t phone g)))"
    "waits_kept (registry g) (registry (snd (sm_Status ?sm t g)))"
    "waits_kept (registry g) (registry (snd (sm_SendText ?sm t to body g)))"
    "waits_kept (registry g) (registry (snd (sm_FindContacts ?sm t q g)))"
    by (simp_all add: manager_sessions_def run_manager_with pending_unchanged)
  show "waits_kept (registry g) (registry (snd (sm_SyncHistory ?sm t c n g)))"
    using SyncHistory_waits [of "manager_of g" Ou L gmt t c n] by (simp add: manager_sessions_def run_manager_with)
  show "waits_kept (registry g) (registry (snd (sm_FetchMedia ?sm t i g)))"
    by (simp add: manager_sessions_def FetchMedia_def case_prod_beta)
qed

lemma gateway_step_waits:
  assumes "gateway_step L gmt utl open_file sdk st s s'" and "waits_ok (registry (sy_Gateway s)) (sy_Waiting s)"
  shows "waits_ok (registry (sy_Gateway s')) (sy_Waiting s')"
  using assms(1)
proof cases
  case (request Ou S E rand r)
  then show ?thesis using backfills.every_request [OF running_server_sessions [OF request(2)], of "sy_Gateway s"] assms(2)
    by (simp add: waits_kept_def)
next
  case (event E t evt m' spawned)
  then show ?thesis using handleEvent_waits assms(2) by (fastforce simp: waits_kept_def)
next
  case (asks E sent t c n wt m')
  then show ?thesis using SyncHistory_start_waits_ok [OF asks(2)] assms(2) by simp
next
  case (wakes wt w r m')
  then show ?thesis using SyncHistory_finish_waits [OF wakes(3)] assms(2) by simp
qed (use assms(2) in \<open>simp_all add: syncGroupNamesInBackground_def run_manager_with pending_unchanged manager_of_def [symmetric]\<close>)

lemma gateway_run_waits:
  assumes "(gateway_step L gmt utl open_file sdk st)\<^sup>*\<^sup>* s s'" and "waits_ok (registry (sy_Gateway s)) (sy_Waiting s)"
  shows "waits_ok (registry (sy_Gateway s')) (sy_Waiting s')"
  using assms by (induction rule: rtranclp_induct) (auto dest: gateway_step_waits)

lemma started_waits:
  assumes "startup B L utl dur getenv = Inr st"
  shows "waits_ok (registry (sy_Gateway (started st))) (sy_Waiting (started st))"
  using started_sound(1) [OF assms] pending_ok_new by (simp add: started_def waits_ok_def newPendingHistory_def)

text \<open>The key of a conversation, by its canonical address.\<close>

definition conversation_key :: "'j jid_lib \<Rightarrow> string \<Rightarrow> 'j \<Rightarrow> 'j manager \<Rightarrow> string" where
  "conversation_key L t chat m = historyKey t (jString L (fst (canonicalJID L (lidsFor t m) chat (EmptyJID L))))"

lemma busy_registered:
  assumes "SyncHistory_start E L sent t c n m = (Inl ErrSyncInProgress, m')"
  shows "\<exists>chat ch. parseJID L c = Inr chat \<and> (conversation_key L t chat m, ch) \<in> set (waiters (mg_pending m))"
proof -
  have parseJID_busy: "parseJID L c \<noteq> Inl ErrSyncInProgress" by (simp add: parseJID_def Let_def split: option.split)
  have w: "\<exists>ch. (key, ch) \<in> set (waiters p)" if "register key p = (Inl e, p')" for key p p' e
    using that by (auto simp: register_def split: if_splits dest: map_of_SomeD)
  show ?thesis
    using assms w parseJID_busy
    by (cases "parseJID L c") (auto simp: SyncHistory_start_def Let_def conversation_key_def
        split: option.splits if_splits sum.splits prod.splits store_error.splits)
qed

text \<open>A registered request has no reply yet, and the other way round.\<close>

lemma reply_or_registered:
  assumes ok: "waits_ok p W" and "wt \<in> set W"
  shows "(wt_Key wt, wt_Channel wt) \<in> set (waiters p) \<longleftrightarrow> buf p (wt_Channel wt) = []"
proof -
  have "\<not> ((wt_Key wt, wt_Channel wt) \<in> set (waiters p) \<and> buf p (wt_Channel wt) \<noteq> [])"
  proof
    assume h: "(wt_Key wt, wt_Channel wt) \<in> set (waiters p) \<and> buf p (wt_Channel wt) \<noteq> []"
    then have "wt_Channel wt \<in> set (map snd (waiters p))" by force
    then have "count_list (map snd (waiters p)) (wt_Channel wt) \<noteq> 0" by (simp only: count_list_0_iff not_not)
    then have "2 \<le> tokens p (wt_Channel wt)" using h by (cases "buf p (wt_Channel wt)") (simp_all add: tokens_def)
    moreover have "tokens p (wt_Channel wt) \<le> 1" using ok by (auto simp: waits_ok_def pending_ok_def split: if_splits)
    ultimately show False by simp
  qed
  then show ?thesis using assms by (auto simp: waits_ok_def)
qed

text \<open>C24. History requests never stick, however many overlap and whatever else the gateway does meanwhile:
  a request that waits is either still registered, so that a reply for its conversation finds it, or its
  reply has arrived and waking up succeeds, and no wake-up is lost in between; a request is turned away as
  already running only while another one for the very conversation waits without a reply; and when no
  request waits, no conversation is locked.\<close>

lemma backfills_never_stick:
  assumes st: "startup B L utl dur getenv = Inr st"
    and run: "(gateway_step L gmt utl open_file sdk st)\<^sup>*\<^sup>* (started st) s"
  shows "(\<forall>wt\<in>set (sy_Waiting s).
        ((wt_Key wt, wt_Channel wt) \<in> set (waiters (registry (sy_Gateway s))) \<longleftrightarrow>
         SyncHistory_finish WakeReply wt (manager_of (sy_Gateway s)) = None) \<and>
        (\<forall>w r m'. SyncHistory_finish w wt (manager_of (sy_Gateway s)) = Some (r, m') \<longrightarrow>
           (wt_Key wt, wt_Channel wt) \<notin> set (waiters (mg_pending m')))) \<and>
     (\<forall>E sent t c n m'. SyncHistory_start E L sent t c n (manager_of (sy_Gateway s)) = (Inl ErrSyncInProgress, m') \<longrightarrow>
        (\<exists>wt\<in>set (sy_Waiting s). (\<exists>chat. parseJID L c = Inr chat \<and> wt_Key wt = conversation_key L t chat (manager_of (sy_Gateway s))) \<and>
           SyncHistory_finish WakeReply wt (manager_of (sy_Gateway s)) = None)) \<and>
     (sy_Waiting s = [] \<longrightarrow> waiters (registry (sy_Gateway s)) = [])"
proof -
  have ok: "waits_ok (registry (sy_Gateway s)) (sy_Waiting s)" by (rule gateway_run_waits [OF run started_waits [OF st]])
  have reply: "SyncHistory_finish WakeReply wt (manager_of (sy_Gateway s)) = None \<longleftrightarrow> buf (registry (sy_Gateway s)) (wt_Channel wt) = []" for wt
    by (simp add: SyncHistory_finish_def receive_def split: list.split)
  have one: "((wt_Key wt, wt_Channel wt) \<in> set (waiters (registry (sy_Gateway s))) \<longleftrightarrow>
      SyncHistory_finish WakeReply wt (manager_of (sy_Gateway s)) = None)" if "wt \<in> set (sy_Waiting s)" for wt
    using reply_or_registered [OF ok that] by (simp add: reply)
  have ended: "(wt_Key wt, wt_Channel wt) \<notin> set (waiters (mg_pending m'))"
    if "wt \<in> set (sy_Waiting s)" "SyncHistory_finish w wt (manager_of (sy_Gateway s)) = Some (r, m')" for wt w r m'
  proof -
    have "waits_ok (mg_pending m') (remove1 wt (sy_Waiting s))" using SyncHistory_finish_waits [OF that(2) _ that(1)] ok by simp
    moreover have "wt_Channel wt \<notin> wt_Channel ` set (remove1 wt (sy_Waiting s))"
      using waits_ok_perm [OF ok that(1)] by (simp add: waits_ok_def)
    ultimately show ?thesis by (auto simp: waits_ok_def)
  qed
  have busy: "\<exists>wt\<in>set (sy_Waiting s). (\<exists>chat. parseJID L c = Inr chat \<and> wt_Key wt = conversation_key L t chat (manager_of (sy_Gateway s))) \<and>
      SyncHistory_finish WakeReply wt (manager_of (sy_Gateway s)) = None"
    if start: "SyncHistory_start E L sent t c n (manager_of (sy_Gateway s)) = (Inl ErrSyncInProgress, m')" for E sent t c n m'
  proof -
    obtain chat ch where c: "parseJID L c = Inr chat" "(conversation_key L t chat (manager_of (sy_Gateway s)), ch) \<in> set (waiters (registry (sy_Gateway s)))"
      using busy_registered [OF start] by auto
    then obtain wt where "wt \<in> set (sy_Waiting s)" "wt_Key wt = conversation_key L t chat (manager_of (sy_Gateway s))" "wt_Channel wt = ch"
      using ok by (auto simp: waits_ok_def)
    with c show ?thesis using one [of wt] by auto
  qed
  have none: "sy_Waiting s = [] \<Longrightarrow> waiters (registry (sy_Gateway s)) = []" using ok by (simp add: waits_ok_def)
  show ?thesis using one ended busy none by blast
qed

lemma backfills_never_stick_witness:
  "\<exists>st s. startup sample_boot plain_jids id (\<lambda>_. None) sample_getenv = Inr st \<and>
     gateway_step plain_jids (\<lambda>_. MediaImage) id (\<lambda>_ _. None) sample_sdk st (started st) s \<and> waiters (registry (sy_Gateway s)) = []"
proof -
  obtain st where st: "startup sample_boot plain_jids id (\<lambda>_. None) sample_getenv = Inr st" using sample_start by blast
  obtain S where "running_server sample_outside plain_jids (\<lambda>_. MediaImage) st = Inr S"
    using running_server_ok [OF st] by blast
  note step = gateway_step.request [OF this]
  obtain s where s: "gateway_step plain_jids (\<lambda>_. MediaImage) id (\<lambda>_ _. None) sample_sdk st (started st) s" "sy_Waiting s = []"
    by (rule that, rule step) (simp add: started_def)
  from s(1) have "(gateway_step plain_jids (\<lambda>_. MediaImage) id (\<lambda>_ _. None) sample_sdk st)\<^sup>*\<^sup>* (started st) s"
    by (rule r_into_rtranclp)
  from backfills_never_stick [OF st this] s st show ?thesis by blast
qed

end
