(* ===== verification/Isolation.thy ===== *)
theory Isolation
  imports System
begin

text \<open>
  What one tenant can do to another: nothing. \<open>rows_kept\<close> says that a database differs from an
  earlier one in the rows of one tenant only, \<open>others_kept\<close> that a gateway does, its keys, clients and
  files included. The first is an interpretation of \<open>tenant_rows\<close> (what the engine does for a
  tenant), the second of \<open>tenant_relation\<close> (what a tenant's requests do through both surfaces).
\<close>

section \<open>Rows of other tenants\<close>

definition rows_kept :: "string \<Rightarrow> db \<Rightarrow> db \<Rightarrow> bool" where
  "rows_kept t d d' \<longleftrightarrow>
     tenants d' = tenants d \<and> api_keys d' = api_keys d \<and> lid_map d' = lid_map d \<and>
     filter (\<lambda>r. m_TenantID r \<noteq> t) (messages d') = filter (\<lambda>r. m_TenantID r \<noteq> t) (messages d) \<and>
     filter (\<lambda>r. cr_TenantID r \<noteq> t) (chats d') = filter (\<lambda>r. cr_TenantID r \<noteq> t) (chats d) \<and>
     filter (\<lambda>r. s_TenantID r \<noteq> t) (sessions d') = filter (\<lambda>r. s_TenantID r \<noteq> t) (sessions d)"

lemma rows_kept_refl: "rows_kept t d d"
  by (simp add: rows_kept_def)

lemma rows_kept_trans: "rows_kept t d d1 \<Longrightarrow> rows_kept t d1 d2 \<Longrightarrow> rows_kept t d d2"
  by (simp add: rows_kept_def)

lemma filter_map_others:
  "(\<And>r. key r = t \<Longrightarrow> key (f r) = t) \<Longrightarrow> (\<And>r. key r \<noteq> t \<Longrightarrow> f r = r) \<Longrightarrow>
   filter (\<lambda>r. key r \<noteq> t) (map f xs) = filter (\<lambda>r. key r \<noteq> t) xs"
  by (induction xs) auto

lemma rows_kept_Append:
  assumes "m_TenantID r = t"
  shows "rows_kept t d (snd (message_Append E r d))"
proof -
  obtain e d' where a: "message_Append E r d = (e, d')" by fastforce
  from message_Append_db [OF a] assms show ?thesis
    by (auto simp: a rows_kept_def messageArgs_def dest!: prepareMessage_Inr(1) elim!: insertMessage_Some)
qed

lemma rows_kept_AppendBatch:
  assumes "\<forall>r\<in>set rs. m_TenantID r = t"
  shows "rows_kept t d (snd (message_AppendBatch E rs d))"
proof -
  obtain r d' where a: "message_AppendBatch E rs d = (r, d')" by fastforce
  show ?thesis
  proof (cases r)
    case (Inr n)
    then obtain ps new where p: "prepare_batch E 0 rs = Inr ps" "d' = d\<lparr>messages := messages d @ new\<rparr>"
      "set new \<subseteq> messageArgs ` set ps" using message_AppendBatch_ok a by blast
    have "m_TenantID ` set ps = m_TenantID ` set rs"
      using prepare_batch_Inr [OF p(1)] by (induction rule: list_all2_induct) auto
    then have "\<forall>r\<in>set ps. m_TenantID r = t" using assms by auto
    then have "\<forall>x\<in>set new. m_TenantID x = t" using p(3) by (auto simp: messageArgs_def)
    then have "filter (\<lambda>x. m_TenantID x \<noteq> t) new = []" by (simp add: filter_empty_conv)
    then show ?thesis by (simp add: a p(2) rows_kept_def)
  qed (use message_AppendBatch_error [of E rs d _ d'] a in \<open>auto simp: rows_kept_refl\<close>)
qed

lemma rows_kept_UpdateMedia: "rows_kept t d (snd (message_UpdateMedia E t i upd d))"
proof -
  obtain e d' where a: "message_UpdateMedia E t i upd d = (e, d')" by fastforce
  have "m_TenantID (set_media u r) = m_TenantID r" for u r by (simp add: set_media_def split: option.split)
  then have "filter (\<lambda>r. m_TenantID r \<noteq> t) (map (\<lambda>r. if m_TenantID r = t \<and> m_ID r = i then set_media u r else r) ms) =
      filter (\<lambda>r. m_TenantID r \<noteq> t) ms" for u ms
    by (intro filter_map_others) auto
  with message_UpdateMedia_db [OF a] show ?thesis by (auto simp: a rows_kept_def)
qed

lemma rows_kept_UpdateStatus: "rows_kept t d (snd (session_UpdateStatus E t st j d))"
proof -
  obtain e d' where a: "session_UpdateStatus E t st j d = (e, d')" by fastforce
  have "filter (\<lambda>r. s_TenantID r \<noteq> t) (map (session_set t st j now) ss) = filter (\<lambda>r. s_TenantID r \<noteq> t) ss" for now ss
    by (intro filter_map_others) (auto simp: session_set_def)
  with session_UpdateStatus_db [OF a] show ?thesis by (auto simp: a rows_kept_def)
qed

lemma rows_kept_upsertChat: "upsertChat t c n now d = Some d' \<Longrightarrow> rows_kept t d d'"
  using filter_map_others [of cr_TenantID t "rename_chat t c n now" "chats d"]
  by (auto simp: upsertChat_def rows_kept_def rename_chat_def split: if_splits)

lemma rows_kept_upsert_all: "upsert_all E i t now cs d = Some d' \<Longrightarrow> rows_kept t d d'"
  by (induction E i t now cs d rule: upsert_all.induct)
     (auto simp: rows_kept_refl Let_def split: if_splits option.splits dest!: rows_kept_upsertChat intro: rows_kept_trans)

interpretation apart: tenant_rows "rows_kept t" t for t
proof
  fix d d1 d2 E r rs st j c cs i upd
  show "rows_kept t d d" by (rule rows_kept_refl)
  show "rows_kept t d d1 \<Longrightarrow> rows_kept t d1 d2 \<Longrightarrow> rows_kept t d d2" by (rule rows_kept_trans)
  show "m_TenantID r = t \<Longrightarrow> rows_kept t d (snd (message_Append E r d))" by (rule rows_kept_Append)
  show "\<forall>r\<in>set rs. m_TenantID r = t \<Longrightarrow> rows_kept t d (snd (message_AppendBatch E rs d))" by (rule rows_kept_AppendBatch)
  show "rows_kept t d (snd (session_UpdateStatus E t st j d))" by (rule rows_kept_UpdateStatus)
  show "rows_kept t d (snd (chat_Upsert E t c d))"
    by (auto simp: chat_Upsert_def Let_def rows_kept_refl dest: rows_kept_upsertChat split: option.split)
  show "rows_kept t d (snd (chat_UpsertBatch E t cs d))"
    by (auto simp: chat_UpsertBatch_def rows_kept_refl dest: rows_kept_upsert_all split: option.split)
  show "rows_kept t d (snd (message_UpdateMedia E t i upd d))" by (rule rows_kept_UpdateMedia)
  show "rows_kept t d (snd (lidMapReady E d))"
    using lidMapReady_eq [of E d] by (auto simp: rows_kept_def)
qed

section \<open>Gateways\<close>

text \<open>Nothing of another tenant moves: no row, no key, no client, and no file outside the tenant's directory.\<close>

definition in_directory :: "string \<Rightarrow> string \<Rightarrow> string \<Rightarrow> bool" where
  "in_directory dir t p \<longleftrightarrow>
     (\<exists>name. clean_segs p = clean_segs dir @ [t, name] \<and> plain_name name \<and> rooted_path p = rooted_path dir)"

definition others_kept :: "settings \<Rightarrow> string \<Rightarrow> 'j engine gateway \<Rightarrow> 'j engine gateway \<Rightarrow> bool" where
  "others_kept S t g g' \<longleftrightarrow>
     rows_kept t ((gw_db g)\<lparr>api_keys := []\<rparr>) ((gw_db g')\<lparr>api_keys := []\<rparr>) \<and> live_principal g' = live_principal g \<and>
     mg_clients (en_manager (gw_wa g')) = mg_clients (en_manager (gw_wa g)) \<and>
     (\<forall>p. en_files (gw_wa g') p = en_files (gw_wa g) p \<or> in_directory (se_mediaDir S) t p)"

lemma others_kept_trans: "others_kept S t g g1 \<Longrightarrow> others_kept S t g1 g2 \<Longrightarrow> others_kept S t g g2"
  by (auto simp: others_kept_def rows_kept_def) metis

lemma others_kept_db:
  assumes "rows_kept t (gw_db g) d"
  shows "others_kept S t g (g\<lparr>gw_db := d\<rparr>)"
  using assms live_principal_frame [of "g\<lparr>gw_db := d\<rparr>" g] by (simp add: others_kept_def rows_kept_def)

lemma others_kept_manager:
  assumes "rows_kept t (gw_db g) (mg_db m)" and "mg_clients m = mg_clients (en_manager (gw_wa g))"
  shows "others_kept S t g (with_manager m g)"
  using assms live_principal_frame [of "with_manager m g" g] by (simp add: others_kept_def with_manager_def rows_kept_def)

lemma others_kept_run:
  assumes "apart.kept t (manager_of g) (snd (f (manager_of g)))"
  shows "others_kept S t g (snd (run_manager f g))"
  unfolding run_manager_with using assms by (intro others_kept_manager) (simp_all add: apart.kept_def manager_of_def)

lemma media_path_directory:
  assumes "mediaPathFor utl root t i mime = Inr path"
  shows "in_directory root t path"
proof -
  have r: "root \<noteq> []" "safeTenantSegment t" "path = media_file utl root t i mime"
    using assms TrimSpace_ne by (auto simp: mediaPathFor_spec split: if_splits)
  show ?thesis
    using clean_segs_media_file [OF r(1,2)] media_name_plain r(3) media_path_below [OF assms]
    unfolding in_directory_def below_media_def by blast
qed

lemma fetch_directory:
  "mw_files (snd (fetch F utl errtext now out t i W)) p = mw_files W p \<or> in_directory (mf_dir F) t p"
proof (cases "\<exists>m path dl. admitted F utl t i W m path dl")
  case True
  then obtain m path dl where a: "admitted F utl t i W m path dl" by blast
  then have "in_directory (mf_dir F) t path" using media_path_directory by (auto simp: admitted_def)
  then show ?thesis using fetch_admitted [OF a] download_files by metis
next
  case False
  then show ?thesis using fetch_refused by metis
qed

lemma FetchMedia_others: "others_kept S t g (snd (FetchMedia Ou S t i g))"
proof -
  let ?W = "\<lparr>mw_store = gw_db g, mw_files = en_files (gw_wa g), mw_net = en_net (gw_wa g)\<rparr>"
  let ?F = "manager_fetcher Ou S (en_manager (gw_wa g))"
  obtain r W where f: "fetch ?F (se_utl S) (se_errtext S) (ou_now Ou) (ou_write Ou) t i ?W = (r, W)" by fastforce
  have "rows_kept t (gw_db g) (mw_store W)"
    using apart.fetch_kept [of ?F "ou_env Ou 0" t ?W "se_utl S" "se_errtext S" "ou_now Ou" "ou_write Ou" i] f
    by (simp add: manager_fetcher_def)
  moreover have "\<forall>p. mw_files W p = en_files (gw_wa g) p \<or> in_directory (se_mediaDir S) t p"
    using fetch_directory [of ?F "se_utl S" "se_errtext S" "ou_now Ou" "ou_write Ou" t i ?W] f
    by (simp add: manager_fetcher_def)
  moreover have "snd (FetchMedia Ou S t i g) =
      g\<lparr>gw_db := mw_store W, gw_wa := (gw_wa g)\<lparr>en_files := mw_files W, en_net := mw_net W\<rparr>\<rparr>"
    by (simp add: FetchMedia_def f)
  ultimately show ?thesis
    using live_principal_frame [of "snd (FetchMedia Ou S t i g)" g] by (simp add: others_kept_def rows_kept_def)
qed

text \<open>The events that arrive for one tenant while a call of that tenant's waits.\<close>

definition own_events :: "string \<Rightarrow> 'j outside \<Rightarrow> 'j outside" where
  "own_events t Ou = Ou\<lparr>ou_events := filter (\<lambda>(E, t', evt). t' = t) (ou_events Ou)\<rparr>"

interpretation one: tenant_relation "others_kept S t" "manager_sessions (own_events t Ou) S L gmt" "{t}" for S t Ou L gmt
proof
  fix g g1 g2 :: "'a engine gateway" and m E i t' to body q c and n :: int
  let ?sm = "manager_sessions (own_events t Ou) S L gmt"
  show "others_kept S t g g" by (simp add: others_kept_def rows_kept_refl)
  show "others_kept S t g g1 \<Longrightarrow> others_kept S t g1 g2 \<Longrightarrow> others_kept S t g g2"
    by (rule others_kept_trans)
  show "m_TenantID m \<in> {t} \<Longrightarrow> others_kept S t g (g\<lparr>gw_db := snd (message_Append E m (gw_db g))\<rparr>)"
    by (intro others_kept_db rows_kept_Append) simp
  show "others_kept S t g (g\<lparr>gw_db := snd (lidMapReady E (gw_db g))\<rparr>)" by (rule others_kept_db [OF apart.looked])
  obtain e d' where u: "apikey_MarkUsed E i (gw_db g) = (e, d')" by fastforce
  show "others_kept S t g (g\<lparr>gw_db := snd (apikey_MarkUsed E i (gw_db g))\<rparr>)"
    using apikey_MarkUsed_frame [OF u] live_principal_MarkUsed [OF u]
    by (auto simp: u others_kept_def rows_kept_def live_principal_def)
  assume "t' \<in> {t}"
  then have t': "t' = t" by simp
  show "others_kept S t g (snd (sm_Status ?sm t' g))"
    unfolding manager_sessions_def SessionManager.simps by (rule others_kept_run) (simp add: apart.kept_refl)
  show "others_kept S t g (snd (sm_SendText ?sm t' to body g))"
    unfolding manager_sessions_def SessionManager.simps t' by (rule others_kept_run) (rule apart.SendText_kept)
  show "others_kept S t g (snd (sm_FindContacts ?sm t' q g))"
    unfolding manager_sessions_def SessionManager.simps t' by (rule others_kept_run) (rule apart.FindContacts_kept)
  show "others_kept S t g (snd (sm_SyncHistory ?sm t' c n g))"
    unfolding manager_sessions_def SessionManager.simps t'
    by (rule others_kept_run, rule apart.SyncHistory_kept, rule apart.handle_events_kept)
       (auto simp: own_events_def intro: apart.handleEvent_kept)
  show "others_kept S t g (snd (sm_FetchMedia ?sm t' i g))"
    unfolding manager_sessions_def SessionManager.simps t' by (rule FetchMedia_others)
qed

section \<open>One tenant's requests and events\<close>

lemma filter_one_of_others:
  assumes "u \<noteq> t" and "filter (\<lambda>r. key r \<noteq> t) xs = filter (\<lambda>r. key r \<noteq> t) ys"
  shows "filter (\<lambda>r. key r = u) xs = filter (\<lambda>r. key r = u) ys"
proof -
  have "filter (\<lambda>r. key r = u) zs = filter (\<lambda>r. key r = u) (filter (\<lambda>r. key r \<noteq> t) zs)" for zs
    using assms(1) by (induction zs) auto
  then show ?thesis using assms(2) by metis
qed

lemma rows_kept_other:
  assumes "rows_kept t d d'" and "u \<noteq> t"
  shows "filter (\<lambda>r. m_TenantID r = u) (messages d') = filter (\<lambda>r. m_TenantID r = u) (messages d)"
    and "filter (\<lambda>r. cr_TenantID r = u) (chats d') = filter (\<lambda>r. cr_TenantID r = u) (chats d)"
    and "filter (\<lambda>r. s_TenantID r = u) (sessions d') = filter (\<lambda>r. s_TenantID r = u) (sessions d)"
  using assms(1) by (auto simp: rows_kept_def intro: filter_one_of_others [OF assms(2)])

lemma own_events_id: "\<forall>e\<in>set (ou_events Ou). fst (snd e) = t \<Longrightarrow> own_events t Ou = Ou"
  by (cases Ou) (auto simp: own_events_def filter_id_conv)

text \<open>C2. No tenant reaches another through the gateway: a request with a tenant's key, whatever
  endpoint or tool it calls and whatever it carries, changes no message, chat name, session or tenant
  row of any other tenant, no key's holder or scopes and no client, and no file outside that tenant's
  own directory of the media directory.\<close>

lemma tenants_confined:
  assumes S: "sv_sessions S = manager_sessions Ou Se L gmt"
    and p: "live_principal g (HashKey (BearerToken r)) = Some p" and admin: "BearerToken r \<noteq> sv_adminToken S"
    and events: "\<forall>e\<in>set (ou_events Ou). fst (snd e) = TenantID p"
    and g': "snd (Server_Handler E utl rand open_file (mcpHandler sdk E S) S r g) = g'"
    and u: "u \<noteq> TenantID p"
  shows "filter (\<lambda>m. m_TenantID m = u) (messages (gw_db g')) = filter (\<lambda>m. m_TenantID m = u) (messages (gw_db g)) \<and>
     filter (\<lambda>c. cr_TenantID c = u) (chats (gw_db g')) = filter (\<lambda>c. cr_TenantID c = u) (chats (gw_db g)) \<and>
     filter (\<lambda>s. s_TenantID s = u) (sessions (gw_db g')) = filter (\<lambda>s. s_TenantID s = u) (sessions (gw_db g)) \<and>
     tenants (gw_db g') = tenants (gw_db g) \<and> live_principal g' = live_principal g \<and>
     mg_clients (en_manager (gw_wa g')) = mg_clients (en_manager (gw_wa g)) \<and>
     (\<forall>path. en_files (gw_wa g') path = en_files (gw_wa g) path \<or> in_directory (se_mediaDir Se) (TenantID p) path)"
proof -
  have "sv_sessions S = manager_sessions (own_events (TenantID p) Ou) Se L gmt"
    using S own_events_id [OF events] by simp
  from one.tenant_request [OF this] have k: "others_kept Se (TenantID p) g g'"
    using g' p admin by auto
  then have "rows_kept (TenantID p) ((gw_db g)\<lparr>api_keys := []\<rparr>) ((gw_db g')\<lparr>api_keys := []\<rparr>)"
    by (simp add: others_kept_def)
  from rows_kept_other [OF this u] k show ?thesis by (simp add: others_kept_def rows_kept_def)
qed

definition sample_engine :: "plain_jid engine gateway" where
  "sample_engine =
     \<lparr>gw_db = sample_db\<lparr>api_keys := [sample_key ''k1'' ''t1'' (HashKey ''tok'')]\<rparr>,
      gw_wa = \<lparr>en_manager = sample_manager, en_files = (\<lambda>_. None), en_net = []\<rparr>\<rparr>"

definition sample_settings :: settings where
  "sample_settings =
     \<lparr>se_utl = id, se_errtext = (\<lambda>_. []), se_mediaDir = ''/srv/media'', se_mediaMaxBytes = 100, se_mediaAllowed = [''image'']\<rparr>"

definition sample_engine_server :: "plain_jid engine Server" where
  "sample_engine_server =
     \<lparr>sv_adminToken = ''s3cret'', sv_sessions = manager_sessions sample_outside sample_settings plain_jids (\<lambda>_. MediaImage),
      sv_defaultScopes = [ScopeMessagesSend], sv_mcpOrigins = []\<rparr>"

lemma sample_engine_live: "\<exists>p. live_principal sample_engine (HashKey ''tok'') = Some p \<and> TenantID p = ''t1''"
  by (simp add: live_principal_def live_key_def sample_engine_def principal_of_def scanAPIKey_def)

lemma tenants_confined_witness:
  "filter (\<lambda>m. m_TenantID m = ''t2'') (messages (gw_db (snd (Server_Handler (\<lambda>_. sample_env) id None (\<lambda>_ _. None)
       (mcpHandler sample_sdk (\<lambda>_. sample_env) sample_engine_server) sample_engine_server
       (sample_request ''tok'' EmptyBody) sample_engine)))) =
   filter (\<lambda>m. m_TenantID m = ''t2'') (messages sample_db)"
proof -
  obtain p where p: "live_principal sample_engine (HashKey ''tok'') = Some p" "TenantID p = ''t1''"
    using sample_engine_live by blast
  have s: "sv_sessions sample_engine_server = manager_sessions sample_outside sample_settings plain_jids (\<lambda>_. MediaImage)"
    "sv_adminToken sample_engine_server = ''s3cret''" by (simp_all add: sample_engine_server_def)
  have e: "\<forall>e\<in>set (ou_events sample_outside). fst (snd e) = ''t1''" by (simp add: sample_outside_def)
  have m: "messages (gw_db sample_engine) = messages sample_db" by (simp add: sample_engine_def)
  have live: "live_principal sample_engine (HashKey (BearerToken (sample_request ''tok'' EmptyBody))) = Some p"
    using p(1) by (simp add: sample_token)
  have admin: "BearerToken (sample_request ''tok'' EmptyBody) \<noteq> sv_adminToken sample_engine_server"
    by (simp add: sample_token s(2))
  have t2: "''t2'' \<noteq> TenantID p" by (simp add: p(2))
  from tenants_confined [OF s(1) live admin e [folded p(2)] refl t2, THEN conjunct1] show ?thesis unfolding m .
qed

text \<open>C10. An event of one tenant's client stays with that tenant: whatever a WhatsApp event of any kind
  carries, other tenants' messages, chat names and sessions stay as they are, and so do all keys, all
  tenants and all clients.\<close>

lemma events_confined:
  assumes h: "handleEvent E L gmt t evt m = Some (m', spawned)" and u: "u \<noteq> t"
  shows "filter (\<lambda>r. m_TenantID r = u) (messages (mg_db m')) = filter (\<lambda>r. m_TenantID r = u) (messages (mg_db m)) \<and>
     filter (\<lambda>c. cr_TenantID c = u) (chats (mg_db m')) = filter (\<lambda>c. cr_TenantID c = u) (chats (mg_db m)) \<and>
     filter (\<lambda>s. s_TenantID s = u) (sessions (mg_db m')) = filter (\<lambda>s. s_TenantID s = u) (sessions (mg_db m)) \<and>
     api_keys (mg_db m') = api_keys (mg_db m) \<and> tenants (mg_db m') = tenants (mg_db m) \<and> mg_clients m' = mg_clients m"
proof -
  have k: "rows_kept t (mg_db m) (mg_db m')" "mg_clients m' = mg_clients m"
    using apart.handleEvent_kept [OF h] by (simp_all add: apart.kept_def)
  from rows_kept_other [OF k(1) u] k show ?thesis by (simp add: rows_kept_def)
qed

lemma events_confined_witness:
  "\<exists>m'. handleEvent (\<lambda>_ _. sample_env) plain_jids (\<lambda>_. MediaImage) ''t1'' (EvMessage sample_inbound) sample_manager = Some (m', False) \<and>
     filter (\<lambda>r. m_TenantID r = ''t2'') (messages (mg_db m')) = filter (\<lambda>r. m_TenantID r = ''t2'') (messages sample_db)"
proof -
  obtain m' where h: "handleEvent (\<lambda>_ _. sample_env) plain_jids (\<lambda>_. MediaImage) ''t1'' (EvMessage sample_inbound) sample_manager = Some (m', False)"
    by (simp add: handleEvent_def)
  moreover have "mg_db sample_manager = sample_db" by (simp add: sample_manager_def)
  ultimately show ?thesis using events_confined [OF h, of "''t2''"] by simp
qed

end
