(* ===== verification/Revocation.thy ===== *)
theory Revocation
  imports Isolation
begin

text \<open>
  What revoking a key means for the running gateway: \<open>handleRevokeKey\<close> of
  \<open>internal/httpapi/admin_handlers.go\<close> against everything the gateway does afterwards.
\<close>

lemma handleRevokeKey_engine: "handleRevokeKey E r g = (resp, g') \<Longrightarrow> gw_wa g' = gw_wa g"
  by (auto simp: handleRevokeKey_def split: prod.splits option.splits store_error.splits)

text \<open>A digest that is dead in every later state of the store is refused in every later state of the gateway.\<close>

lemma dead_for_good:
  assumes dead: "\<forall>d. store_step\<^sup>*\<^sup>* (gw_db (sy_Gateway s)) d \<longrightarrow> live_key d (HashKey (BearerToken r)) = None"
    and pend: "pending_ok (mg_pending (en_manager (gw_wa (sy_Gateway s))))"
    and run: "(gateway_step L gmt utl open_file sdk st)\<^sup>*\<^sup>* s s'" and admin: "BearerToken r \<noteq> sv_adminToken S"
  shows "\<exists>refused. Server_Handler E utl rand open_file mcp S r (sy_Gateway s') = (refused, sy_Gateway s') \<and>
    (json_error {401, 403, 404, 405, 500} refused \<or> refused = writeJSON 200 RHealth \<and> drop 1 (r_Path r) = ''healthz'')"
proof -
  have "store_step\<^sup>*\<^sup>* (gw_db (sy_Gateway s)) (gw_db (sy_Gateway s'))"
    using gateway_run_moves [OF run pend] by (simp add: gateway_moves_def)
  then have "live_principal (sy_Gateway s') (HashKey (BearerToken r)) = None" using dead by (simp add: live_principal_def)
  from refused_without_key [OF disjI2 [OF this] disjI2 [OF admin]] show ?thesis by metis
qed

text \<open>C6. Revoking a key over HTTP kills it for good: after a 204, whatever the gateway goes through, any
  request with the named key of the named tenant is refused, on every endpoint but the open health
  check, and changes nothing; no other credential has changed. A 404 changes nothing, and says that no
  live key of that tenant has that identifier.\<close>

lemma revoked_for_good:
  assumes ok: "db_ok (gw_db (sy_Gateway s))" and pend: "pending_ok (mg_pending (en_manager (gw_wa (sy_Gateway s))))"
    and h: "handleRevokeKey E r (sy_Gateway s) = (resp, g)"
  shows "(status resp = 204 \<and> (\<exists>row\<in>set (api_keys (gw_db (sy_Gateway s))).
        kr_ID row = path_value r ''keyID'' \<and> kr_TenantID row = path_value r ''id'' \<and>
        (\<forall>x. x = kr_KeyHash row \<or> live_principal g x = live_principal (sy_Gateway s) x) \<and>
        (\<forall>s' E' rand mcp S r'. (gateway_step L gmt utl open_file sdk st)\<^sup>*\<^sup>* (s\<lparr>sy_Gateway := g\<rparr>) s' \<and>
           HashKey (BearerToken r') = kr_KeyHash row \<and> BearerToken r' \<noteq> sv_adminToken S \<longrightarrow>
           (\<exists>refused. Server_Handler E' utl rand open_file mcp S r' (sy_Gateway s') = (refused, sy_Gateway s') \<and>
              (json_error {401, 403, 404, 405, 500} refused \<or>
               refused = writeJSON 200 RHealth \<and> drop 1 (r_Path r') = ''healthz''))))) \<or>
     (status resp = 404 \<and> g = sy_Gateway s \<and> (\<forall>row\<in>set (api_keys (gw_db (sy_Gateway s))).
        kr_ID row = path_value r ''keyID'' \<and> kr_TenantID row = path_value r ''id'' \<longrightarrow> kr_RevokedAt row \<noteq> None)) \<or>
     status resp = 500"
proof -
  obtain e d where rev: "apikey_Revoke (E 2) (path_value r ''id'') (path_value r ''keyID'') (gw_db (sy_Gateway s)) = (e, d)"
    by fastforce
  consider (revoked) "e = None" | (missing) "e = Some ErrNotFound" | (failed) x where "e = Some (StoreError x)"
    by (cases e; cases "the e") auto
  then show ?thesis
  proof cases
    case revoked
    then have g: "gw_db g = d" "status resp = 204" using h rev by (auto simp: handleRevokeKey_def)
    obtain row where row: "row \<in> set (api_keys (gw_db (sy_Gateway s)))" "kr_ID row = path_value r ''keyID''"
      "kr_TenantID row = path_value r ''id''" "\<forall>x. x \<noteq> kr_KeyHash row \<longrightarrow> live_key d x = live_key (gw_db (sy_Gateway s)) x"
      and dead: "\<forall>d'. store_step\<^sup>*\<^sup>* d d' \<longrightarrow> live_key d' (kr_KeyHash row) = None"
      by (rule revoked_row [OF ok rev [unfolded revoked]])
    have others: "\<forall>x. x = kr_KeyHash row \<or> live_principal g x = live_principal (sy_Gateway s) x"
      using row(4) by (auto simp: live_principal_def g)
    have pend': "pending_ok (mg_pending (en_manager (gw_wa (sy_Gateway (s\<lparr>sy_Gateway := g\<rparr>)))))"
      using pend handleRevokeKey_engine [OF h] by simp
    have refused: "\<exists>refused. Server_Handler E' utl rand open_file mcp S r' (sy_Gateway s') = (refused, sy_Gateway s') \<and>
        (json_error {401, 403, 404, 405, 500} refused \<or> refused = writeJSON 200 RHealth \<and> drop 1 (r_Path r') = ''healthz'')"
      if "(gateway_step L gmt utl open_file sdk st)\<^sup>*\<^sup>* (s\<lparr>sy_Gateway := g\<rparr>) s' \<and>
        HashKey (BearerToken r') = kr_KeyHash row \<and> BearerToken r' \<noteq> sv_adminToken S" for s' E' rand mcp S r'
      using that dead by (intro dead_for_good [OF _ pend']) (auto simp: g)
    show ?thesis
      by (rule disjI1, intro conjI bexI [OF _ row(1)] allI impI, rule g(2), rule row(2), rule row(3), rule others [rule_format], rule refused)
  next
    case missing
    from apikey_Revoke_ErrNotFound [OF rev [unfolded missing]] h rev missing show ?thesis
      by (auto simp: handleRevokeKey_def revoke_matches_def)
  qed (use h rev in \<open>auto simp: handleRevokeKey_def\<close>)
qed

lemma sample_engine_ok: "db_ok (gw_db sample_engine)"
proof -
  have "keys_ok (gw_db sample_engine)" by (simp add: keys_ok_def sample_engine_def HashKey_ne [symmetric])
  then show ?thesis using sample_db_ok by (simp add: db_ok_def sample_engine_def)
qed

lemma revoked_for_good_witness:
  "\<exists>(g :: plain_jid engine gateway) st refused.
     handleRevokeKey (\<lambda>_. sample_env)
       ((sample_request ''s3cret'' EmptyBody)\<lparr>r_PathValues := [(''id'', ''t1''), (''keyID'', ''k1'')]\<rparr>) sample_engine =
         (\<lparr>hdr = [], status = 204, rbody = NoBody\<rparr>, g) \<and>
     startup sample_boot plain_jids id (\<lambda>_. None) sample_getenv = Inr st \<and>
     Server_Handler (\<lambda>_. sample_env) id None (\<lambda>_ _. None) (mcpHandler sample_sdk (\<lambda>_. sample_env) sample_engine_server)
       sample_engine_server (sample_request ''tok'' EmptyBody) g = (refused, g)"
proof -
  let ?s = "\<lparr>sy_Gateway = sample_engine, sy_Syncs = [], sy_Waiting = []\<rparr>"
  let ?r = "(sample_request ''s3cret'' EmptyBody)\<lparr>r_PathValues := [(''id'', ''t1''), (''keyID'', ''k1'')]\<rparr>"
  have p: "path_value ?r ''id'' = ''t1''" "path_value ?r ''keyID'' = ''k1''" by (simp_all add: path_value_def)
  obtain g where h: "handleRevokeKey (\<lambda>_. sample_env) ?r (sy_Gateway ?s) = (\<lparr>hdr = [], status = 204, rbody = NoBody\<rparr>, g)"
    by (simp add: handleRevokeKey_def p apikey_Revoke_def Let_def sample_engine_def revoke_matches_def)
  obtain st where st: "startup sample_boot plain_jids id (\<lambda>_. None) sample_getenv = Inr st" using sample_start by blast
  have ok: "db_ok (gw_db (sy_Gateway ?s))" "pending_ok (mg_pending (en_manager (gw_wa (sy_Gateway ?s))))"
    using sample_engine_ok by (simp_all add: sample_engine_def sample_manager_def pending_ok_new)
  have admin: "BearerToken (sample_request ''tok'' EmptyBody) \<noteq> sv_adminToken sample_engine_server"
    by (simp add: sample_token sample_engine_server_def)
  let ?refused = "\<lambda>refused. Server_Handler (\<lambda>_. sample_env) id None (\<lambda>_ _. None)
      (mcpHandler sample_sdk (\<lambda>_. sample_env) sample_engine_server) sample_engine_server (sample_request ''tok'' EmptyBody) g = (refused, g)"
  have "\<exists>refused. ?refused refused"
    using revoked_for_good [OF ok h, where L = plain_jids and gmt = "\<lambda>_. MediaImage" and utl = id and open_file = "\<lambda>_ _. None"
      and sdk = sample_sdk and st = st]
  proof (elim disjE conjE bexE)
    fix row
    assume row: "row \<in> set (api_keys (gw_db (sy_Gateway ?s)))"
      and later: "\<forall>s' E' rand mcp S r'. (gateway_step plain_jids (\<lambda>_. MediaImage) id (\<lambda>_ _. None) sample_sdk st)\<^sup>*\<^sup>* (?s\<lparr>sy_Gateway := g\<rparr>) s' \<and>
           HashKey (BearerToken r') = kr_KeyHash row \<and> BearerToken r' \<noteq> sv_adminToken S \<longrightarrow>
           (\<exists>refused. Server_Handler E' id rand (\<lambda>_ _. None) mcp S r' (sy_Gateway s') = (refused, sy_Gateway s') \<and>
              (json_error {401, 403, 404, 405, 500} refused \<or>
               refused = writeJSON 200 RHealth \<and> drop 1 (r_Path r') = ''healthz''))"
    from row have "HashKey (BearerToken (sample_request ''tok'' EmptyBody)) = kr_KeyHash row" by (simp add: sample_engine_def sample_token)
    then have "\<exists>refused. ?refused refused \<and> (json_error {401, 403, 404, 405, 500} refused \<or>
        refused = writeJSON 200 RHealth \<and> drop 1 (r_Path (sample_request ''tok'' EmptyBody)) = ''healthz'')"
      using later [rule_format, OF conjI [OF rtranclp.rtrancl_refl conjI [OF _ admin]]] by simp
    then show ?thesis by blast
  qed simp_all
  with h st show ?thesis by auto
qed

end
