(* ===== verification/SurfaceProps.thy ===== *)
theory SurfaceProps
  imports Isolation
begin

text \<open>
  What the two surfaces answer and what the tools may do: the shape of every error response of the
  HTTP surface, the scope every MCP tool asks for, and what a tool registered as read-only leaves
  alone.
\<close>

section \<open>Error responses\<close>

text \<open>The status codes of the gateway's errors and the code each carries in its body.\<close>

definition error_codes :: "(nat \<times> string) list" where
  "error_codes =
     [(400, CodeInvalidRequest), (401, CodeUnauthorized), (403, CodeForbidden), (404, CodeNotFound),
      (405, CodeInvalidRequest), (409, CodeConflict), (410, CodeGone), (413, CodeTooLarge),
      (415, CodeUnsupportedType), (500, CodeInternal), (504, CodeUnavailable)]"

definition error_shape :: "'p response \<Rightarrow> bool" where
  "error_shape resp \<longleftrightarrow>
     (\<exists>code msg. (status resp, code) \<in> set error_codes \<and> rbody resp = ErrorBody code msg \<and>
        hdrGet ''Content-Type'' (hdr resp) = ''application/json'')"

definition answer_ok :: "'p response \<Rightarrow> bool" where
  "answer_ok resp \<longleftrightarrow> status resp < 400 \<or> error_shape resp"

lemma error_shape_Write: "error_shape (Write h st code msg) \<longleftrightarrow> (st, code) \<in> set error_codes"
  by (auto simp: error_shape_def Write_def)

lemma error_codes_set:
  "set error_codes =
     {(400, CodeInvalidRequest), (401, CodeUnauthorized), (403, CodeForbidden), (404, CodeNotFound),
      (405, CodeInvalidRequest), (409, CodeConflict), (410, CodeGone), (413, CodeTooLarge),
      (415, CodeUnsupportedType), (500, CodeInternal), (504, CodeUnavailable)}"
  by (simp add: error_codes_def)

lemma answer_ok_errors [simp]:
  "answer_ok (Unauthorized m)" "answer_ok (Forbidden m)" "answer_ok (NotFound m)" "answer_ok (InvalidRequest msg)"
  "answer_ok Internal"
  by (simp_all add: answer_ok_def Unauthorized_def Forbidden_def NotFound_def InvalidRequest_def Internal_def
      error_shape_Write error_codes_set)

lemma answer_ok_success [simp]: "st < 400 \<Longrightarrow> answer_ok (writeJSON st p)" "answer_ok \<lparr>hdr = h, status = 204, rbody = b\<rparr>"
  "answer_ok \<lparr>hdr = h, status = 200, rbody = b\<rparr>"
  by (simp_all add: answer_ok_def)

lemma answer_ok_wa: "writeWAError e = Some resp \<Longrightarrow> answer_ok resp"
  by (auto simp: writeWAError_def answer_ok_def error_shape_Write NotFound_def InvalidRequest_def error_codes_set
      split: wa_error.splits store_error.splits)

lemma answer_ok_media: "writeMediaError e = Some resp \<Longrightarrow> answer_ok resp"
  using answer_ok_wa [of e resp]
  by (auto simp: writeMediaError_def answer_ok_def error_shape_Write NotFound_def InvalidRequest_def error_codes_set
      split: wa_error.splits store_error.splits)

lemma answer_ok_reply: "answer_ok (fst (waReply x g))"
  using answer_ok_wa by (auto simp: waReply_def split: sum.split option.split)

lemma answer_ok_tenant: "(\<And>p. answer_ok (fst (h p r g))) \<Longrightarrow> answer_ok (fst (withTenant h r g))"
  by (simp add: withTenant_def split: option.split)

lemma admin_answers:
  "answer_ok (fst (handleCreateTenant E utl rand S r g))"
  "answer_ok (fst (handleIssueKey E utl rand S r g))"
  "answer_ok (fst (handleRevokeKey E r g))"
  "answer_ok (fst (handleStartPairing E S r g))"
  using answer_ok_wa
  by (auto simp: handleCreateTenant_def handleIssueKey_def handleRevokeKey_def handleStartPairing_def Let_def
      split: sum.split option.split prod.split store_error.split)

lemma tenant_answers:
  "answer_ok (fst (handleGetSession S r g))"
  "answer_ok (fst (handleSendMessage E S r g))"
  "answer_ok (fst (handleListChats E r g))"
  "answer_ok (fst (handleListChatMessages E r g))"
  "answer_ok (fst (handleSyncChatHistory S r g))"
  "answer_ok (fst (handleFindContacts S r g))"
  "answer_ok (fst (handleGetMessageMedia open_file S r g))"
  unfolding handleGetSession_def handleSendMessage_def handleListChats_def handleListChatMessages_def
    handleSyncChatHistory_def handleFindContacts_def handleGetMessageMedia_def
  by (rule answer_ok_tenant, use answer_ok_wa answer_ok_media in
      \<open>auto simp: Let_def answer_ok_reply split: sum.split option.split prod.split\<close>)+

lemma answer_ok_auth: "authenticateTenant mw r g = (Inl resp, g1) \<Longrightarrow> answer_ok resp"
  by (auto simp: authenticateTenant_def Let_def split: sum.splits resolve_error.splits option.splits if_splits)

lemma answer_ok_guards:
  "(\<And>r g. answer_ok (fst (h r g))) \<Longrightarrow> answer_ok (fst (RequireAdmin mw h r g))"
  "(\<And>r g. answer_ok (fst (h r g))) \<Longrightarrow> answer_ok (fst (RequireScope mw required h r g))"
  using answer_ok_auth
  by (auto simp: RequireAdmin_def RequireScope_def Let_def split: sum.split prod.split)

text \<open>The endpoint of the SDK: an error of the guards, or what the SDK answered.\<close>

lemma mcp_answers:
  "answer_ok (fst (RequireAllowedOrigin utl allowed (RequireTenant mw mcp) r g)) \<or>
   (\<exists>r' g'. fst (RequireAllowedOrigin utl allowed (RequireTenant mw mcp) r g) = fst (mcp r' g'))"
  using answer_ok_auth
  by (auto simp: RequireAllowedOrigin_def RequireTenant_def Let_def split: sum.split prod.split)

lemma route_answers:
  assumes "rt \<in> set (routes E utl rand open_file mcp S)"
  shows "answer_ok (fst (rt_Handler rt r g)) \<or>
    rt_Segs rt = [Lit ''mcp''] \<and> (\<exists>r' g'. fst (rt_Handler rt r g) = fst (mcp r' g'))"
  using assms mcp_answers [of utl "sv_mcpOrigins S" "server_mw S E" mcp r g]
  unfolding routes_def Let_def set_simps insert_iff empty_iff simp_thms
  by (elim disjE) (simp_all add: answer_ok_guards admin_answers tenant_answers handleHealthz_def)

lemma match_one: "match_segs [Lit l] segs \<noteq> None \<Longrightarrow> segs = [l]"
  by (cases segs rule: list.exhaust; cases "tl segs") (auto split: if_splits)

lemma mux_answers:
  "answer_ok (fst (serveMux (routes E utl rand open_file mcp S) r g)) \<or>
   drop 1 (r_Path r) = ''mcp'' \<and> (\<exists>r' g'. fst (serveMux (routes E utl rand open_file mcp S) r g) = fst (mcp r' g')) \<or>
   status (fst (serveMux (routes E utl rand open_file mcp S) r g)) \<in> {404, 405} \<and>
     hdrGet ''Content-Type'' (hdr (fst (serveMux (routes E utl rand open_file mcp S) r g))) \<noteq> ''application/json''"
proof -
  let ?rts = "routes E utl rand open_file mcp S" and ?segs = "Split (drop 1 (r_Path r)) (CHR ''/'')"
  let ?found = "find (\<lambda>rt. method_ok (rt_Method rt) (r_Method r)) (filter (\<lambda>rt. match_segs (rt_Segs rt) ?segs \<noteq> None) ?rts)"
  show ?thesis
  proof (cases ?found)
    case None
    then show ?thesis by (auto simp: serveMux_def Let_def hdrGet_def)
  next
    case (Some rt)
    let ?r = "r\<lparr>r_PathValues := the (match_segs (rt_Segs rt) ?segs), r_Principal := None\<rparr>"
    have rt: "rt \<in> set ?rts" "match_segs (rt_Segs rt) ?segs \<noteq> None"
      using Some by (auto simp: find_Some_iff dest!: nth_mem)
    have eq: "serveMux ?rts r g = rt_Handler rt ?r g" using Some by (simp add: serveMux_def Let_def)
    show ?thesis
      unfolding eq using route_answers [OF rt(1), of ?r g] rt(2) match_one [of "''mcp''" ?segs] Split_one
      by fastforce
  qed
qed

text \<open>C8. Clients parse one error format: a response of the HTTP surface with a status of 400 or more is
  one of eleven statuses, carries the JSON error body with the code that belongs to the status, and
  is labelled as JSON, whether a handler, a guard or the router itself refused; the only other error
  a client can see is one the MCP SDK wrote on its own endpoint.\<close>

lemma errors_are_json:
  assumes h: "Server_Handler E utl rand open_file mcp S r g = (resp, g')" and st: "400 \<le> status resp"
  shows "error_shape resp \<or> drop 1 (r_Path r) = ''mcp'' \<and> (\<exists>r' g1. resp = fst (mcp r' g1))"
proof -
  obtain resp0 g0 where m: "serveMux (routes E utl rand open_file mcp S) r g = (resp0, g0)" by fastforce
  have resp: "resp = (if hdrGet ''Content-Type'' (hdr resp0) = ''application/json'' then resp0
      else if status resp0 = 404 then Write (hdr resp0) 404 CodeNotFound (Msg ''no such endpoint'')
      else if status resp0 = 405 then
        Write (hdr resp0) 405 CodeInvalidRequest (Msg ''method not allowed for this endpoint'')
      else resp0)"
    using h by (simp add: Server_Handler_def jsonErrors_def m)
  have routed: "hdrGet ''Content-Type'' (hdr resp0) \<noteq> ''application/json'' \<and> status resp0 \<in> {404, 405} \<Longrightarrow> error_shape resp"
    by (auto simp: resp error_shape_Write error_codes_set)
  have "resp = resp0 \<or> error_shape resp"
    by (auto simp: resp error_shape_Write error_codes_set)
  then show ?thesis
    using mux_answers [of E utl rand open_file mcp S r g] st routed by (auto simp: m answer_ok_def)
qed

lemma errors_are_json_witness:
  "error_shape (fst (Server_Handler (\<lambda>_. sample_env) id None (\<lambda>_ _. None) (\<lambda>_ g. (writeJSON 200 RHealth, g)) sample_server
     ((sample_request ''tok'' EmptyBody)\<lparr>r_Path := ''/nowhere''\<rparr>) sample_gateway))"
proof -
  let ?h = "Server_Handler (\<lambda>_. sample_env) id None (\<lambda>_ _. None) (\<lambda>_ g. (writeJSON 200 RHealth, g)) sample_server
     ((sample_request ''tok'' EmptyBody)\<lparr>r_Path := ''/nowhere''\<rparr>) sample_gateway"
  have p: "r_Path ((sample_request ''tok'' EmptyBody)\<lparr>r_Path := ''/nowhere''\<rparr>) = ''/nowhere''" by simp
  have "status (fst ?h) = 404"
    by (simp add: Server_Handler_def jsonErrors_status serveMux_def routes_def Let_def)
  then show ?thesis
    using errors_are_json [of "\<lambda>_. sample_env" id None "\<lambda>_ _. None" "\<lambda>_ g. (writeJSON 200 RHealth, g)" sample_server
        "(sample_request ''tok'' EmptyBody)\<lparr>r_Path := ''/nowhere''\<rparr>" sample_gateway "fst ?h" "snd ?h"] by simp
qed

section \<open>Tools\<close>

text \<open>C9. The MCP endpoint takes any key of a tenant, so each tool checks for itself: a call by a caller
  without the tool's scope (\<open>messages:send\<close> for \<open>send_message\<close>, \<open>media:read\<close> for \<open>get_media\<close>,
  \<open>messages:read\<close> for the others), or by no tenant at all, gets an error (the tool's or the SDK's) and leaves
  the gateway as it was.\<close>

lemma tools_enforce_scopes:
  assumes "sd_Call sdk r = Some (name, args)" and "mcpHandler sdk E S r g = (resp, g')"
    and "\<not> (\<exists>p. PrincipalFrom r = Some p \<and> TenantID p \<noteq> [] \<and> HasScope (Scopes p) (tool_scope name))"
  shows "g' = g \<and> (\<exists>out. resp = sd_Reply sdk r out \<and> (out = None \<or> (\<exists>message. out = Some (Inl message))))"
proof -
  let ?server = "mcpserver_New sdk \<lparr>dp_Messages = E, dp_Sessions = sv_sessions S\<rparr>"
  obtain out g1 where c: "call_tool ?server (name, args) (PrincipalFrom r) g = (out, g1)" by fastforce
  have "g1 = g \<and> (out = None \<or> (\<exists>message. out = Some (Inl message)))"
    using assms(3) by (intro call_tool_refuses [OF _ c]) (simp add: principal_HasScope_def)
  with assms(1,2) c show ?thesis by (auto simp: mcpHandler_def Let_def)
qed

definition sample_reader :: request where
  "sample_reader = (sample_request ''tok'' EmptyBody)
     \<lparr>r_Path := ''/send_message'',
      r_Principal := Some \<lparr>IsAdmin = False, TenantID = ''t1'', KeyID = ''k1'', Scopes = [''messages:read'']\<rparr>\<rparr>"

lemma tools_enforce_scopes_witness:
  "snd (mcpHandler sample_sdk (\<lambda>_. sample_env) sample_server sample_reader sample_gateway) = sample_gateway"
proof -
  have c: "sd_Call sample_sdk sample_reader = Some (''send_message'', r_Body sample_reader)"
    by (simp add: sample_sdk_def sample_reader_def)
  have no: "\<not> HasScope [''messages:read''] ScopeMessagesSend"
    by (simp add: HasScope_def ScopeMessagesSend_def splitScope_lit trim_eval Wildcard_def)
  have p: "PrincipalFrom sample_reader =
      Some \<lparr>IsAdmin = False, TenantID = ''t1'', KeyID = ''k1'', Scopes = [''messages:read'']\<rparr>"
    by (simp add: PrincipalFrom_def sample_reader_def)
  have n: "\<not> (\<exists>p. PrincipalFrom sample_reader = Some p \<and> TenantID p \<noteq> [] \<and> HasScope (Scopes p) (tool_scope ''send_message''))"
    using no by (simp add: p tool_scope_def)
  show ?thesis by (rule tools_enforce_scopes [OF c prod.collapse [symmetric] n, THEN conjunct1])
qed

text \<open>The flag of the address table is all a read may set.\<close>

definition only_flag :: "db \<Rightarrow> db \<Rightarrow> bool" where
  "only_flag d d' \<longleftrightarrow> (\<exists>b. d' = d\<lparr>lidMap := b\<rparr>)"

lemma only_flag_refl: "only_flag d d"
  unfolding only_flag_def by (rule exI [of _ "lidMap d"]) simp

lemma only_flag_trans: "only_flag d d1 \<Longrightarrow> only_flag d1 d2 \<Longrightarrow> only_flag d d2"
  by (auto simp: only_flag_def)

lemma only_flag_ready: "only_flag d (snd (lidMapReady E d))"
  using lidMapReady_eq [of E d] by (simp add: only_flag_def)

lemma only_flag_reads:
  "only_flag d (snd (message_ListByChat E t a n d))" "only_flag d (snd (message_ListChats E t n d))"
  "only_flag d (snd (message_SearchChats E t q n d))"
proof -
  note r = only_flag_ready only_flag_refl
  show "only_flag d (snd (message_ListByChat E t a n d))"
    using chatAliases_ready [of E a d] r by (metis message_ListByChat_snd)
  show "only_flag d (snd (message_ListChats E t n d))" using message_ListChats_snd [of E t n d] r by (metis insertE singletonD)
  show "only_flag d (snd (message_SearchChats E t q n d))"
    using r by (auto simp: message_SearchChats_def Let_def case_prod_beta)
qed

lemma only_flag_lists:
  "message_ListByChat E t a n d = (r1, d') \<Longrightarrow> only_flag d d'" "message_ListChats E t n d = (r2, d') \<Longrightarrow> only_flag d d'"
  using only_flag_reads(1) [of d E t a n] only_flag_reads(2) [of d E t n] by simp_all

lemma only_flag_marks: "only_flag d (snd (markStored E i t cs d))"
proof (induction E i t cs d rule: markStored.induct)
  case (2 E i t c cs d)
  obtain r d1 where l: "message_ListByChat (E i) t (ct_JID c) 1 d = (r, d1)" by fastforce
  have d1: "only_flag d d1" using only_flag_reads(1) [of d "E i" t "ct_JID c" 1] l by simp
  show ?case
  proof (cases r)
    case (Inr stored)
    with 2 l have "only_flag d (snd (markStored E (Suc i) t cs d1))" using only_flag_trans [OF d1] by simp
    then show ?thesis using l Inr by (auto split: prod.split sum.split)
  qed (use l d1 in simp)
qed (simp add: only_flag_refl)

lemma FindContacts_reads:
  "\<exists>d. snd (FindContacts E L utl book ask t q m) = m\<lparr>mg_db := d\<rparr> \<and> only_flag (mg_db m) d"
proof -
  obtain r d1 where s: "message_SearchChats (E 0) t (TrimSpace q) maxContactResults (mg_db m) = (r, d1)" by fastforce
  have d1: "only_flag (mg_db m) d1" using only_flag_reads(3) [of "mg_db m" "E 0" t "TrimSpace q" maxContactResults] s by simp
  have d2: "only_flag (mg_db m) (snd (markStored E 2 t out d1))" for out using only_flag_trans [OF d1 only_flag_marks] .
  have "\<exists>d. m = m\<lparr>mg_db := d\<rparr> \<and> only_flag (mg_db m) d"
    by (rule exI [of _ "mg_db m"]) (simp add: only_flag_refl)
  then show ?thesis
    using d1 d2 by (auto simp: FindContacts_def Let_def s case_prod_beta split: option.split sum.split)
qed

text \<open>Two gateways that differ in that flag only; the manager's own copy of the database is not state.\<close>

definition only_read :: "'j engine gateway \<Rightarrow> 'j engine gateway \<Rightarrow> bool" where
  "only_read g g' \<longleftrightarrow>
     only_flag (gw_db g) (gw_db g') \<and>
     (\<exists>d. gw_wa g' = (gw_wa g)\<lparr>en_manager := (en_manager (gw_wa g))\<lparr>mg_db := d\<rparr>\<rparr>)"

lemma only_read_db: "only_flag (gw_db g) d \<Longrightarrow> only_read g (g\<lparr>gw_db := d\<rparr>)"
  unfolding only_read_def by (auto intro!: exI [of _ "mg_db (en_manager (gw_wa g))"])

lemma only_read_refl: "only_read g g"
  using only_read_db [OF only_flag_refl, of g] by simp

lemma only_read_scope: "(\<And>p. only_read g (snd (h p g))) \<Longrightarrow> only_read g (snd (with_scope required h ctx g))"
  by (simp add: with_scope_def only_read_refl split: sum.split)

lemma only_read_contacts: "only_read g (snd (sm_FindContacts (manager_sessions Ou S L gmt) t q g))"
proof -
  obtain d where d: "snd (FindContacts (ou_env Ou) L (se_utl S) (ou_book Ou) (ou_ask Ou) t q (manager_of g)) = (manager_of g)\<lparr>mg_db := d\<rparr>"
    "only_flag (mg_db (manager_of g)) d" using FindContacts_reads by blast
  have "snd (sm_FindContacts (manager_sessions Ou S L gmt) t q g) = with_manager ((manager_of g)\<lparr>mg_db := d\<rparr>) g"
    by (simp add: manager_sessions_def run_manager_with d(1))
  then show ?thesis using d(2) by (auto simp: only_read_def with_manager_def manager_of_def)
qed

text \<open>C21. The tools registered as read-only are: a call of one of them, whoever makes it and whatever it
  passes, stores no row, sends nothing, downloads nothing, writes no file and leaves the clients and
  the registry of history requests alone; at most it notices that WhatsApp's address table exists.\<close>

lemma read_only_tools_read:
  assumes t: "t \<in> set (mcpserver_New sdk \<lparr>dp_Messages = E, dp_Sessions = manager_sessions Ou S L gmt\<rparr>)"
    and ro: "to_ReadOnlyHint t" and c: "to_Call t args ctx g = (out, g')"
  shows "(\<exists>b. gw_db g' = (gw_db g)\<lparr>lidMap := b\<rparr>) \<and> en_files (gw_wa g') = en_files (gw_wa g) \<and>
     en_net (gw_wa g') = en_net (gw_wa g) \<and>
     mg_clients (en_manager (gw_wa g')) = mg_clients (en_manager (gw_wa g)) \<and>
     mg_pending (en_manager (gw_wa g')) = mg_pending (en_manager (gw_wa g))"
proof -
  let ?sm = "manager_sessions Ou S L gmt"
  have 1: "only_read g (snd (list_chats E n ctx g))" for n
    unfolding list_chats_def
    by (rule only_read_scope) (auto split: prod.split sum.split intro!: only_read_db dest: only_flag_lists)
  have 2: "only_read g (snd (list_messages E j n ctx g))" for j n
    unfolding list_messages_def
    by (rule only_read_scope) (auto simp: only_read_refl split: prod.split sum.split intro!: only_read_db dest: only_flag_lists)
  have r: "only_read g g1" if "sm_FindContacts ?sm x q g = (y, g1)" for x q y g1
    using only_read_contacts [of g Ou S L gmt x q] that by simp
  have 3: "only_read g (snd (find_contact ?sm q ctx g))" for q
    unfolding find_contact_def by (rule only_read_scope) (auto simp: only_read_refl r split: prod.split sum.split)
  have "out = None \<and> g' = g \<or> (\<exists>o'. out = Some o' \<and> only_read g (snd (o', g')))"
    using t ro unfolding mcpserver_New_eq set_simps insert_iff empty_iff simp_thms
    by (elim disjE; (intro run_tool_keeps [OF _ c, where P = "\<lambda>r. only_read g (snd r)"])?) (use 1 2 3 in auto)
  then have "only_read g g'" using only_read_refl by auto
  then show ?thesis by (auto simp: only_read_def only_flag_def)
qed

lemma read_only_tools_read_witness:
  "\<exists>t b. t \<in> set (mcpserver_New sample_sdk \<lparr>dp_Messages = (\<lambda>_. sample_env),
        dp_Sessions = manager_sessions sample_outside sample_settings plain_jids (\<lambda>_. MediaImage)\<rparr>) \<and>
     to_Name t = ''find_contact'' \<and>
     gw_db (snd (to_Call t EmptyBody (r_Principal sample_reader) sample_engine)) = (gw_db sample_engine)\<lparr>lidMap := b\<rparr>"
proof -
  let ?server = "mcpserver_New sample_sdk \<lparr>dp_Messages = (\<lambda>_. sample_env),
    dp_Sessions = manager_sessions sample_outside sample_settings plain_jids (\<lambda>_. MediaImage)\<rparr>"
  define t where "t = ?server ! 3"
  have t: "t \<in> set ?server" unfolding t_def by (rule nth_mem) (simp add: mcpserver_New_eq)
  have n: "to_Name t = ''find_contact''" "to_ReadOnlyHint t" by (simp_all add: t_def mcpserver_New_eq)
  from read_only_tools_read [OF t n(2) prod.collapse [symmetric], of EmptyBody "r_Principal sample_reader" sample_engine] t n
  show ?thesis by blast
qed

end
