(* ===== verification/Lifecycle.thy ===== *)
theory Lifecycle
  imports System
begin

text \<open>
  The process of \<open>cmd/gateway/main.go\<close>: \<open>main\<close>, \<open>probeHealth\<close> and the whole of \<open>run\<close>, from the
  configuration to the deferred calls on the way out. How the process is asked to stop is an
  argument: the listener fails, or a signal arrives and \<open>srv.Shutdown\<close> answers. The deferred calls
  that ran are kept in their order, as is whether the server was listening.
\<close>

section \<open>run\<close>

datatype deferred = StopSignals | CloseDB | CloseManager | CancelShutdown

text \<open>What ends the \<open>select\<close>: an error of \<open>ListenAndServe\<close>, or a signal and the result of \<open>Shutdown\<close>.\<close>

datatype ending = ListenError string | Signal "string option"

datatype run_error = RunStart start_error | RunServer new_error | RunListen string | RunShutdown string

record 'j process =
  pr_Result :: "run_error option"
  pr_Deferred :: "deferred list"
  pr_Listening :: "string option"
  pr_Gateway :: "'j engine gateway option"

text \<open>The deferred calls registered when \<open>run\<close> returns with an error of the start, last registered first.\<close>

definition start_deferred :: "start_error \<Rightarrow> deferred list" where
  "start_deferred e =
     (case e of
        StartConfig _ \<Rightarrow> []
      | StartDirs \<Rightarrow> [StopSignals]
      | StartOpen _ \<Rightarrow> [StopSignals]
      | StartMigrate _ \<Rightarrow> [CloseDB, StopSignals]
      | StartManager _ \<Rightarrow> [CloseDB, StopSignals])"

text \<open>\<open>serve\<close> is what happens to the gateway while the server runs.\<close>

definition run ::
  "'j boot \<Rightarrow> 'j jid_lib \<Rightarrow> unicode_lower \<Rightarrow> (string \<Rightarrow> int option) \<Rightarrow> (string \<Rightarrow> string) \<Rightarrow> 'j outside \<Rightarrow> media_classes \<Rightarrow>
   ('j running \<Rightarrow> 'j engine gateway \<Rightarrow> 'j engine gateway) \<Rightarrow> ending \<Rightarrow> 'j process" where
  "run B L utl dur getenv Ou gmt serve stop =
     (case startup B L utl dur getenv of
        Inl e \<Rightarrow> \<lparr>pr_Result = Some (RunStart e), pr_Deferred = start_deferred e, pr_Listening = None, pr_Gateway = None\<rparr>
      | Inr st \<Rightarrow>
          (case running_server Ou L gmt st of
             Inl e \<Rightarrow> \<lparr>pr_Result = Some (RunServer e), pr_Deferred = [CloseManager, CloseDB, StopSignals],
                       pr_Listening = None, pr_Gateway = None\<rparr>
           | Inr S \<Rightarrow>
               (let g = serve st (ru_Gateway st);
                    closed = g\<lparr>gw_wa := (gw_wa g)\<lparr>en_manager := manager_Close (en_manager (gw_wa g))\<rparr>\<rparr>
                in case stop of
                     ListenError e \<Rightarrow>
                       \<lparr>pr_Result = Some (RunListen e), pr_Deferred = [CloseManager, CloseDB, StopSignals],
                        pr_Listening = Some (ga_BindAddr (ru_Config st)), pr_Gateway = Some closed\<rparr>
                   | Signal outcome \<Rightarrow>
                       \<lparr>pr_Result = map_option RunShutdown outcome,
                        pr_Deferred = [CancelShutdown, CloseManager, CloseDB, StopSignals],
                        pr_Listening = Some (ga_BindAddr (ru_Config st)), pr_Gateway = Some closed\<rparr>)))"

section \<open>The health check\<close>

datatype probe_error = GetFailed | HealthzReturned nat

text \<open>\<open>get\<close> is the HTTP client: what a port of the loopback interface answers to a path, if anything.\<close>

definition probeHealth :: "(string \<Rightarrow> string \<Rightarrow> nat option) \<Rightarrow> (string \<Rightarrow> string) \<Rightarrow> probe_error option" where
  "probeHealth get getenv =
     (case get (healthcheckPort getenv) ''/healthz'' of
        None \<Rightarrow> Some GetFailed
      | Some code \<Rightarrow> if code \<noteq> 200 then Some (HealthzReturned code) else None)"

text \<open>The exit code of \<open>main\<close>.\<close>

definition main ::
  "bool \<Rightarrow> (string \<Rightarrow> string \<Rightarrow> nat option) \<Rightarrow> (string \<Rightarrow> string) \<Rightarrow> 'j process \<Rightarrow> nat" where
  "main healthcheck get getenv process =
     (if healthcheck then (if probeHealth get getenv \<noteq> None then 1 else 0)
      else if pr_Result process \<noteq> None then 1 else 0)"

section \<open>Ending\<close>

lemma running_after_startup:
  "startup B L utl dur getenv = Inr st \<Longrightarrow> \<exists>S. running_server Ou L gmt st = Inr S"
  using running_server_ok by blast

text \<open>The process ends in order: the deferred calls run each at most once, the WhatsApp engine is
  closed before the database it writes to, both are closed whenever the gateway was listening and
  then no client is left, the database is closed whenever it was opened; and the exit code is zero
  exactly when a signal asked for the end and the shutdown finished without error.\<close>

lemma orderly_end:
  assumes p: "p = run B L utl dur getenv Ou gmt serve stop"
  shows "distinct (pr_Deferred p) \<and>
     (CloseManager \<in> set (pr_Deferred p) \<longrightarrow>
        (\<exists>before. pr_Deferred p = before @ [CloseManager, CloseDB, StopSignals])) \<and>
     (pr_Listening p \<noteq> None \<longleftrightarrow> CloseManager \<in> set (pr_Deferred p)) \<and>
     (\<forall>g t. pr_Gateway p = Some g \<longrightarrow> mg_clients (en_manager (gw_wa g)) t = None) \<and>
     (CloseDB \<notin> set (pr_Deferred p) \<longleftrightarrow>
        (\<exists>e. startup B L utl dur getenv = Inl e \<and> (\<exists>c. e = StartConfig c \<or> e = StartDirs \<or> (\<exists>x. e = StartOpen x)))) \<and>
     (main False get getenv p = 0 \<longleftrightarrow> stop = Signal None \<and> (\<exists>st. startup B L utl dur getenv = Inr st))"
proof (cases "startup B L utl dur getenv")
  case (Inl e)
  have "p = \<lparr>pr_Result = Some (RunStart e), pr_Deferred = start_deferred e, pr_Listening = None, pr_Gateway = None\<rparr>"
    by (simp add: p run_def Inl)
  then show ?thesis by (cases e) (simp_all add: Inl start_deferred_def main_def)
next
  case (Inr st)
  obtain S where S: "running_server Ou L gmt st = Inr S" using running_after_startup [OF Inr] by blast
  show ?thesis
    by (cases stop) (auto simp: p run_def Inr S Let_def main_def manager_Close_def)
qed

text \<open>The request of the probe, on any server over any state.\<close>

definition healthz_request :: request where
  "healthz_request = \<lparr>r_Method = ''GET'', r_Path = ''/healthz'', r_Authorization = [], r_Origin = [], r_PathValues = [],
     r_Query = [], r_Body = EmptyBody, r_Principal = None\<rparr>"

lemma healthz_answers: "status (fst (Server_Handler E utl rand open_file mcp S healthz_request g)) = 200"
  by (simp add: Server_Handler_def jsonErrors_status serveMux_def routes_def Let_def healthz_request_def method_ok_def handleHealthz_def)

text \<open>
  What the loopback interface answers while a gateway whose address covers it serves: the gateway on
  its own port, nothing on the others.
\<close>

definition loopback ::
  "'j running \<Rightarrow> (nat \<Rightarrow> env) \<Rightarrow> unicode_lower \<Rightarrow> 'j engine http_handler \<Rightarrow> 'j engine Server \<Rightarrow> 'j engine gateway \<Rightarrow>
   string \<Rightarrow> string \<Rightarrow> nat option" where
  "loopback st E utl mcp S g port path =
     (if Atoi port = Some (ga_Port (ru_Config st))
      then Some (status (fst (Server_Handler E utl None (\<lambda>_ _. None) mcp S (healthz_request\<lparr>r_Path := path\<rparr>) g)))
      else None)"



end
