(* ===== verification/TenantView.thy ===== *)
theory TenantView
  imports Isolation Backfills
begin

text \<open>
  What one tenant can see of the gateway. Two databases, two engines or two gateways are the same to
  a tenant when they agree on everything that belongs to it: its messages, chat names and session, its
  client, the files it can name and its own key, and on what is nobody's: the list of tenants and the map
  of hidden addresses. They may differ in all that belongs to others. Every
  operation that runs for the tenant then answers the same on both and leaves them the same to it.
  Identifiers are random: the ones this run draws are in \<open>vw_IDs\<close>, and no row of another tenant
  carries one of them.
\<close>

section \<open>Databases\<close>

text \<open>Operations that answer alike and leave related states.\<close>

lemma same_result:
  "rel_prod (=) R x y \<Longrightarrow> x = (a, b) \<Longrightarrow> (\<And>b'. y = (a, b') \<Longrightarrow> R b b' \<Longrightarrow> thesis) \<Longrightarrow> thesis"
  by (cases y) simp

lemma same_state: "rel_prod (=) R x y \<Longrightarrow> R (snd x) (snd y)"
  by (simp add: rel_prod_sel)

record view =
  vw_Tenant :: string
  vw_IDs :: "string set"
  vw_Paths :: "string set"
  vw_Digest :: string

definition same_db :: "view \<Rightarrow> db \<Rightarrow> db \<Rightarrow> bool" where
  "same_db V d d' \<longleftrightarrow>
     tenant_view (vw_Tenant V) d d' \<and> tenants d = tenants d' \<and>
     filter (\<lambda>s. s_TenantID s = vw_Tenant V) (sessions d) = filter (\<lambda>s. s_TenantID s = vw_Tenant V) (sessions d') \<and>
     map_option principal_of (live_key d (vw_Digest V)) = map_option principal_of (live_key d' (vw_Digest V)) \<and>
     (\<forall>m\<in>set (messages d) \<union> set (messages d'). m_TenantID m \<noteq> vw_Tenant V \<longrightarrow> m_ID m \<notin> vw_IDs V) \<and>
     (\<forall>m\<in>set (messages d). m_TenantID m = vw_Tenant V \<longrightarrow> set_option (m_MediaPath m) \<subseteq> vw_Paths V)"

lemma live_key_frame_rows: "api_keys d' = api_keys d \<Longrightarrow> live_key d' h = live_key d h"
  by (simp add: live_key_def)

text \<open>A row the tenant may write: its own, under a new identifier, without a path it cannot see.\<close>

definition own_row :: "view \<Rightarrow> Message \<Rightarrow> bool" where
  "own_row V m \<longleftrightarrow> m_TenantID m = vw_Tenant V \<and> m_ID m \<in> vw_IDs V \<and> set_option (m_MediaPath m) \<subseteq> vw_Paths V"

lemma insertMessage_same:
  assumes v: "same_db V d d'" and r: "own_row V m"
  shows "rel_option (rel_prod (=) (same_db V)) (insertMessage m d) (insertMessage m d')"
proof -
  let ?own = "filter (\<lambda>m. m_TenantID m = vw_Tenant V)"
  have eq: "?own (messages d) = ?own (messages d')" and ten: "tenants d = tenants d'"
    using v by (simp_all add: same_db_def tenant_view_def)
  have wa: "list_ex (same_wa_message m) ms = list_ex (same_wa_message m) (?own ms)" for ms
    using r by (induction ms) (auto simp: same_wa_message_def own_row_def)
  have id: "m_ID m \<in> m_ID ` set (messages e) \<longleftrightarrow> m_ID m \<in> m_ID ` set (?own (messages e))"
    if "\<forall>x\<in>set (messages e). m_TenantID x \<noteq> vw_Tenant V \<longrightarrow> m_ID x \<notin> vw_IDs V" for e
    using that r by (force simp: own_row_def)
  have "list_ex (same_wa_message m) (messages d) = list_ex (same_wa_message m) (messages d')"
    by (simp only: wa [of "messages d"] wa [of "messages d'"] eq)
  moreover have "m_ID m \<in> m_ID ` set (messages d) \<longleftrightarrow> m_ID m \<in> m_ID ` set (messages d')"
    using v id [of d] id [of d'] eq by (simp add: same_db_def)
  moreover have "same_db V (d\<lparr>messages := messages d @ [messageArgs m]\<rparr>) (d'\<lparr>messages := messages d' @ [messageArgs m]\<rparr>)"
    using v r live_key_frame_rows [of "d\<lparr>messages := messages d @ [messageArgs m]\<rparr>" d]
      live_key_frame_rows [of "d'\<lparr>messages := messages d' @ [messageArgs m]\<rparr>" d']
    by (auto simp: same_db_def tenant_view_def own_row_def messageArgs_def)
  ultimately show ?thesis using v ten by (simp add: insertMessage_def)
qed

lemma prepareMessage_own:
  assumes "prepareMessage E i m = Inr m'" and "own_row V m" and "\<forall>j. NewID E j \<in> vw_IDs V"
  shows "own_row V m'"
  using assms by (auto simp: prepareMessage_def own_row_def Let_def split: if_splits)

lemma message_Append_same:
  assumes v: "same_db V d d'" and r: "own_row V m" and E: "\<forall>j. NewID E j \<in> vw_IDs V"
  shows "rel_prod (=) (same_db V) (message_Append E m d) (message_Append E m d')"
proof (cases "prepareMessage E 0 m")
  case (Inr m')
  from insertMessage_same [OF v prepareMessage_own [OF Inr r E]] v show ?thesis
    by (auto simp: message_Append_def Inr option_rel_Some1 elim!: option.rel_cases)
qed (use v in \<open>simp add: message_Append_def\<close>)

lemma exec_batch_same:
  assumes "same_db V d d'" and "\<forall>m\<in>set ms. own_row V m"
  shows "rel_sum (=) (rel_prod (=) (same_db V)) (exec_batch E i ms n d) (exec_batch E i ms n d')"
  using assms
proof (induction ms arbitrary: i n d d')
  case (Cons m ms)
  from Cons.prems have "rel_option (rel_prod (=) (same_db V)) (insertMessage m d) (insertMessage m d')"
    by (intro insertMessage_same) simp_all
  then show ?case using Cons.IH Cons.prems(2) by (auto elim!: option.rel_cases)
qed simp

lemma message_AppendBatch_same:
  assumes v: "same_db V d d'" and r: "\<forall>m\<in>set ms. own_row V m" and E: "\<forall>j. NewID E j \<in> vw_IDs V"
  shows "rel_prod (=) (same_db V) (message_AppendBatch E ms d) (message_AppendBatch E ms d')"
proof (cases "prepare_batch E 0 ms")
  case (Inr ps)
  have "\<forall>m\<in>set ps. own_row V m" if "prepare_batch E i ms = Inr ps" for i
    using that r
    by (induction ms arbitrary: i ps) (auto dest: prepareMessage_own [OF _ _ E] split: sum.splits)
  then have "rel_sum (=) (rel_prod (=) (same_db V)) (exec_batch E 3 ps 0 d) (exec_batch E 3 ps 0 d')"
    using exec_batch_same [OF v] Inr by blast
  then show ?thesis using v by (auto simp: message_AppendBatch_def Inr elim!: rel_sum.cases)
qed (use v in \<open>simp add: message_AppendBatch_def\<close>)

text \<open>Updates of the tenant's rows: the same change on both sides.\<close>

lemma filter_own_map:
  "(\<And>r. key (f r) = key r) \<Longrightarrow> filter (\<lambda>r. key r = t) (map f xs) = map f (filter (\<lambda>r. key r = t) xs)"
  by (induction xs) auto

lemma same_db_sessions:
  assumes "same_db V d d'" and "\<And>s. s_TenantID (f s) = s_TenantID s"
  shows "same_db V (d\<lparr>sessions := map f (sessions d)\<rparr>) (d'\<lparr>sessions := map f (sessions d')\<rparr>)"
  using assms(1) live_key_frame_rows [of "d\<lparr>sessions := map f (sessions d)\<rparr>" d]
    live_key_frame_rows [of "d'\<lparr>sessions := map f (sessions d')\<rparr>" d']
  by (simp add: same_db_def tenant_view_def filter_own_map [where key = s_TenantID] assms(2))

lemma same_db_chats:
  assumes "same_db V d d'" and "filter (\<lambda>c. cr_TenantID c = vw_Tenant V) cs = filter (\<lambda>c. cr_TenantID c = vw_Tenant V) cs'"
  shows "same_db V (d\<lparr>chats := cs\<rparr>) (d'\<lparr>chats := cs'\<rparr>)"
  using assms live_key_frame_rows [of "d\<lparr>chats := cs\<rparr>" d] live_key_frame_rows [of "d'\<lparr>chats := cs'\<rparr>" d']
  by (simp add: same_db_def tenant_view_def)

lemma same_db_flag: "same_db V d d' \<Longrightarrow> same_db V (d\<lparr>lidMap := b\<rparr>) (d'\<lparr>lidMap := b\<rparr>)"
  using live_key_frame_rows [of "d\<lparr>lidMap := b\<rparr>" d] live_key_frame_rows [of "d'\<lparr>lidMap := b\<rparr>" d']
  by (simp add: same_db_def tenant_view_def)

lemma session_UpdateStatus_same:
  assumes "same_db V d d'"
  shows "rel_prod (=) (same_db V) (session_UpdateStatus E (vw_Tenant V) st j d) (session_UpdateStatus E (vw_Tenant V) st j d')"
proof -
  have "same_db V (d\<lparr>sessions := map (session_set t st j now) (sessions d)\<rparr>) (d'\<lparr>sessions := map (session_set t st j now) (sessions d')\<rparr>)" for t now
    by (rule same_db_sessions [OF assms]) (simp add: session_set_def)
  moreover have "filter (\<lambda>s. s_TenantID s = vw_Tenant V) (sessions d) = filter (\<lambda>s. s_TenantID s = vw_Tenant V) (sessions d')"
    using assms by (simp add: same_db_def)
  ultimately show ?thesis using assms by (simp add: session_UpdateStatus_def Let_def split: option.split)
qed

lemma find_own: "find (\<lambda>r. key r = t) xs = (case filter (\<lambda>r. key r = t) xs of [] \<Rightarrow> None | r # _ \<Rightarrow> Some r)"
  by (induction xs) auto

lemma session_GetByTenant_same:
  assumes "same_db V d d'"
  shows "session_GetByTenant E (vw_Tenant V) d = session_GetByTenant E (vw_Tenant V) d'"
proof -
  have "find (\<lambda>s. s_TenantID s = vw_Tenant V) (sessions d) = find (\<lambda>s. s_TenantID s = vw_Tenant V) (sessions d')"
    using assms by (simp add: same_db_def find_own [where key = s_TenantID])
  then show ?thesis by (simp add: session_GetByTenant_def)
qed

lemma list_ex_own:
  "list_ex (\<lambda>r. key r = t \<and> P r) xs = list_ex P (filter (\<lambda>r. key r = t) xs)"
  by (induction xs) auto

lemma upsertChat_same:
  assumes v: "same_db V d d'"
  shows "rel_option (same_db V) (upsertChat (vw_Tenant V) c n now d) (upsertChat (vw_Tenant V) c n now d')"
proof -
  have eq: "filter (\<lambda>c. cr_TenantID c = vw_Tenant V) (chats d) = filter (\<lambda>c. cr_TenantID c = vw_Tenant V) (chats d')" "tenants d = tenants d'"
    using v by (simp_all add: same_db_def tenant_view_def)
  then have "list_ex (\<lambda>r. cr_TenantID r = vw_Tenant V \<and> cr_ChatJID r = c) (chats d) =
      list_ex (\<lambda>r. cr_TenantID r = vw_Tenant V \<and> cr_ChatJID r = c) (chats d')"
    by (simp add: list_ex_own)
  moreover have "same_db V (d\<lparr>chats := map (rename_chat t c n now) (chats d)\<rparr>) (d'\<lparr>chats := map (rename_chat t c n now) (chats d')\<rparr>)" for t
    by (rule same_db_chats [OF v]) (simp add: filter_own_map [where key = cr_TenantID] rename_chat_def eq)
  moreover have "same_db V (d\<lparr>chats := chats d @ [r]\<rparr>) (d'\<lparr>chats := chats d' @ [r]\<rparr>)" for r
    by (rule same_db_chats [OF v]) (simp add: eq)
  ultimately show ?thesis by (simp add: upsertChat_def eq)
qed

lemma chat_Upsert_same:
  assumes "same_db V d d'"
  shows "rel_prod (=) (same_db V) (chat_Upsert E (vw_Tenant V) c d) (chat_Upsert E (vw_Tenant V) c d')"
  using upsertChat_same [OF assms, of "n_ChatJID c" "TrimSpace (n_Name c)" "nowAt E 0"] assms
  by (auto simp: chat_Upsert_def Let_def elim!: option.rel_cases)

lemma chat_Search_same:
  assumes "same_db V d d'"
  shows "chat_Search E (vw_Tenant V) q n d = chat_Search E (vw_Tenant V) q n d'"
proof -
  have "filter (\<lambda>r. cr_TenantID r = vw_Tenant V \<and> P r) (chats d) = filter (\<lambda>r. cr_TenantID r = vw_Tenant V \<and> P r) (chats d')" for P
    using assms unfolding same_db_def tenant_view_def by (metis (no_types, lifting) filter_cong filter_filter)
  then show ?thesis by (simp add: chat_Search_def)
qed

lemma message_UpdateMedia_same:
  assumes v: "same_db V d d'" and u: "set_option (mu_Path upd) \<subseteq> vw_Paths V"
  shows "rel_prod (=) (same_db V) (message_UpdateMedia E (vw_Tenant V) i upd d) (message_UpdateMedia E (vw_Tenant V) i upd d')"
proof -
  define f where "f u r = (if m_TenantID r = vw_Tenant V \<and> m_ID r = i then set_media u r else r)" for u r
  have k: "m_TenantID (f u r) = m_TenantID r" "m_ID (f u r) = m_ID r" for u r by (simp_all add: f_def set_media_def)
  have eq: "filter (\<lambda>m. m_TenantID m = vw_Tenant V) (messages d) = filter (\<lambda>m. m_TenantID m = vw_Tenant V) (messages d')"
    using v by (simp add: same_db_def tenant_view_def)
  have "same_db V (d\<lparr>messages := map (f u) (messages d)\<rparr>) (d'\<lparr>messages := map (f u) (messages d')\<rparr>)"
    if "mu_Path u = mu_Path upd" for u
  proof -
    have "set_option (m_MediaPath (f u m)) \<subseteq> vw_Paths V" if "m \<in> set (messages d)" "m_TenantID m = vw_Tenant V" for m
      using v that \<open>mu_Path u = mu_Path upd\<close> u by (auto simp: same_db_def f_def set_media_def split: option.splits)
    then show ?thesis
      using v live_key_frame_rows [of "d\<lparr>messages := map (f u) (messages d)\<rparr>" d]
        live_key_frame_rows [of "d'\<lparr>messages := map (f u) (messages d')\<rparr>" d']
      by (auto simp: same_db_def tenant_view_def filter_own_map [where key = m_TenantID] k)
  qed
  moreover have "filter (\<lambda>r. m_TenantID r = vw_Tenant V \<and> m_ID r = i) (messages d) =
      filter (\<lambda>r. m_TenantID r = vw_Tenant V \<and> m_ID r = i) (messages d')"
    by (simp only: filter_tenant_conj eq)
  ultimately show ?thesis using v by (simp add: message_UpdateMedia_def Let_def f_def [abs_def] split: if_split)
qed

section \<open>Reading and authenticating\<close>

lemma lidMapReady_same:
  assumes "same_db V d d'"
  shows "same_db V (snd (lidMapReady E d)) (snd (lidMapReady E d'))"
  using assms same_db_flag [OF assms, of True]
  by (simp add: lidMapReady_def tableExists_def same_db_def tenant_view_def split: sum.split)

lemma chatAliases_snd_ready:
  "snd (chatAliases E a d) = (if splitAddress (nonADAddress a) = None then d else snd (lidMapReady E d))"
  by (auto simp: chatAliases_def Let_def case_prod_beta split: option.split)

lemma reads_same:
  assumes v: "same_db V d d'"
  shows "rel_prod (=) (same_db V) (message_ListByChat E (vw_Tenant V) a n d) (message_ListByChat E (vw_Tenant V) a n d')"
    and "rel_prod (=) (same_db V) (message_ListChats E (vw_Tenant V) n d) (message_ListChats E (vw_Tenant V) n d')"
    and "rel_prod (=) (same_db V) (message_OldestByChat E (vw_Tenant V) a d) (message_OldestByChat E (vw_Tenant V) a d')"
    and "rel_prod (=) (same_db V) (message_SearchChats E (vw_Tenant V) q n d) (message_SearchChats E (vw_Tenant V) q n d')"
    and "message_GetByID E (vw_Tenant V) i d = message_GetByID E (vw_Tenant V) i d'"
proof -
  have tv: "tenant_view (vw_Tenant V) d d'" using v by (simp add: same_db_def)
  note eq = reads_isolated [OF tv]
  have "same_db V (snd (chatAliases E a d)) (snd (chatAliases E a d'))" for a
    using lidMapReady_same [OF v, of E] v by (simp add: chatAliases_snd_ready)
  then show "rel_prod (=) (same_db V) (message_ListByChat E (vw_Tenant V) a n d) (message_ListByChat E (vw_Tenant V) a n d')"
    "rel_prod (=) (same_db V) (message_OldestByChat E (vw_Tenant V) a d) (message_OldestByChat E (vw_Tenant V) a d')"
    using eq(1,2) by (simp_all add: rel_prod_sel message_ListByChat_snd message_OldestByChat_snd)
  show "rel_prod (=) (same_db V) (message_ListChats E (vw_Tenant V) n d) (message_ListChats E (vw_Tenant V) n d')"
    using eq(4) lidMapReady_same [OF v] by (simp add: rel_prod_sel message_ListChats_def Let_def case_prod_beta)
  show "rel_prod (=) (same_db V) (message_SearchChats E (vw_Tenant V) q n d) (message_SearchChats E (vw_Tenant V) q n d')"
    using eq(3) lidMapReady_same [OF v] v by (simp add: rel_prod_sel message_SearchChats_def Let_def case_prod_beta)
  show "message_GetByID E (vw_Tenant V) i d = message_GetByID E (vw_Tenant V) i d'" by (rule eq(6))
qed

lemma apikey_MarkUsed_same:
  assumes v: "same_db V d d'"
  shows "rel_prod (=) (same_db V) (apikey_MarkUsed E i d) (apikey_MarkUsed E i d')"
proof -
  obtain e1 d1 e2 d2 where u: "apikey_MarkUsed E i d = (e1, d1)" "apikey_MarkUsed E i d' = (e2, d2)" by fastforce
  have "map_option principal_of (live_key d1 (vw_Digest V)) = map_option principal_of (live_key d2 (vw_Digest V))"
    using live_principal_MarkUsed [OF u(1)] live_principal_MarkUsed [OF u(2)] v by (simp add: same_db_def)
  then show ?thesis using u v by (auto simp: apikey_MarkUsed_def same_db_def tenant_view_def split: if_splits)
qed

lemma resolver_ResolveKeyHash_same:
  assumes "same_db V (gw_db g) (gw_db g')"
  shows "resolver_ResolveKeyHash E (vw_Digest V) g = resolver_ResolveKeyHash E (vw_Digest V) g'"
  using assms
  by (auto simp: same_db_def resolver_ResolveKeyHash_def apikey_GetByHash_def live_key_def split: if_splits option.splits)

section \<open>The registry of history requests\<close>

text \<open>
  A request of the tenant that waits on both sides, under one key and on a channel each; the numbers of
  the channels may differ, because others ask for history too.
\<close>

definition same_wait :: "string \<times> nat \<times> nat \<Rightarrow> pendingHistory \<Rightarrow> pendingHistory \<Rightarrow> bool" where
  "same_wait w p p' \<longleftrightarrow>
     (case w of (k, ch, ch') \<Rightarrow>
        ((k, ch) \<in> set (waiters p) \<longleftrightarrow> (k, ch') \<in> set (waiters p')) \<and> buf p ch = buf p' ch' \<and>
        (\<forall>k'. (k', ch) \<in> set (waiters p) \<longrightarrow> k' = k) \<and> (\<forall>k'. (k', ch') \<in> set (waiters p') \<longrightarrow> k' = k) \<and>
        ch \<notin> set (released p) \<and> ch' \<notin> set (released p') \<and> ch < nextCh p \<and> ch' < nextCh p')"

definition registry_ok :: "pendingHistory \<Rightarrow> bool" where
  "registry_ok p \<longleftrightarrow> pending_ok p \<and> (\<forall>ch\<in>set (released p). ch < nextCh p)"

definition same_registry :: "view \<Rightarrow> (string \<times> nat \<times> nat) set \<Rightarrow> pendingHistory \<Rightarrow> pendingHistory \<Rightarrow> bool" where
  "same_registry V W p p' \<longleftrightarrow>
     registry_ok p \<and> registry_ok p' \<and>
     (\<forall>c. map_of (waiters p) (historyKey (vw_Tenant V) c) = None \<longleftrightarrow> map_of (waiters p') (historyKey (vw_Tenant V) c) = None) \<and>
     (\<forall>w\<in>W. same_wait w p p')"

lemma deliver_Some:
  assumes "registry_ok p" and "map_of (waiters p) key = Some ch"
  shows "\<exists>p1. deliver key d p = Some (True, p1) \<and> registry_ok p1 \<and> waiters p1 = delete_key key (waiters p) \<and>
    buf p1 = (buf p)(ch := buf p ch @ [d]) \<and> nextCh p1 = nextCh p \<and> released p1 = released p"
proof -
  obtain b p1 where "deliver key d p = Some (b, p1)" "pending_ok p1"
    using deliver_total [of p key d] assms(1) by (auto simp: registry_ok_def)
  moreover from this have "b \<and> waiters p1 = delete_key key (waiters p) \<and> buf p1 = (buf p)(ch := buf p ch @ [d]) \<and>
      nextCh p1 = nextCh p \<and> released p1 = released p"
    using assms(2) by (auto simp: deliver_def deliver_take_def deliver_send_def split: if_splits)
  ultimately show ?thesis using assms(1) by (auto simp: registry_ok_def)
qed

lemma map_of_delete_other: "map_of (delete_key key ws) k = (if k = key then None else map_of ws k)"
  by (induction ws) (auto simp: delete_key_def)

lemma deliver_same:
  assumes s: "same_registry V W p p'" and key: "key = historyKey (vw_Tenant V) c"
  shows "rel_option (rel_prod (=) (same_registry V W)) (deliver key d p) (deliver key d p')"
proof (cases "map_of (waiters p) key")
  case None
  then have "map_of (waiters p') key = None" using s key by (simp add: same_registry_def)
  with None s show ?thesis by (simp add: deliver_def)
next
  case (Some ch)
  then obtain ch' where Some': "map_of (waiters p') key = Some ch'"
    using s key by (auto simp: same_registry_def) (metis not_None_eq)
  have ok: "registry_ok p" "registry_ok p'" using s by (simp_all add: same_registry_def)
  obtain q where q: "deliver key d p = Some (True, q)" "registry_ok q" "waiters q = delete_key key (waiters p)"
    "buf q = (buf p)(ch := buf p ch @ [d])" "nextCh q = nextCh p" "released q = released p"
    using deliver_Some [OF ok(1) Some] by blast
  obtain q' where q': "deliver key d p' = Some (True, q')" "registry_ok q'" "waiters q' = delete_key key (waiters p')"
    "buf q' = (buf p')(ch' := buf p' ch' @ [d])" "nextCh q' = nextCh p'" "released q' = released p'"
    using deliver_Some [OF ok(2) Some'] by blast
  have here: "(key, x) \<in> set (waiters p) \<longleftrightarrow> x = ch" "(key, x) \<in> set (waiters p') \<longleftrightarrow> x = ch'" for x
    using map_of_waiter [of p key x] map_of_waiter [of p' key x] ok Some Some' by (auto simp: registry_ok_def)
  have "same_wait w q q'" if "w \<in> W" for w
  proof -
    obtain k a a' where w: "w = (k, a, a')" by (cases w)
    then have sw: "same_wait (k, a, a') p p'" using s that by (simp add: same_registry_def)
    have "a = ch \<longleftrightarrow> a' = ch'"
      using sw here by (auto simp: same_wait_def)
    then show ?thesis using sw by (auto simp: w same_wait_def q q' delete_key_def)
  qed
  then show ?thesis
    using s q q' by (auto simp: same_registry_def map_of_delete_other)
qed

text \<open>A request enters the registry on both sides or on neither, and leaves both alike.\<close>

lemma registry_ok_next:
  assumes "registry_ok p"
  shows "buf p (nextCh p) = []" "nextCh p \<notin> set (released p)" "nextCh p \<notin> snd ` set (waiters p)"
proof -
  have "\<forall>ch. tokens p ch \<le> (if ch < nextCh p then 1 else 0)" using assms by (simp add: registry_ok_def pending_ok_def)
  then have "tokens p (nextCh p) \<le> 0" by (metis less_irrefl)
  then show "buf p (nextCh p) = []" "nextCh p \<notin> snd ` set (waiters p)" by (simp_all add: tokens_def count_list_0_iff)
  show "nextCh p \<notin> set (released p)" using assms by (auto simp: registry_ok_def)
qed

lemma registry_ok_register: "register key p = (r, p') \<Longrightarrow> registry_ok p \<Longrightarrow> registry_ok p'"
  using pending_ok_register [of key p r p'] by (auto simp: registry_ok_def register_def less_Suc_eq split: if_splits)

lemma register_same:
  assumes s: "same_registry V {} p p'" and key: "key = historyKey (vw_Tenant V) c"
  shows "(register key p = (Inl ErrSyncInProgress, p) \<and> register key p' = (Inl ErrSyncInProgress, p')) \<or>
    (\<exists>q q'. register key p = (Inr (nextCh p), q) \<and> register key p' = (Inr (nextCh p'), q') \<and>
       same_registry V {(key, nextCh p, nextCh p')} q q')"
proof (cases "map_of (waiters p) key")
  case None
  have None': "map_of (waiters p') key = None" using None s key by (simp add: same_registry_def)
  have ok: "registry_ok p" "registry_ok p'" using s by (simp_all add: same_registry_def)
  obtain q q' where q: "register key p = (Inr (nextCh p), q)" "register key p' = (Inr (nextCh p'), q')"
    "q = p\<lparr>waiters := (key, nextCh p) # waiters p, nextCh := Suc (nextCh p)\<rparr>"
    "q' = p'\<lparr>waiters := (key, nextCh p') # waiters p', nextCh := Suc (nextCh p')\<rparr>"
    by (simp add: register_def None None')
  have "same_wait (key, nextCh p, nextCh p') q q'"
    using registry_ok_next [OF ok(1)] registry_ok_next [OF ok(2)] by (force simp: same_wait_def q)
  moreover have "registry_ok q" "registry_ok q'" using registry_ok_register q(1,2) ok by blast+
  ultimately have "same_registry V {(key, nextCh p, nextCh p')} q q'" using s by (simp add: same_registry_def q)
  with q(1,2) show ?thesis by blast
next
  case (Some ch)
  then have "map_of (waiters p') key \<noteq> None" using s unfolding same_registry_def key by (metis option.distinct(1))
  with Some show ?thesis by (simp add: register_def)
qed

lemma registry_ok_release: "registry_ok p \<Longrightarrow> ch < nextCh p \<Longrightarrow> registry_ok (release key ch p)"
  using pending_ok_release [of p key ch] by (auto simp: registry_ok_def release_def Let_def)

lemma map_of_release: "map_of (waiters (release key ch p)) k =
    (if ch \<notin> set (released p) \<and> k = key \<and> map_of (waiters p) key = Some ch then None else map_of (waiters p) k)"
  by (auto simp: release_def Let_def map_of_delete_other)

lemma release_same:
  assumes s: "same_registry V {(key, ch, ch')} p p'"
  shows "same_registry V {} (release key ch p) (release key ch' p')"
proof -
  have w: "same_wait (key, ch, ch') p p'" and ok: "registry_ok p" "registry_ok p'"
    using s by (simp_all add: same_registry_def)
  have "map_of (waiters p) key = Some ch \<longleftrightarrow> map_of (waiters p') key = Some ch'"
    using w ok map_of_waiter [of p key ch] map_of_waiter [of p' key ch'] by (simp add: same_wait_def registry_ok_def)
  then show ?thesis
    using s w registry_ok_release [OF ok(1)] registry_ok_release [OF ok(2)]
    by (simp add: same_registry_def same_wait_def map_of_release)
qed

lemma receive_same:
  assumes s: "same_registry V {(key, ch, ch')} p p'"
  shows "rel_option (rel_prod (=) (same_registry V {(key, ch, ch')})) (receive ch p) (receive ch' p')"
proof -
  have w: "same_wait (key, ch, ch') p p'" and ok: "registry_ok p" "registry_ok p'"
    using s by (simp_all add: same_registry_def)
  have keep: "registry_ok q" if "receive c r = Some (d, q)" "registry_ok r" for c r d q
    using pending_ok_receive [OF that(1)] that by (auto simp: registry_ok_def receive_def split: list.splits)
  show ?thesis
  proof (cases "receive ch p")
    case None
    then have "buf p ch = []" by (simp add: receive_def split: list.splits)
    moreover from this have "buf p' ch' = []" using w by (simp add: same_wait_def)
    ultimately show ?thesis by (simp add: receive_def)
  next
    case (Some x)
    then obtain d ds where b: "buf p ch = d # ds" and x: "x = (d, p\<lparr>buf := (buf p)(ch := ds), received := ch # received p\<rparr>)"
      by (auto simp: receive_def split: list.splits)
    let ?q = "p\<lparr>buf := (buf p)(ch := ds), received := ch # received p\<rparr>"
      and ?q' = "p'\<lparr>buf := (buf p')(ch' := ds), received := ch' # received p'\<rparr>"
    have "buf p' ch' = d # ds" using b w by (simp add: same_wait_def)
    then have q': "receive ch' p' = Some (d, ?q')" by (simp add: receive_def)
    have "same_wait (key, ch, ch') ?q ?q'" using w by (simp add: same_wait_def)
    then show ?thesis using s keep [OF Some [unfolded x] ok(1)] keep [OF q' ok(2)] by (simp add: Some x q' same_registry_def)
  qed
qed

end
