(* ===== verification/EngineView.thy ===== *)
theory EngineView
  imports TenantView
begin

text \<open>
  The WhatsApp engine in the view of one tenant: every event of the tenant's client and every call for
  the tenant runs alike on two engines that are the same to it.
\<close>

section \<open>Managers\<close>

definition same_manager :: "view \<Rightarrow> (string \<times> nat \<times> nat) set \<Rightarrow> 'j manager \<Rightarrow> 'j manager \<Rightarrow> bool" where
  "same_manager V W m m' \<longleftrightarrow>
     same_db V (mg_db m) (mg_db m') \<and> same_registry V W (mg_pending m) (mg_pending m') \<and>
     mg_clients m (vw_Tenant V) = mg_clients m' (vw_Tenant V) \<and> mg_scope m = mg_scope m'"

definition fresh_ids :: "view \<Rightarrow> env \<Rightarrow> bool" where
  "fresh_ids V E \<longleftrightarrow> (\<forall>j. NewID E j \<in> vw_IDs V)"

lemma same_manager_reads:
  assumes "same_manager V W m m'"
  shows "lidsFor (vw_Tenant V) m' = lidsFor (vw_Tenant V) m" and "ownJID L (vw_Tenant V) m' = ownJID L (vw_Tenant V) m"
    and "mg_clients m' (vw_Tenant V) = mg_clients m (vw_Tenant V)" and "mg_scope m' = mg_scope m"
    and "same_db V (mg_db m) (mg_db m')"
  using assms by (simp_all add: same_manager_def lidsFor_def ownJID_def)

lemma same_manager_db:
  "same_manager V W m m' \<Longrightarrow> same_db V d d' \<Longrightarrow> same_manager V W (m\<lparr>mg_db := d\<rparr>) (m'\<lparr>mg_db := d'\<rparr>)"
  by (simp add: same_manager_def)

lemma same_manager_count [simp]:
  "same_manager V W m m' \<Longrightarrow> same_manager V W (countUnresolved a b m) (countUnresolved a b m')"
  by (simp add: same_manager_def countUnresolved_def Let_def)

lemma canonicaliseSenders_same:
  "same_manager V W m m' \<Longrightarrow>
   rel_prod (=) (same_manager V W) (canonicaliseSenders L lids rs m) (canonicaliseSenders L lids rs m')"
proof (induction rs arbitrary: m m')
  case (Cons r rs)
  show ?case
    using Cons.IH [OF Cons.prems] Cons.IH [OF same_manager_count [OF Cons.prems]]
    by (auto simp: Let_def case_prod_beta rel_prod_sel split: option.split)
qed simp

lemma canonicaliseSenders_own:
  "\<forall>r\<in>set rs. own_row V r \<Longrightarrow> \<forall>r\<in>set (fst (canonicaliseSenders L lids rs m)). own_row V r"
proof (induction rs arbitrary: m)
  case (Cons r rs)
  have rest: "\<forall>r\<in>set (fst (canonicaliseSenders L lids rs m1)). own_row V r" for m1 using Cons by simp
  have "own_row V (r\<lparr>m_SenderJID := j\<rparr>)" for j using Cons.prems by (simp add: own_row_def)
  with rest Cons.prems show ?case by (simp add: Let_def case_prod_beta split: option.split)
qed simp

lemma historyRecords_own:
  assumes "fresh_ids V E"
  shows "\<forall>r\<in>set (historyRecords E L gmt (vw_Tenant V) own chat dec es). own_row V r"
proof
  fix r assume r: "r \<in> set (historyRecords E L gmt (vw_Tenant V) own chat dec es)"
  then have "r \<in> set (historyLoop E 0 L gmt (vw_Tenant V) own chat es)" by (rule subsetD [OF historyRecords_subset])
  then obtain j entry where "historyRecord E j L gmt (vw_Tenant V) own chat entry = Some r"
    using historyLoop_rows by fastforce
  then have "m_ID r = NewID E j"
    by (auto simp: historyRecord_def applyMediaReference_keeps Let_def split: option.splits if_splits)
  then show "own_row V r" using historyRecords_row [OF r] assms by (simp add: own_row_def fresh_ids_def)
qed

lemma liveRecord_own:
  "fresh_ids V E \<Longrightarrow> own_row V (liveRecord E L gmt (vw_Tenant V) e chat sender)"
  by (auto simp: liveRecord_def Let_def own_row_def fresh_ids_def applyMediaReference_keeps emptyMessage_def)

section \<open>Events\<close>

lemma persistMessage_same:
  assumes s: "same_manager V W m m'" and E: "fresh_ids V (E 0)" "fresh_ids V (E 1)"
  shows "same_manager V W (persistMessage E L gmt (vw_Tenant V) e m) (persistMessage E L gmt (vw_Tenant V) e m')"
proof -
  have "same_manager V W (m1\<lparr>mg_db := snd (message_Append (E 1) (liveRecord (E 0) L gmt (vw_Tenant V) e chat sender) (mg_db m1))\<rparr>)
      (m1'\<lparr>mg_db := snd (message_Append (E 1) (liveRecord (E 0) L gmt (vw_Tenant V) e chat sender) (mg_db m1'))\<rparr>)"
    if "same_manager V W m1 m1'" for m1 m1' chat sender
    by (intro same_manager_db [OF that] same_state [OF message_Append_same] same_manager_reads(5) [OF that] liveRecord_own E(1))
       (use E(2) in \<open>simp add: fresh_ids_def\<close>)
  from this [OF same_manager_count [OF s]] show ?thesis
    unfolding persistMessage_def Let_def case_prod_beta same_manager_reads(1) [OF s] .
qed

lemma deliverOnDemand_same:
  assumes s: "same_manager V W m m'"
  shows "rel_option (same_manager V W) (deliverOnDemand E L (vw_Tenant V) chat i n m) (deliverOnDemand E L (vw_Tenant V) chat i n m')"
proof -
  obtain f d where o: "message_OldestByChat E (vw_Tenant V) (jString L chat) (mg_db m) = (f, d)" by fastforce
  obtain d' where o': "message_OldestByChat E (vw_Tenant V) (jString L chat) (mg_db m') = (f, d')" "same_db V d d'"
    by (rule same_result [OF reads_same(3) [OF same_manager_reads(5) [OF s]] o])
  have reg: "same_registry V W (mg_pending m) (mg_pending m')" using s by (simp add: same_manager_def)
  let ?del = "\<lparr>hd_Inserted = i, hd_Delivered = n, hd_Oldest = (case f of Inl _ \<Rightarrow> 0 | Inr x \<Rightarrow> m_Timestamp x)\<rparr>"
  have "rel_option (rel_prod (=) (same_registry V W)) (deliver (historyKey (vw_Tenant V) (jString L chat)) ?del (mg_pending m))
      (deliver (historyKey (vw_Tenant V) (jString L chat)) ?del (mg_pending m'))"
    by (rule deliver_same [OF reg refl])
  then show ?thesis
    using s o'(2) by cases (auto simp: deliverOnDemand_def o o' Let_def same_manager_def)
qed

lemma persistConversation_same:
  assumes s: "same_manager V W m m'" and E: "\<forall>i. fresh_ids V (E i)"
  shows "rel_option (same_manager V W) (persistConversation E L gmt (vw_Tenant V) od conv m)
    (persistConversation E L gmt (vw_Tenant V) od conv m')"
proof (cases "ParseJID L (fst conv)")
  case (Some raw)
  let ?t = "vw_Tenant V"
  obtain chat ok where c: "canonicalJID L (lidsFor ?t m) raw (EmptyJID L) = (chat, ok)" by fastforce
  define rs where "rs = historyRecords (E 0) L gmt ?t (ownJID L ?t m) chat (historyDecisionFor L (mg_scope m) chat) (snd conv)"
  obtain rs' m2 where k: "canonicaliseSenders L (lidsFor ?t m) rs (countUnresolved ok True m) = (rs', m2)" by fastforce
  obtain m2' where k': "canonicaliseSenders L (lidsFor ?t m) rs (countUnresolved ok True m') = (rs', m2')" "same_manager V W m2 m2'"
    by (rule same_result [OF canonicaliseSenders_same [OF same_manager_count [OF s]] k])
  have own: "\<forall>r\<in>set rs'. own_row V r"
    using canonicaliseSenders_own [OF historyRecords_own [of V "E 0"]] E k by (metis fst_conv rs_def)
  obtain r d where b: "message_AppendBatch (E 1) rs' (mg_db m2) = (r, d)" by fastforce
  have E1: "\<forall>j. NewID (E 1) j \<in> vw_IDs V" using E by (simp add: fresh_ids_def)
  obtain d' where b': "message_AppendBatch (E 1) rs' (mg_db m2') = (r, d')" "same_db V d d'"
    by (rule same_result [OF message_AppendBatch_same [OF same_manager_reads(5) [OF k'(2)] own E1] b])
  note eqs = same_manager_reads [OF s]
  have "persistConversation E L gmt ?t od conv m' =
      (if jUser L raw = [] then Some m' else if rs = [] then Some (countUnresolved ok True m')
       else case r of Inl _ \<Rightarrow> Some (m2'\<lparr>mg_db := d'\<rparr>)
         | Inr added \<Rightarrow> if od then deliverOnDemand (E 2) L ?t chat added (length rs') (m2'\<lparr>mg_db := d'\<rparr>)
             else Some (m2'\<lparr>mg_db := d'\<rparr>))"
    using k'(1) b'(1) by (intro persistConversation_eq [OF Some]) (simp_all only: eqs c rs_def)
  moreover note persistConversation_eq [OF Some c rs_def k b, of od]
  moreover note new = same_manager_db [OF k'(2) b'(2)]
  ultimately show ?thesis using s new deliverOnDemand_same [OF new] by (simp split: sum.split)
qed (use s in \<open>simp add: persistConversation_def\<close>)

lemma persistConversations_same:
  "same_manager V W m m' \<Longrightarrow> \<forall>i j. fresh_ids V (E i j) \<Longrightarrow>
   rel_option (same_manager V W) (persistConversations E i L gmt (vw_Tenant V) od cs m)
     (persistConversations E i L gmt (vw_Tenant V) od cs m')"
proof (induction cs arbitrary: i m m')
  case (Cons c cs)
  from persistConversation_same [OF Cons.prems(1), of "E i" L gmt od c] Cons show ?case
    by (auto elim!: option.rel_cases)
qed simp

lemma handleEvent_same:
  assumes s: "same_manager V W m m'" and E: "\<forall>i j. fresh_ids V (E i j)"
  shows "rel_option (rel_prod (same_manager V W) (=)) (handleEvent E L gmt (vw_Tenant V) evt m) (handleEvent E L gmt (vw_Tenant V) evt m')"
proof -
  have u: "same_manager V W (updateStatus E' (vw_Tenant V) st j m) (updateStatus E' (vw_Tenant V) st j m')" for E' st j
    unfolding updateStatus_def by (intro same_manager_db [OF s] same_state [OF session_UpdateStatus_same] same_manager_reads(5) [OF s])
  have g: "same_manager V W (rememberGroupName E' L (vw_Tenant V) jid n m) (rememberGroupName E' L (vw_Tenant V) jid n m')" for E' jid n
    unfolding rememberGroupName_def by (intro same_manager_db [OF s] same_state [OF chat_Upsert_same] same_manager_reads(5) [OF s])
  have h: "rel_option (rel_prod (same_manager V W) (=)) (map_option (\<lambda>m'. (m', False)) (persistHistorySync E L gmt (vw_Tenant V) data m))
      (map_option (\<lambda>m'. (m', False)) (persistHistorySync E L gmt (vw_Tenant V) data m'))" for data
    using persistConversations_same [OF s E] s by (simp add: persistHistorySync_def option.rel_map split: option.split)
  show ?thesis
    using s u g h persistMessage_same [OF s, of "E 0"] E
    by (simp add: handleEvent_def Let_def same_manager_reads(3) [OF s] split: event.split option.split)
qed

lemma handle_events_same:
  assumes "same_manager V W m m'" and "\<forall>(E, t, evt)\<in>set es. t = vw_Tenant V \<and> (\<forall>i j. fresh_ids V (E i j))"
  shows "same_manager V W (handle_events L gmt es m) (handle_events L gmt es m')"
  using assms
proof (induction es arbitrary: m m')
  case (Cons e es)
  obtain E t evt where e: "e = (E, t, evt)" by (cases e)
  then have "rel_option (rel_prod (same_manager V W) (=)) (handleEvent E L gmt t evt m) (handleEvent E L gmt t evt m')"
    using handleEvent_same [OF Cons.prems(1)] Cons.prems(2) by simp
  then show ?case using Cons by (auto simp: e rel_prod_sel elim!: option.rel_cases)
qed simp

section \<open>Calls\<close>

lemma SendText_same:
  assumes s: "same_manager V W m m'"
  shows "rel_prod (=) (same_manager V W) (SendText now L reply (vw_Tenant V) to body m) (SendText now L reply (vw_Tenant V) to body m')"
proof -
  have "ownJID L (vw_Tenant V) (countUnresolved a b m) = ownJID L (vw_Tenant V) (countUnresolved a b m')" for a b
    using same_manager_reads(2) [OF same_manager_count [OF s]] by metis
  then show ?thesis
    using s same_manager_count [OF s]
    by (simp add: SendText_def Let_def same_manager_reads(1,3) [OF s] split: option.split sum.split)
qed

lemma markStored_same:
  "same_db V d d' \<Longrightarrow> rel_prod (=) (same_db V) (markStored E i (vw_Tenant V) cs d) (markStored E i (vw_Tenant V) cs d')"
proof (induction cs arbitrary: i d d')
  case (Cons c cs)
  obtain r d1 where l: "message_ListByChat (E i) (vw_Tenant V) (ct_JID c) 1 d = (r, d1)" by fastforce
  obtain d1' where l': "message_ListByChat (E i) (vw_Tenant V) (ct_JID c) 1 d' = (r, d1')" "same_db V d1 d1'"
    by (rule same_result [OF reads_same(1) [OF Cons.prems] l])
  obtain x d2 where n: "markStored E (Suc i) (vw_Tenant V) cs d1 = (x, d2)" by fastforce
  obtain d2' where n': "markStored E (Suc i) (vw_Tenant V) cs d1' = (x, d2')" "same_db V d2 d2'"
    by (rule same_result [OF Cons.IH [OF l'(2)] n])
  show ?case using l'(2) n'(2) by (simp add: l l'(1) n n'(1) split: sum.split)
qed simp

lemma FindContacts_same:
  assumes s: "same_manager V W m m'"
  shows "rel_prod (=) (same_manager V W) (FindContacts E L utl book ask (vw_Tenant V) q m) (FindContacts E L utl book ask (vw_Tenant V) q m')"
proof -
  obtain r d where l: "message_SearchChats (E 0) (vw_Tenant V) (TrimSpace q) maxContactResults (mg_db m) = (r, d)" by fastforce
  obtain d' where l': "message_SearchChats (E 0) (vw_Tenant V) (TrimSpace q) maxContactResults (mg_db m') = (r, d')" "same_db V d d'"
    by (rule same_result [OF reads_same(4) [OF same_manager_reads(5) [OF s]] l])
  have marks: "rel_prod (=) (same_manager V W) (case markStored E 2 (vw_Tenant V) out d of (x, d2) \<Rightarrow> (x, m\<lparr>mg_db := d2\<rparr>))
      (case markStored E 2 (vw_Tenant V) out d' of (x, d2) \<Rightarrow> (x, m'\<lparr>mg_db := d2\<rparr>))" for out
    using markStored_same [OF l'(2), of E 2 out] by (auto simp: rel_prod_sel case_prod_beta same_manager_db [OF s])
  show ?thesis
    using s marks same_manager_db [OF s l'(2)]
    by (simp add: FindContacts_def Let_def l l'(1) same_manager_reads(3) [OF s] chat_Search_same [OF l'(2)] split: option.split sum.split)
qed

lemma manager_Status_same:
  assumes "same_manager V W m m'"
  shows "manager_Status E (vw_Tenant V) m = manager_Status E (vw_Tenant V) m'"
  unfolding manager_Status_def session_GetByTenant_same [OF same_manager_reads(5) [OF assms]] same_manager_reads(3) [OF assms] ..

section \<open>History\<close>

lemma same_manager_pending:
  "same_manager V W m m' \<Longrightarrow> same_registry V W' p p' \<Longrightarrow>
   same_manager V W' (m\<lparr>mg_pending := p\<rparr>) (m'\<lparr>mg_pending := p'\<rparr>)"
  by (simp add: same_manager_def)

lemma same_manager_registry: "same_manager V W m m' \<Longrightarrow> same_registry V W (mg_pending m) (mg_pending m')"
  by (simp add: same_manager_def)

text \<open>A request is refused alike, or waits on both sides.\<close>

lemma SyncHistory_start_same:
  fixes E :: env and L :: "'j jid_lib" and sent :: "'j history_request \<Rightarrow> bool" and chat :: string and count :: int
  assumes s: "same_manager V {} m m'"
  defines "start \<equiv> SyncHistory_start E L sent (vw_Tenant V) chat count"
  shows "(\<exists>e m1 m1'. start m = (Inl e, m1) \<and> start m' = (Inl e, m1') \<and> same_manager V {} m1 m1') \<or>
    (\<exists>key ch ch' c n m1 m1'. start m = (Inr \<lparr>wt_Key = key, wt_Channel = ch, wt_Chat = c, wt_Count = n\<rparr>, m1) \<and>
       start m' = (Inr \<lparr>wt_Key = key, wt_Channel = ch', wt_Chat = c, wt_Count = n\<rparr>, m1') \<and> same_manager V {(key, ch, ch')} m1 m1')"
proof (cases "\<exists>cl jid. mg_clients m (vw_Tenant V) = Some cl \<and> cl_LoggedIn cl \<and> parseJID L chat = Inr jid")
  case False
  then show ?thesis
    using s by (auto simp: start_def SyncHistory_start_def same_manager_reads(3) [OF s] split: option.split sum.split)
next
  case True
  then obtain cl jid where ready: "mg_clients m (vw_Tenant V) = Some cl" "cl_LoggedIn cl" "parseJID L chat = Inr jid" by blast
  define c where "c = jString L (fst (canonicalJID L (lidsFor (vw_Tenant V) m) jid (EmptyJID L)))"
  obtain r d where o: "message_OldestByChat E (vw_Tenant V) c (mg_db m) = (r, d)" by fastforce
  obtain d' where o': "message_OldestByChat E (vw_Tenant V) c (mg_db m') = (r, d')" "same_db V d d'"
    by (rule same_result [OF reads_same(3) [OF same_manager_reads(5) [OF s]] o])
  let ?key = "historyKey (vw_Tenant V) c"
  note new = same_manager_db [OF s o'(2)]
  note eqs = start_def SyncHistory_start_def Let_def ready o o'(1) same_manager_reads(1,3) [OF s]
  show ?thesis
  proof (cases r)
    case (Inl e)
    then show ?thesis using new by (cases e) (auto simp: eqs simp flip: c_def)
  next
    case (Inr anchor)
    from register_same [OF same_manager_registry [OF s] refl, of c] show ?thesis
    proof (elim disjE exE conjE)
      assume "register ?key (mg_pending m) = (Inl ErrSyncInProgress, mg_pending m)"
        "register ?key (mg_pending m') = (Inl ErrSyncInProgress, mg_pending m')"
      then show ?thesis using new by (simp add: eqs Inr flip: c_def)
    next
      fix q q'
      assume reg: "register ?key (mg_pending m) = (Inr (nextCh (mg_pending m)), q)"
        "register ?key (mg_pending m') = (Inr (nextCh (mg_pending m')), q')"
        and sq: "same_registry V {(?key, nextCh (mg_pending m), nextCh (mg_pending m'))} q q'"
      from same_manager_pending [OF new sq] same_manager_pending [OF new release_same [OF sq]] show ?thesis
        by (simp add: eqs Inr reg flip: c_def)
    qed
  qed
qed

lemma SyncHistory_finish_same:
  assumes s: "same_manager V {(key, ch, ch')} m m'"
  shows "rel_option (rel_prod (=) (same_manager V {}))
    (SyncHistory_finish w \<lparr>wt_Key = key, wt_Channel = ch, wt_Chat = c, wt_Count = n\<rparr> m)
    (SyncHistory_finish w \<lparr>wt_Key = key, wt_Channel = ch', wt_Chat = c, wt_Count = n\<rparr> m')"
proof (cases w)
  case WakeReply
  from receive_same [OF same_manager_registry [OF s]] show ?thesis
    by cases (auto simp: SyncHistory_finish_def WakeReply intro!: same_manager_pending [OF s] release_same)
qed (use same_manager_pending [OF s release_same [OF same_manager_registry [OF s]]] in \<open>simp_all add: SyncHistory_finish_def\<close>)

definition own_fresh_events :: "view \<Rightarrow> 'j outside \<Rightarrow> bool" where
  "own_fresh_events V Ou \<longleftrightarrow> (\<forall>(E, t, evt)\<in>set (ou_events Ou). t = vw_Tenant V \<and> (\<forall>i j. fresh_ids V (E i j)))"

lemma SyncHistory_same:
  assumes s: "same_manager V {} m m'" and ev: "own_fresh_events V Ou"
  shows "rel_prod (=) (same_manager V {}) (SyncHistory Ou L gmt (vw_Tenant V) c n m) (SyncHistory Ou L gmt (vw_Tenant V) c n m')"
  using SyncHistory_start_same [OF s, of "ou_env Ou 0" L "ou_peer Ou" c n]
proof (elim disjE exE conjE)
  fix key ch ch' c1 n1 m1 m1'
  assume st: "SyncHistory_start (ou_env Ou 0) L (ou_peer Ou) (vw_Tenant V) c n m =
      (Inr \<lparr>wt_Key = key, wt_Channel = ch, wt_Chat = c1, wt_Count = n1\<rparr>, m1)"
    "SyncHistory_start (ou_env Ou 0) L (ou_peer Ou) (vw_Tenant V) c n m' =
      (Inr \<lparr>wt_Key = key, wt_Channel = ch', wt_Chat = c1, wt_Count = n1\<rparr>, m1')"
    and s1: "same_manager V {(key, ch, ch')} m1 m1'"
  let ?m2 = "handle_events L gmt (ou_events Ou) m1" and ?m2' = "handle_events L gmt (ou_events Ou) m1'"
  have s2: "same_manager V {(key, ch, ch')} ?m2 ?m2'"
    by (rule handle_events_same [OF s1]) (use ev in \<open>simp add: own_fresh_events_def\<close>)
  from SyncHistory_finish_same [OF s2, of "ou_wake Ou" c1 n1] show ?thesis
    by cases (auto simp: SyncHistory_def st Let_def intro!: same_manager_pending [OF s2] release_same same_manager_registry [OF s2])
qed (simp add: SyncHistory_def)

end
