(* ===== verification/GatewayView.thy ===== *)
theory GatewayView
  imports EngineView
begin

text \<open>
  The gateway in the view of one tenant. \<open>tenant_answers\<close> asks of a relation between gateways that
  whatever the surfaces call for the tenant answers alike on related gateways and leaves them related;
  then every endpoint and every tool does, and so does a request with the tenant's key. The relation
  \<open>same_gateway\<close> is its interpretation.
\<close>

section \<open>Attachments\<close>

definition same_files :: "view \<Rightarrow> (string \<Rightarrow> fnode option) \<Rightarrow> (string \<Rightarrow> fnode option) \<Rightarrow> bool" where
  "same_files V fs fs' \<longleftrightarrow> (\<forall>p\<in>vw_Paths V. fs p = fs' p)"

definition same_world :: "view \<Rightarrow> db media_world \<Rightarrow> db media_world \<Rightarrow> bool" where
  "same_world V W W' \<longleftrightarrow> same_db V (mw_store W) (mw_store W') \<and> same_files V (mw_files W) (mw_files W')"

lemma onDisk_same:
  "set_option path \<subseteq> vw_Paths V \<Longrightarrow> same_files V fs fs' \<Longrightarrow> onDisk fs (derefString path) = onDisk fs' (derefString path)"
  by (cases path) (simp_all add: onDisk_def derefString_def same_files_def)

lemma recordFailure_same:
  assumes "mf_messages F = store_messages E" and "same_db V d d'"
  shows "rel_prod (=) (same_db V) (recordFailure F errtext now (vw_Tenant V) i cause d) (recordFailure F errtext now (vw_Tenant V) i cause d')"
  using message_UpdateMedia_same [OF assms(2)]
  by (simp add: recordFailure_def Let_def assms(1) store_messages_def rel_prod_sel case_prod_beta)

lemma download_same:
  assumes F: "mf_messages F = store_messages E" and s: "same_world V W W'" and p: "path \<in> vw_Paths V"
  shows "rel_prod (=) (same_world V) (download F utl errtext now out dl path (vw_Tenant V) ref m W)
    (download F utl errtext now out dl path (vw_Tenant V) ref m W')"
proof -
  have d: "same_db V (mw_store W) (mw_store W')" and f: "same_files V (mw_files W) (mw_files W')"
    using s by (simp_all add: same_world_def)
  have fail: "rel_prod (=) (same_db V) (recordFailure F errtext now (vw_Tenant V) i cause (mw_store W))
      (recordFailure F errtext now (vw_Tenant V) i cause (mw_store W'))" for i cause
    by (rule recordFailure_same [OF F d])
  have upd: "rel_prod (=) (same_db V) (message_UpdateMedia E (vw_Tenant V) i (\<lparr>mu_Path = Some path, mu_Status = st, mu_Error = er, mu_FetchedAt = now\<rparr>) (mw_store W))
      (message_UpdateMedia E (vw_Tenant V) i (\<lparr>mu_Path = Some path, mu_Status = st, mu_Error = er, mu_FetchedAt = now\<rparr>) (mw_store W'))" for i st er
    by (rule message_UpdateMedia_same [OF d]) (simp add: p)
  have files: "same_files V ((mw_files W)(path := x)) ((mw_files W')(path := x))" for x using f by (simp add: same_files_def)
  show ?thesis
  proof (cases "dl (requestFor utl m)")
    case (Inl cause)
    then show ?thesis using fail [of "m_ID m" cause] f
      by (auto simp: download_def Let_def same_world_def rel_prod_sel case_prod_beta)
  next
    case (Inr data)
    show ?thesis
    proof (cases out)
      case WriteOK
      then show ?thesis using upd [of "m_ID m" MediaAvailable "[]"] files s
        by (auto simp: download_def Let_def Inr writeMediaFile_def F store_messages_def same_world_def rel_prod_sel case_prod_beta
            split: option.split)
    next
      case (WriteFails left)
      then show ?thesis using fail [of "m_ID m" WriteFailed] files s
        by (auto simp: download_def Let_def Inr writeMediaFile_def same_world_def rel_prod_sel case_prod_beta)
    qed
  qed
qed

text \<open>The fetch of an attachment, and the path it answers with.\<close>

lemma fetch_same:
  assumes F: "mf_messages F = store_messages E" and s: "same_world V W W'"
    and dl: "mf_downloaderFor F (vw_Tenant V) = f (vw_Tenant V)" and dir: "\<forall>p. in_directory (mf_dir F) (vw_Tenant V) p \<longrightarrow> p \<in> vw_Paths V"
  shows "rel_prod (=) (same_world V) (fetch F utl errtext now out (vw_Tenant V) i W)
    (fetch (F\<lparr>mf_downloaderFor := f\<rparr>) utl errtext now out (vw_Tenant V) i W')"
proof -
  have d: "same_db V (mw_store W) (mw_store W')" and fs: "same_files V (mw_files W) (mw_files W')"
    using s by (simp_all add: same_world_def)
  have "recordFailure (F\<lparr>mf_downloaderFor := f\<rparr>) = recordFailure F" by (intro ext) (simp add: recordFailure_def)
  then have dwn: "download (F\<lparr>mf_downloaderFor := f\<rparr>) = download F"
    by (intro ext) (auto simp: download_def Let_def split: sum.split prod.split bool.split)
  show ?thesis
  proof (cases "message_GetByID E (vw_Tenant V) i (mw_store W)")
    case (Inl e)
    then have "message_GetByID E (vw_Tenant V) i (mw_store W') = Inl e" using reads_same(5) [OF d] by simp
    with Inl s show ?thesis by (cases e) (simp_all add: fetch_def F store_messages_def)
  next
    case (Inr m)
    then have g: "message_GetByID E (vw_Tenant V) i (mw_store W') = Inr m" using reads_same(5) [OF d] by simp
    have "set_option (m_MediaPath m) \<subseteq> vw_Paths V"
      using message_GetByID_found [OF Inr] d by (simp add: same_db_def)
    note disk = onDisk_same [OF this fs]
    have "path \<in> vw_Paths V" if "mediaPathFor utl (mf_dir F) (vw_Tenant V) j mime = Inr path" for j mime path
      using dir media_path_directory [OF that] by blast
    then have fetched: "rel_prod (=) (same_world V) (download F utl errtext now out l path (vw_Tenant V) ref m W)
        (download F utl errtext now out l path (vw_Tenant V) ref m W')"
      if "mediaPathFor utl (mf_dir F) (vw_Tenant V) j mime = Inr path" for l path ref j mime
      using that download_same [OF F s] by blast
    show ?thesis
      using s by (simp add: fetch_def F store_messages_def Inr g Let_def disk dwn fetched flip: dl split: option.split sum.split)
  qed
qed

lemma fetch_path:
  assumes F: "mf_messages F = store_messages E" and d: "same_db V (mw_store W) d'"
    and dir: "\<forall>p. in_directory (mf_dir F) (vw_Tenant V) p \<longrightarrow> p \<in> vw_Paths V"
    and f: "fetch F utl errtext now out (vw_Tenant V) i W = ((ref, None), W1)"
  shows "mr_Path ref \<in> vw_Paths V"
proof (cases "\<exists>m path dl. admitted F utl (vw_Tenant V) i W m path dl")
  case True
  then obtain m path dl where a: "admitted F utl (vw_Tenant V) i W m path dl" by blast
  then have "path \<in> vw_Paths V" using dir media_path_directory by (auto simp: admitted_def)
  moreover have "mr_Path ref = path"
    using f fetch_admitted [OF a, of errtext now out]
    by (auto simp: download_def Let_def split: sum.splits prod.splits if_splits option.splits bool.splits)
  ultimately show ?thesis by simp
next
  case False
  then obtain m data where g: "message_GetByID E (vw_Tenant V) i (mw_store W) = Inr m"
    and disk: "onDisk (mw_files W) (derefString (m_MediaPath m)) = Some data" and ref: "mr_Path ref = derefString (m_MediaPath m)"
    using fetch_unadmitted [OF False, of errtext now out] f by (auto simp: F store_messages_def)
  have "set_option (m_MediaPath m) \<subseteq> vw_Paths V" using message_GetByID_found [OF g] d by (simp add: same_db_def)
  with disk ref show ?thesis by (cases "m_MediaPath m") (simp_all add: onDisk_def derefString_def)
qed

section \<open>Answers to a tenant\<close>

lemma bind_same:
  "rel_prod (=) R x y \<Longrightarrow> (\<And>r s s'. R s s' \<Longrightarrow> rel_prod (=) Q (f r s) (f' r s')) \<Longrightarrow>
   rel_prod (=) Q (case x of (r, s) \<Rightarrow> f r s) (case y of (r, s') \<Rightarrow> f' r s')"
  by (auto simp: rel_prod_sel case_prod_beta)

locale tenant_answers =
  fixes R :: "'w gateway \<Rightarrow> 'w gateway \<Rightarrow> bool"
    and sm :: "'w SessionManager"
    and t :: string
    and E :: "nat \<Rightarrow> env"
    and digest :: string
    and open_file :: "string \<Rightarrow> 'w gateway \<Rightarrow> string option"
  assumes get_status: "R g g' \<Longrightarrow> rel_prod (=) R (sm_Status sm t g) (sm_Status sm t g')"
    and send: "R g g' \<Longrightarrow> rel_prod (=) R (sm_SendText sm t to body g) (sm_SendText sm t to body g')"
    and contacts: "R g g' \<Longrightarrow> rel_prod (=) R (sm_FindContacts sm t q g) (sm_FindContacts sm t q g')"
    and sync: "R g g' \<Longrightarrow> rel_prod (=) R (sm_SyncHistory sm t c n g) (sm_SyncHistory sm t c n g')"
    and media: "R g g' \<Longrightarrow> rel_prod (=) R (sm_FetchMedia sm t i g) (sm_FetchMedia sm t i g')"
    and opened: "R g g' \<Longrightarrow> sm_FetchMedia sm t i g = ((ref, None), g1) \<Longrightarrow> R g1 g1' \<Longrightarrow>
      open_file (mr_Path ref) g1 = open_file (mr_Path ref) g1'"
    and recorded: "R g g' \<Longrightarrow> R (g\<lparr>gw_db := snd (message_Append (E 3) (outboundRecord (E 2) t sent b) (gw_db g))\<rparr>)
      (g'\<lparr>gw_db := snd (message_Append (E 3) (outboundRecord (E 2) t sent b) (gw_db g'))\<rparr>)"
    and listed: "R g g' \<Longrightarrow> rel_prod (=) (\<lambda>d d'. R (g\<lparr>gw_db := d\<rparr>) (g'\<lparr>gw_db := d'\<rparr>))
      (message_ListByChat (E 2) t c n (gw_db g)) (message_ListByChat (E 2) t c n (gw_db g'))"
    and chats_listed: "R g g' \<Longrightarrow> rel_prod (=) (\<lambda>d d'. R (g\<lparr>gw_db := d\<rparr>) (g'\<lparr>gw_db := d'\<rparr>))
      (message_ListChats (E 2) t n (gw_db g)) (message_ListChats (E 2) t n (gw_db g'))"
    and resolved: "R g g' \<Longrightarrow> resolver_ResolveKeyHash (E 0) digest g = resolver_ResolveKeyHash (E 0) digest g'"
    and used: "R g g' \<Longrightarrow> R (snd (resolver_MarkKeyUsed (E 1) k g)) (snd (resolver_MarkKeyUsed (E 1) k g'))"
begin

definition alike :: "'r \<times> 'w gateway \<Rightarrow> 'r \<times> 'w gateway \<Rightarrow> bool" where
  "alike = rel_prod (=) R"

lemma alike_same [simp]: "alike (x, g) (y, g') \<longleftrightarrow> x = y \<and> R g g'"
  by (simp add: alike_def)

lemmas binds = bind_same [where Q = R, folded alike_def]

lemma own_principal: "TenantID p = t \<Longrightarrow> p\<lparr>TenantID := t\<rparr> = p"
  by (cases p) simp

lemma with_tenant:
  assumes "R g g'" and "\<And>p. PrincipalFrom r = Some p \<Longrightarrow> TenantID p = t"
    and "\<And>p. alike (h (p\<lparr>TenantID := t\<rparr>) r g) (h (p\<lparr>TenantID := t\<rparr>) r g')"
  shows "alike (withTenant h r g) (withTenant h r g')"
proof (cases "PrincipalFrom r")
  case (Some p)
  with assms(3) [of p] assms(2) show ?thesis by (simp add: withTenant_def own_principal)
qed (use assms(1) in \<open>simp add: withTenant_def\<close>)

lemma wa_reply: "R g g' \<Longrightarrow> alike (waReply x g) (waReply x g')"
  by (simp add: waReply_def split: sum.split option.split)

lemma media_answer:
  assumes "R g g'"
  shows "\<exists>ref e g1 g1'. sm_FetchMedia sm t i g = ((ref, e), g1) \<and> sm_FetchMedia sm t i g' = ((ref, e), g1') \<and> R g1 g1' \<and>
    (e = None \<longrightarrow> open_file (mr_Path ref) g1 = open_file (mr_Path ref) g1')"
proof -
  obtain ref e g1 where f: "sm_FetchMedia sm t i g = ((ref, e), g1)" by (metis prod.exhaust)
  obtain g1' where f': "sm_FetchMedia sm t i g' = ((ref, e), g1')" "R g1 g1'" by (rule same_result [OF media [OF assms] f])
  then show ?thesis using f opened [OF assms] by blast
qed

lemma handlers:
  assumes S: "sv_sessions S = sm" and g: "R g g'" and p: "\<And>p. PrincipalFrom r = Some p \<Longrightarrow> TenantID p = t"
  shows "alike (handleGetSession S r g) (handleGetSession S r g')"
    and "alike (handleSendMessage E S r g) (handleSendMessage E S r g')"
    and "alike (handleListChats E r g) (handleListChats E r g')"
    and "alike (handleListChatMessages E r g) (handleListChatMessages E r g')"
    and "alike (handleSyncChatHistory S r g) (handleSyncChatHistory S r g')"
    and "alike (handleFindContacts S r g) (handleFindContacts S r g')"
    and "alike (handleGetMessageMedia open_file S r g) (handleGetMessageMedia open_file S r g')"
proof -
  note tenant = with_tenant [OF g p]
  show "alike (handleGetSession S r g) (handleGetSession S r g')"
    unfolding handleGetSession_def S
    by (rule tenant) (auto intro!: binds [OF get_status [OF g]] wa_reply)
  show "alike (handleSendMessage E S r g) (handleSendMessage E S r g')"
    unfolding handleSendMessage_def S Let_def
    by (rule tenant) (auto simp: g recorded intro!: binds [OF send [OF g]] split: sum.split option.split)
  show "alike (handleListChats E r g) (handleListChats E r g')"
    unfolding handleListChats_def
    by (rule tenant) (auto intro!: binds [OF chats_listed [OF g]] split: sum.split)
  show "alike (handleListChatMessages E r g) (handleListChatMessages E r g')"
    unfolding handleListChatMessages_def Let_def
    by (rule tenant) (auto simp: g intro!: binds [OF listed [OF g]] split: sum.split)
  show "alike (handleSyncChatHistory S r g) (handleSyncChatHistory S r g')"
    unfolding handleSyncChatHistory_def S Let_def
    by (rule tenant) (auto simp: g intro!: binds [OF sync [OF g]] wa_reply split: option.split)
  show "alike (handleFindContacts S r g) (handleFindContacts S r g')"
    unfolding handleFindContacts_def S Let_def
    by (rule tenant) (auto simp: g intro!: binds [OF contacts [OF g]] wa_reply)
  show "alike (handleGetMessageMedia open_file S r g) (handleGetMessageMedia open_file S r g')"
    unfolding handleGetMessageMedia_def S Let_def
    by (rule tenant)
       (use media_answer [OF g, of "TrimSpace (path_value r ''id'')"] in \<open>auto simp: g split: option.split\<close>)
qed

text \<open>The guards: the same key stands for the same principal on both sides.\<close>

lemma authenticated:
  assumes mw: "resolver mw = keyResolver E" and g: "R g g'" and tok: "HashKey (BearerToken r) = digest"
  shows "rel_prod (=) R (authenticateTenant mw r g) (authenticateTenant mw r g')"
  using g resolved [OF g] used [OF g]
  by (simp add: authenticateTenant_def mw keyResolver_def Let_def tok split: sum.split resolve_error.split)

lemma guarded:
  fixes h :: "'w http_handler"
  assumes mw: "resolver mw = keyResolver E" and g: "R g g'" and tok: "HashKey (BearerToken r) = digest"
    and live: "\<forall>p. live_principal g digest = Some p \<longrightarrow> TenantID p = t"
    and h: "\<And>p g g'. TenantID p = t \<Longrightarrow> R g g' \<Longrightarrow> alike (h (WithPrincipal r p) g) (h (WithPrincipal r p) g')"
  shows "alike (RequireScope mw required h r g) (RequireScope mw required h r g')"
    and "alike (RequireTenant mw h r g) (RequireTenant mw h r g')"
proof -
  obtain x :: "reply response + Principal" and g1 where a: "authenticateTenant mw r g = (x, g1)" by fastforce
  obtain g1' where a': "authenticateTenant mw r g' = (x, g1')" "R g1 g1'"
    by (rule same_result [OF authenticated [OF mw g tok] a])
  have "TenantID p = t" if "x = Inr p" for p
    using kr.authenticate_cases [OF mw a] that live tok by auto
  then show "alike (RequireScope mw required h r g) (RequireScope mw required h r g')"
    "alike (RequireTenant mw h r g) (RequireTenant mw h r g')"
    using a'(2) h by (simp_all add: RequireScope_def RequireTenant_def a a'(1) split: sum.split)
qed

lemma origin: "R g g' \<Longrightarrow> alike (h r g) (h r g') \<Longrightarrow>
    alike (RequireAllowedOrigin utl allowed h r g) (RequireAllowedOrigin utl allowed h r g')"
  by (simp add: RequireAllowedOrigin_def Let_def)

text \<open>The tools.\<close>

lemma scoped:
  assumes "R g g'" and "\<And>p. ctx = Some p \<Longrightarrow> TenantID p = t"
    and "\<And>p. alike (h (p\<lparr>TenantID := t\<rparr>) g) (h (p\<lparr>TenantID := t\<rparr>) g')"
  shows "alike (with_scope required h ctx g) (with_scope required h ctx g')"
proof (cases ctx)
  case (Some p)
  with assms(3) [of p] assms(1,2) show ?thesis by (simp add: with_scope_def requireScope_def own_principal)
qed (use assms(1) in \<open>simp add: with_scope_def requireScope_def\<close>)

lemma tools:
  assumes g: "R g g'" and p: "\<And>p. ctx = Some p \<Longrightarrow> TenantID p = t"
  shows "alike (list_chats E n ctx g) (list_chats E n ctx g')"
    and "alike (list_messages E j n ctx g) (list_messages E j n ctx g')"
    and "alike (send_message E sm to body ctx g) (send_message E sm to body ctx g')"
    and "alike (find_contact sm q ctx g) (find_contact sm q ctx g')"
    and "alike (sync_history sm j n ctx g) (sync_history sm j n ctx g')"
    and "alike (get_media sm i ctx g) (get_media sm i ctx g')"
proof -
  note tenant = scoped [OF g p]
  show "alike (list_chats E n ctx g) (list_chats E n ctx g')"
    unfolding list_chats_def by (rule tenant) (auto intro!: binds [OF chats_listed [OF g]] split: sum.split)
  show "alike (list_messages E j n ctx g) (list_messages E j n ctx g')"
    unfolding list_messages_def by (rule tenant) (auto simp: g intro!: binds [OF listed [OF g]] split: sum.split)
  show "alike (send_message E sm to body ctx g) (send_message E sm to body ctx g')"
    unfolding send_message_def by (rule tenant) (auto simp: g recorded intro!: binds [OF send [OF g]] split: sum.split)
  show "alike (find_contact sm q ctx g) (find_contact sm q ctx g')"
    unfolding find_contact_def by (rule tenant) (auto simp: g intro!: binds [OF contacts [OF g]] split: sum.split)
  show "alike (sync_history sm j n ctx g) (sync_history sm j n ctx g')"
    unfolding sync_history_def by (rule tenant) (auto simp: g intro!: binds [OF sync [OF g]] split: sum.split)
  show "alike (get_media sm i ctx g) (get_media sm i ctx g')"
    unfolding get_media_def by (rule tenant) (use media_answer [OF g, of i] in \<open>auto simp: g split: option.split\<close>)
qed

lemma run_tool_alike:
  "R g g' \<Longrightarrow> (\<And>i. alike (h i ctx g) (h i ctx g')) \<Longrightarrow> alike (run_tool decode h args ctx g) (run_tool decode h args ctx g')"
  by (auto simp: run_tool_def alike_def rel_prod_sel case_prod_beta split: option.split)

lemma every_call:
  fixes sdk :: mcp_sdk
  assumes g: "R g g'" and p: "\<And>p. ctx = Some p \<Longrightarrow> TenantID p = t"
  defines "server \<equiv> mcpserver_New sdk \<lparr>dp_Messages = E, dp_Sessions = sm\<rparr>"
  shows "alike (call_tool server c ctx g) (call_tool server c ctx g')"
proof -
  have "\<forall>to\<in>set server. alike (to_Call to args ctx g) (to_Call to args ctx g')" for args
    unfolding server_def mcpserver_New_eq by (simp add: run_tool_alike [OF g] tools [OF g p])
  moreover have "to \<in> set server" if "find (\<lambda>to. to_Name to = fst c) server = Some to" for to
    using that by (auto simp: find_Some_iff)
  ultimately show ?thesis using g by (simp add: call_tool_def split: option.split)
qed

lemma mcp_endpoint:
  assumes S: "sv_sessions S = sm" and g: "R g g'" and p: "\<And>p. PrincipalFrom r = Some p \<Longrightarrow> TenantID p = t"
  shows "alike (mcpHandler sdk E S r g) (mcpHandler sdk E S r g')"
  unfolding mcpHandler_def S Let_def
  by (auto simp: g split: option.split intro!: binds [OF every_call [OF g p, unfolded alike_def]])

text \<open>A request with the tenant's key that is not the administrator's.\<close>

lemma every_route:
  assumes rt: "rt \<in> set (routes E utl rand open_file (mcpHandler sdk E S) S)" and S: "sv_sessions S = sm"
    and g: "R g g'" and tok: "HashKey (BearerToken r) = digest"
    and live: "\<forall>p. live_principal g digest = Some p \<longrightarrow> TenantID p = t"
    and admin: "sv_adminToken S = [] \<or> BearerToken r \<noteq> sv_adminToken S"
  shows "alike (rt_Handler rt r g) (rt_Handler rt r g')"
proof -
  have mw: "resolver (server_mw S E) = keyResolver E" by (simp add: server_mw_def)
  have p: "PrincipalFrom (WithPrincipal r p) = Some q \<Longrightarrow> TenantID p = t \<Longrightarrow> TenantID q = t" for p q
    by (simp add: PrincipalFrom_def WithPrincipal_def)
  have closed: "alike (RequireAdmin (server_mw S E) h r g) (RequireAdmin (server_mw S E) h r g')" for h
    using g admin RequireAdmin_rejects [of "server_mw S E" r h] by (simp add: server_mw_def)
  have healthz: "alike (handleHealthz r g) (handleHealthz r g')" using g by (simp add: handleHealthz_def)
  note guards = guarded [OF mw g tok live]
  from rt show ?thesis
    unfolding routes_def Let_def set_simps insert_iff empty_iff simp_thms
    by (elim disjE) (simp_all add: healthz closed guards handlers [OF S _ p] mcp_endpoint [OF S _ p] origin [OF g])
qed

lemma tenant_request:
  assumes S: "sv_sessions S = sm" and g: "R g g'" and tok: "HashKey (BearerToken r) = digest"
    and live: "\<forall>p. live_principal g digest = Some p \<longrightarrow> TenantID p = t"
    and admin: "sv_adminToken S = [] \<or> BearerToken r \<noteq> sv_adminToken S"
  shows "alike (Server_Handler E utl rand open_file (mcpHandler sdk E S) S r g)
    (Server_Handler E utl rand open_file (mcpHandler sdk E S) S r g')"
proof -
  let ?rts = "routes E utl rand open_file (mcpHandler sdk E S) S"
  have "alike (rt_Handler rt (r\<lparr>r_PathValues := vs, r_Principal := None\<rparr>) g) (rt_Handler rt (r\<lparr>r_PathValues := vs, r_Principal := None\<rparr>) g')"
    if "rt \<in> set ?rts" for rt vs
    by (rule every_route [OF that S g _ live]) (use tok admin in \<open>simp_all add: BearerToken_def\<close>)
  then have "alike (rt_Handler rt (r\<lparr>r_PathValues := vs, r_Principal := None\<rparr>) g) (rt_Handler rt (r\<lparr>r_PathValues := vs, r_Principal := None\<rparr>) g')"
    if "find P (filter Q ?rts) = Some rt" for P Q rt vs
    using that by (auto simp: find_Some_iff dest!: nth_mem)
  then have "alike (serveMux ?rts r g) (serveMux ?rts r g')" using g by (simp add: serveMux_def Let_def split: option.split)
  then show ?thesis by (auto simp: Server_Handler_def jsonErrors_def alike_def rel_prod_sel case_prod_beta)
qed

end

section \<open>Gateways\<close>

definition same_gateway :: "view \<Rightarrow> 'j engine gateway \<Rightarrow> 'j engine gateway \<Rightarrow> bool" where
  "same_gateway V g g' \<longleftrightarrow>
     same_manager V {} (manager_of g) (manager_of g') \<and> same_files V (en_files (gw_wa g)) (en_files (gw_wa g'))"

text \<open>The outside of a run in the view: the identifiers it draws are the view's, the events that arrive
  meanwhile are the tenant's, the tenant's media directory is in the view, and a file is opened by path.\<close>

definition in_view ::
  "view \<Rightarrow> (nat \<Rightarrow> env) \<Rightarrow> 'j outside \<Rightarrow> settings \<Rightarrow> (string \<Rightarrow> 'j engine gateway \<Rightarrow> string option) \<Rightarrow> bool" where
  "in_view V E Ou S open_file \<longleftrightarrow>
     fresh_ids V (E 2) \<and> fresh_ids V (E 3) \<and> own_fresh_events V Ou \<and>
     (\<forall>p. in_directory (se_mediaDir S) (vw_Tenant V) p \<longrightarrow> p \<in> vw_Paths V) \<and>
     (\<forall>p g g'. en_files (gw_wa g) p = en_files (gw_wa g') p \<longrightarrow> open_file p g = open_file p g')"

lemma same_gateway_db:
  assumes "same_gateway V g g'" and "same_db V d d'"
  shows "same_gateway V (g\<lparr>gw_db := d\<rparr>) (g'\<lparr>gw_db := d'\<rparr>)"
  using assms by (simp add: same_gateway_def same_manager_def manager_of_def)

lemma same_gateway_rows: "same_gateway V g g' \<Longrightarrow> same_db V (gw_db g) (gw_db g')"
  by (simp add: same_gateway_def same_manager_def manager_of_def)

lemma run_manager_same:
  assumes g: "same_gateway V g g'"
    and f: "\<And>m m'. same_manager V {} m m' \<Longrightarrow> rel_prod (=) (same_manager V {}) (f m) (f m')"
  shows "rel_prod (=) (same_gateway V) (run_manager f g) (run_manager f g')"
proof -
  have "rel_prod (=) (same_manager V {}) (f (manager_of g)) (f (manager_of g'))" using f g by (simp add: same_gateway_def)
  then show ?thesis
    using g by (auto simp: run_manager_def same_gateway_def same_manager_def rel_prod_sel case_prod_beta manager_of_def)
qed

lemma FetchMedia_same:
  assumes g: "same_gateway V g g'" and v: "in_view V E Ou S open_file"
  shows "rel_prod (=) (same_gateway V) (FetchMedia Ou S (vw_Tenant V) i g) (FetchMedia Ou S (vw_Tenant V) i g')"
    and "FetchMedia Ou S (vw_Tenant V) i g = ((ref, None), g1) \<Longrightarrow> mr_Path ref \<in> vw_Paths V"
proof -
  let ?W = "\<lambda>g. \<lparr>mw_store = gw_db g, mw_files = en_files (gw_wa g), mw_net = en_net (gw_wa g)\<rparr>"
    and ?F = "\<lambda>g. manager_fetcher Ou S (en_manager (gw_wa g))"
  let ?f = "\<lambda>g. fetch (?F g) (se_utl S) (se_errtext S) (ou_now Ou) (ou_write Ou) (vw_Tenant V) i (?W g)"
  have F: "mf_messages (?F g) = store_messages (ou_env Ou 0)" "mf_dir (?F g) = se_mediaDir S" by (simp_all add: manager_fetcher_def)
  have dir: "\<forall>p. in_directory (mf_dir (?F g)) (vw_Tenant V) p \<longrightarrow> p \<in> vw_Paths V" using v by (simp add: in_view_def F)
  have s: "same_world V (?W g) (?W g')"
    using g by (simp add: same_world_def same_gateway_def same_manager_def manager_of_def)
  have cl: "mf_downloaderFor (?F g) (vw_Tenant V) = mf_downloaderFor (?F g') (vw_Tenant V)"
    using g by (simp add: manager_fetcher_def manager_downloaderFor_def same_gateway_def same_manager_def manager_of_def)
  have eq: "(?F g)\<lparr>mf_downloaderFor := mf_downloaderFor (?F g')\<rparr> = ?F g'" by (simp add: manager_fetcher_def)
  have "rel_prod (=) (same_world V) (?f g) (?f g')"
    using fetch_same [where F = "?F g" and f = "mf_downloaderFor (?F g')", OF F(1) s cl dir] unfolding eq .
  then show "rel_prod (=) (same_gateway V) (FetchMedia Ou S (vw_Tenant V) i g) (FetchMedia Ou S (vw_Tenant V) i g')"
    using g by (auto simp: FetchMedia_def rel_prod_sel case_prod_beta same_world_def same_gateway_def same_manager_def manager_of_def)
  show "FetchMedia Ou S (vw_Tenant V) i g = ((ref, None), g1) \<Longrightarrow> mr_Path ref \<in> vw_Paths V"
    using fetch_path [OF F(1) _ dir, of "?W g" "gw_db g'"] same_gateway_rows [OF g]
    by (auto simp: FetchMedia_def split: prod.splits)
qed

definition same_run ::
  "view \<Rightarrow> (nat \<Rightarrow> env) \<Rightarrow> 'j outside \<Rightarrow> settings \<Rightarrow> (string \<Rightarrow> 'j engine gateway \<Rightarrow> string option) \<Rightarrow>
   'j engine gateway \<Rightarrow> 'j engine gateway \<Rightarrow> bool" where
  "same_run V E Ou S open_file g g' \<longleftrightarrow> in_view V E Ou S open_file \<and> same_gateway V g g'"

lemma same_run_rel:
  "in_view V E Ou S open_file \<Longrightarrow> rel_prod (=) (same_gateway V) x y \<Longrightarrow> rel_prod (=) (same_run V E Ou S open_file) x y"
  by (simp add: rel_prod_sel same_run_def)

interpretation seen: tenant_answers "same_run V E Ou S open_file" "manager_sessions Ou S L gmt" "vw_Tenant V" E "vw_Digest V" open_file
  for V E Ou S open_file L gmt
proof
  fix g g' g1 g1' :: "'a engine gateway" and to body q c i b k and n :: int and ref sent
  let ?sm = "manager_sessions Ou S L gmt" and ?R = "same_run V E Ou S open_file" and ?t = "vw_Tenant V"
  assume "?R g g'"
  then have v: "in_view V E Ou S open_file" and g: "same_gateway V g g'" by (simp_all add: same_run_def)
  note run = same_run_rel [OF v run_manager_same [OF g]] and rows = same_gateway_rows [OF g]
  have db: "?R (g\<lparr>gw_db := d\<rparr>) (g'\<lparr>gw_db := d'\<rparr>)" if "same_db V d d'" for d d'
    using v same_gateway_db [OF g that] by (simp add: same_run_def)
  have ids: "own_row V (outboundRecord (E 2) ?t sent b)" "\<forall>j. NewID (E 3) j \<in> vw_IDs V"
    using v by (simp_all add: own_row_def outboundRecord_def in_view_def fresh_ids_def emptyMessage_def)
  show "rel_prod (=) ?R (sm_Status ?sm ?t g) (sm_Status ?sm ?t g')"
    unfolding manager_sessions_def SessionManager.simps by (rule run) (simp add: manager_Status_same)
  show "rel_prod (=) ?R (sm_SendText ?sm ?t to body g) (sm_SendText ?sm ?t to body g')"
    unfolding manager_sessions_def SessionManager.simps by (rule run) (rule SendText_same)
  show "rel_prod (=) ?R (sm_FindContacts ?sm ?t q g) (sm_FindContacts ?sm ?t q g')"
    unfolding manager_sessions_def SessionManager.simps by (rule run) (rule FindContacts_same)
  show "rel_prod (=) ?R (sm_SyncHistory ?sm ?t c n g) (sm_SyncHistory ?sm ?t c n g')"
    unfolding manager_sessions_def SessionManager.simps by (rule run, erule SyncHistory_same) (use v in \<open>simp add: in_view_def\<close>)
  show "rel_prod (=) ?R (sm_FetchMedia ?sm ?t i g) (sm_FetchMedia ?sm ?t i g')"
    unfolding manager_sessions_def SessionManager.simps by (rule same_run_rel [OF v FetchMedia_same(1) [OF g v]])
  show "sm_FetchMedia ?sm ?t i g = ((ref, None), g1) \<Longrightarrow> ?R g1 g1' \<Longrightarrow> open_file (mr_Path ref) g1 = open_file (mr_Path ref) g1'"
  proof -
    assume "sm_FetchMedia ?sm ?t i g = ((ref, None), g1)" and "?R g1 g1'"
    then have "en_files (gw_wa g1) (mr_Path ref) = en_files (gw_wa g1') (mr_Path ref)"
      using FetchMedia_same(2) [OF g v, of i ref g1]
      by (simp add: manager_sessions_def same_run_def same_gateway_def same_files_def)
    then show ?thesis using v unfolding in_view_def by blast
  qed
  show "?R (g\<lparr>gw_db := snd (message_Append (E 3) (outboundRecord (E 2) ?t sent b) (gw_db g))\<rparr>)
      (g'\<lparr>gw_db := snd (message_Append (E 3) (outboundRecord (E 2) ?t sent b) (gw_db g'))\<rparr>)"
    by (intro db same_state [OF message_Append_same [OF rows ids]])
  show "rel_prod (=) (\<lambda>d d'. ?R (g\<lparr>gw_db := d\<rparr>) (g'\<lparr>gw_db := d'\<rparr>)) (message_ListByChat (E 2) ?t c n (gw_db g)) (message_ListByChat (E 2) ?t c n (gw_db g'))"
    by (rule prod.rel_mono_strong [OF reads_same(1) [OF rows]]) (simp_all add: db)
  show "rel_prod (=) (\<lambda>d d'. ?R (g\<lparr>gw_db := d\<rparr>) (g'\<lparr>gw_db := d'\<rparr>)) (message_ListChats (E 2) ?t n (gw_db g)) (message_ListChats (E 2) ?t n (gw_db g'))"
    by (rule prod.rel_mono_strong [OF reads_same(2) [OF rows]]) (simp_all add: db)
  show "resolver_ResolveKeyHash (E 0) (vw_Digest V) g = resolver_ResolveKeyHash (E 0) (vw_Digest V) g'"
    by (rule resolver_ResolveKeyHash_same [OF rows])
  show "?R (snd (resolver_MarkKeyUsed (E 1) k g)) (snd (resolver_MarkKeyUsed (E 1) k g'))"
    using db [OF same_state [OF apikey_MarkUsed_same [OF rows]]] by (simp add: resolver_MarkKeyUsed_def case_prod_beta)
qed

section \<open>What a tenant can learn\<close>

text \<open>C3. No tenant learns anything of another through the gateway: take two gateways of one configuration
  that know the same tenants and the same map of hidden addresses and agree on what belongs to one of the
  tenants, and let them differ in others' messages, chat names, sessions, keys, clients, files and waiting
  history requests. A request with the tenant's key then gets the same response from both, whatever endpoint
  or tool it calls, whatever it carries, whatever fails and whatever events of the tenant arrive meanwhile,
  and the gateways still agree on what belongs to the tenant afterwards. The identifiers a run draws are
  taken to be ones no other tenant's message has.\<close>

lemma answers_confined:
  assumes S: "sv_sessions S = manager_sessions Ou Se L gmt"
    and v: "in_view V E Ou Se open_file" and g: "same_gateway V g g'"
    and key: "vw_Digest V = HashKey (BearerToken r)"
    and p: "live_principal g (vw_Digest V) = Some p" and t: "TenantID p = vw_Tenant V"
    and admin: "BearerToken r \<noteq> sv_adminToken S"
  shows "fst (Server_Handler E utl rand open_file (mcpHandler sdk E S) S r g) =
       fst (Server_Handler E utl rand open_file (mcpHandler sdk E S) S r g') \<and>
     same_gateway V (snd (Server_Handler E utl rand open_file (mcpHandler sdk E S) S r g))
       (snd (Server_Handler E utl rand open_file (mcpHandler sdk E S) S r g'))"
proof -
  have "same_run V E Ou Se open_file g g'" using v g by (simp add: same_run_def)
  from seen.tenant_request [OF S this key [symmetric], of utl rand sdk] p t admin show ?thesis
    unfolding seen.alike_def rel_prod_sel same_run_def by auto
qed

definition sample_view :: view where
  "sample_view =
     \<lparr>vw_Tenant = ''t1'', vw_IDs = range (NewID sample_env), vw_Paths = {p. in_directory ''/srv/media'' ''t1'' p},
      vw_Digest = HashKey ''tok''\<rparr>"

text \<open>A second gateway, on which the other tenant has stored nothing, is paired and waits for history.\<close>

definition sample_engine_alone :: "plain_jid engine gateway" where
  "sample_engine_alone =
     sample_engine\<lparr>gw_db := (gw_db sample_engine)\<lparr>messages := take 2 (messages sample_db)\<rparr>,
       gw_wa := (gw_wa sample_engine)\<lparr>en_manager := sample_manager\<lparr>mg_clients := \<lambda>_. Some sample_client,
         mg_pending := snd (register (historyKey ''t2'' ''c'') newPendingHistory)\<rparr>\<rparr>\<rparr>"

definition sample_file :: "string \<Rightarrow> plain_jid engine gateway \<Rightarrow> string option" where
  "sample_file p g = onDisk (en_files (gw_wa g)) p"

lemma sample_same: "same_gateway sample_view sample_engine sample_engine_alone"
proof -
  have ids: "''m3'' \<notin> range (NewID sample_env)" by (auto simp: NewID_def)
  have reg: "pending_ok (snd (register (historyKey ''t2'' ''c'') newPendingHistory))"
    using pending_ok_register [OF prod.collapse [symmetric] pending_ok_new] by blast
  have key: "historyKey ''t1'' c \<noteq> historyKey ''t2'' ''c''" for c by (simp add: historyKey_def)
  have db: "same_db sample_view (gw_db sample_engine) (gw_db sample_engine_alone)"
    using ids by (simp add: same_db_def sample_view_def sample_engine_alone_def sample_engine_def tenant_view_def
        sample_db_def live_key_def sample_message_def emptyMessage_def)
  show ?thesis
    using db reg key pending_ok_new
    by (simp add: same_gateway_def same_manager_def same_files_def same_registry_def registry_ok_def manager_of_def
        sample_engine_alone_def sample_engine_def sample_manager_def sample_view_def register_def newPendingHistory_def)
qed

lemma sample_in_view: "in_view sample_view (\<lambda>_. sample_env) sample_outside sample_settings sample_file"
  by (simp add: in_view_def fresh_ids_def own_fresh_events_def sample_view_def sample_outside_def sample_settings_def
      sample_file_def onDisk_def)

lemma answers_confined_witness:
  "fst (Server_Handler (\<lambda>_. sample_env) id None sample_file
       (mcpHandler sample_sdk (\<lambda>_. sample_env) sample_engine_server) sample_engine_server
       ((sample_request ''tok'' EmptyBody)\<lparr>r_Method := ''GET'', r_Path := ''/v1/chats''\<rparr>) sample_engine) =
   fst (Server_Handler (\<lambda>_. sample_env) id None sample_file
       (mcpHandler sample_sdk (\<lambda>_. sample_env) sample_engine_server) sample_engine_server
       ((sample_request ''tok'' EmptyBody)\<lparr>r_Method := ''GET'', r_Path := ''/v1/chats''\<rparr>) sample_engine_alone)"
proof -
  let ?r = "(sample_request ''tok'' EmptyBody)\<lparr>r_Method := ''GET'', r_Path := ''/v1/chats''\<rparr>"
  obtain p where p: "live_principal sample_engine (HashKey ''tok'') = Some p" "TenantID p = ''t1''"
    using sample_engine_live by blast
  have tok: "BearerToken ?r = ''tok''" using sample_token [of EmptyBody] by (simp add: BearerToken_def)
  have s: "sv_sessions sample_engine_server = manager_sessions sample_outside sample_settings plain_jids (\<lambda>_. MediaImage)"
    by (simp add: sample_engine_server_def)
  show ?thesis
    by (rule answers_confined [where p = p, OF s sample_in_view sample_same, THEN conjunct1])
       (use p in \<open>simp_all add: tok sample_view_def sample_engine_server_def\<close>)
qed

end
