(* ===== verification/Spec2Isabelle.thy ===== *)
theory Spec2Isabelle
  imports Prelude Sha256 Scope Key Models Sql ApiErr TenantRepo ApiKeyRepo SessionRepo ChatRepo StoreAddress
    MessageRepo MessageReads Store Migrate Middleware Resolver WaJid WaSession Pending MediaReference
    MediaPath MediaFetch History Manager ManagerInv Pairing Contacts Sessions HttpJson HttpHandlers McpTools
    Config Startup Samples AuthProps StoreProps WaProps MediaProps GatewayProps Repositories SessionRace Repair
    RepairProps McpServer Surface System Backfills Isolation Revocation SurfaceProps Lifecycle TenantView
    EngineView GatewayView
begin

text \<open>
  A verification library for \<^bold>\<open>whats-cloud-mcp\<close>, a gateway that lets several tenants use WhatsApp
  through an HTTP API and through the tools of an MCP server.

  \<^bold>\<open>The program.\<close> An administrator creates tenants and issues API keys; a key carries scopes and
  authenticates a request as one tenant. The store keeps tenants, keys, sessions, messages and the
  names of chats in SQLite. The WhatsApp engine (package \<open>wa\<close>) holds one whatsmeow client per
  paired tenant, files what the clients report, sends texts, asks the phone for older history and
  downloads attachments on demand. Two surfaces call the store and the engine in-process: the HTTP
  handlers (\<open>httpapi\<close>) and the MCP tools (\<open>mcpserver\<close>). \<open>cmd/gateway\<close> reads the configuration,
  migrates the database and wires these parts together.

  \<^bold>\<open>Theories and code\<close> (paths under \<open>src/\<close>). A Go struct is a record or datatype, a function a
  definition of the same name; a method whose name is used twice is prefixed with its receiver
  (\<open>message_Append\<close>, \<open>manager_Status\<close>).
  \<^item> \<open>Prelude\<close>: Go strings as byte strings, \<open>strings.TrimSpace\<close>, \<open>Split\<close>, \<open>Cut\<close>, \<open>Join\<close>, \<open>ToLower\<close>,
    time as a count of nanoseconds, and the fact collections of the library. \<open>Sha256\<close>: \<open>sha256.Sum256\<close>
    on 32-bit words, \<open>hex.EncodeToString\<close>.
  \<^item> \<open>Scope\<close>, \<open>Key\<close>, \<open>Middleware\<close>: \<open>internal/auth\<close>. \<open>ApiErr\<close>: \<open>internal/apierr\<close>.
  \<^item> \<open>Models\<close>, \<open>Sql\<close>, \<open>TenantRepo\<close>, \<open>ApiKeyRepo\<close>, \<open>SessionRepo\<close>, \<open>ChatRepo\<close>, \<open>StoreAddress\<close>,
    \<open>MessageRepo\<close>, \<open>Migrate\<close>: \<open>internal/store\<close>; the tables are the lists of the record \<open>db\<close>.
    \<open>MessageReads\<close> holds what its queries return, \<open>Store\<close> the schema invariant \<open>db_ok\<close>, the growth
    relation \<open>db_grows\<close>, the step relation \<open>store_step\<close> over all writing operations and the locale
    \<open>store_operation\<close>, interpreted on each of the eleven of them. \<open>Repositories\<close> holds the interfaces of
    \<open>store/repositories.go\<close> and \<open>Open\<close>, \<open>SessionRace\<close> the statements of \<open>EnsureForTenant\<close> one by one,
    \<open>Repair\<close> the migration \<open>0003_canonical_addresses.sql\<close>.
  \<^item> \<open>WaJid\<close> (\<open>wa/address.go\<close>, \<open>parseJID\<close>), \<open>WaSession\<close> (\<open>wa/session.go\<close>), \<open>Pending\<close>
    (\<open>wa/pending.go\<close>), \<open>MediaReference\<close>, \<open>MediaPath\<close>, \<open>MediaFetch\<close> (\<open>wa/media_reference.go\<close>,
    \<open>wa/media.go\<close>), \<open>History\<close> and \<open>Manager\<close> (\<open>wa/history.go\<close>, \<open>wa/manager.go\<close>, \<open>wa/groups.go\<close>),
    \<open>Pairing\<close> (\<open>wa/manager.go\<close>), \<open>Contacts\<close> (\<open>wa/contacts.go\<close>), \<open>Sessions\<close> (the interface
    \<open>SessionManager\<close> and the engine behind it); \<open>ManagerInv\<close>: what every engine operation keeps.
  \<^item> \<open>HttpJson\<close>, \<open>HttpHandlers\<close>: \<open>internal/httpapi\<close>, with \<open>Resolver\<close> its \<open>keyResolver\<close>.
    \<open>McpTools\<close>: the tools of \<open>internal/mcpserver\<close>; \<open>McpServer\<close>: their registration and the mount
    \<open>mcpHandler\<close>. \<open>Config\<close>: \<open>internal/config\<close>. \<open>Startup\<close>: \<open>run\<close> of \<open>cmd/gateway/main.go\<close> up to the
    server it starts, \<open>healthcheckPort\<close>, \<open>NewManager\<close>; \<open>Lifecycle\<close>: the whole of \<open>run\<close>, \<open>main\<close>, \<open>probeHealth\<close>.
  \<^item> \<open>Surface\<close>: what a request can do to the gateway, over both surfaces, once for every relation on
    gateways; \<open>System\<close>: the started gateway as a step relation over requests, events and background work.
    \<open>TenantView\<close>, \<open>EngineView\<close>, \<open>GatewayView\<close>: the store, the engine and the surfaces as one tenant can see them.
  \<^item> \<open>Samples\<close>: concrete data. The properties are in \<open>AuthProps\<close>, \<open>StoreProps\<close>, \<open>WaProps\<close>, \<open>MediaProps\<close>,
    \<open>GatewayProps\<close>, \<open>RepairProps\<close>, \<open>SurfaceProps\<close>, \<open>Isolation\<close>, \<open>Revocation\<close>, \<open>Backfills\<close>, and at the end of \<open>Repositories\<close>,
    \<open>GatewayView\<close>, \<open>SessionRace\<close>, \<open>System\<close> and \<open>Lifecycle\<close>.

  \<^bold>\<open>Interfaces.\<close> \<open>store_operation\<close> (a write keeps the schema and loses nothing), \<open>key_resolver\<close> (what
  the middleware needs of \<open>KeyResolver\<close>), \<open>media_rows\<close> (what the media fetcher needs of the message
  repository), \<open>session_manager\<close> (what the two surfaces need of the engine), \<open>message_log\<close> (what the
  interface of the message repository promises its writers), \<open>tenant_rows\<close> (a relation on databases that
  every write on behalf of one tenant keeps, so that all engine operations do), \<open>tenant_relation\<close> and
  \<open>handler_relation\<close> (a relation on gateways that the calls of the surfaces keep, so that every request
  does), \<open>tenant_answers\<close> (a relation on which whatever the surfaces call for a tenant answers alike, so that
  every request of the tenant does) are locales; each is interpreted on the definitions of the code that provides it.

  \<^bold>\<open>State and failure.\<close> An operation takes its state and returns it; Go's \<open>(value, error)\<close> is a sum or
  an option. Everything that comes from outside is an argument: the record \<open>env\<close> says which of an
  operation's driver calls fail, what its clock reads and which identifiers \<open>NewID\<close> gives, and an
  operation that makes several repository calls takes one \<open>env\<close> per call (a handler starts at 2,
  the resolver before it uses 0 and 1). So every error return of the code is a branch of the model,
  and a theorem without a hypothesis about the environment holds under every failure.
  A transaction is a copy of the database that the commit publishes.

  \<^bold>\<open>Concurrency.\<close> Each repository call is one SQLite statement or transaction and so atomic.
  \<open>store_step\<close> interleaves them in any order, and the theorems over its runs hold whatever other
  requests do in between. \<open>gateway_step\<close> is the started gateway: requests, events, background work, and,
  for requests that overlap, single repository calls and the two halves of \<open>SyncHistory\<close> around its
  wait, in any order. \<open>race_step\<close> interleaves the statements of callers that create one session. The
  registry of history requests is modelled at the grain of its mutex and channel operations
  (\<open>pending_step\<close>). Go's scheduler below these grains is not modelled.

  \<^bold>\<open>Parameters.\<close> whatsmeow's JID functions are the record \<open>jid_lib\<close>, with the documented behaviour
  the code relies on as \<open>jid_laws\<close> (met by the concrete \<open>plain_jids\<close>); its clients, container,
  downloader and \<open>GetMediaType\<close>, the lower-case table of \<open>unicode\<close> above ASCII, \<open>time.ParseDuration\<close>,
  the text of driver errors, \<open>crypto/rand\<close>, the SQL of a migration file, how the MCP SDK reads a call
  and renders its result (\<open>mcp_sdk\<close>), the opening of a database file and the end of the listener are
  arguments. \<open>path/filepath\<close>, \<open>url.Values.Encode\<close>, \<open>net.SplitHostPort\<close>, \<open>strconv.Atoi\<close>, the rules of \<open>encoding/json\<close> that
  the handlers depend on, \<open>http.ServeMux\<close> on the gateway's patterns, SQLite's \<open>LIKE\<close> and the time
  layout are written out, because they decide what the code does.

  \<^bold>\<open>Groups of lemmas.\<close> \<open>Scope\<close> to \<open>Middleware\<close> show what a permission check decides and that a handler
  runs only behind it. \<open>Store\<close> shows that all writes keep the schema; \<open>MessageReads\<close> that reads are
  confined to a tenant and see a person's two addresses as one conversation. \<open>Pending\<close> is the
  invariant of the registry. \<open>MediaPath\<close> and \<open>MediaFetch\<close> confine files to a tenant's directory and
  requests to admitted messages. \<open>ManagerInv\<close> and \<open>Sessions\<close> show that no engine operation writes
  keys or tenants. \<open>Repair\<close> shows what the migration makes of an address and of a row. The property
  theories combine them: \<open>GatewayProps\<close> and \<open>SurfaceProps\<close> state what a client of the gateway sees,
  \<open>Isolation\<close> that requests and events of one tenant leave the others alone, \<open>GatewayView\<close> that no answer
  to a tenant depends on what belongs to others (two runs side by side, from gateways that only have to
  agree on the tenant's part), \<open>System\<close> what holds of every
  run of the gateway, \<open>Backfills\<close> that overlapping history requests lose no wake-up and leave no lock,
  \<open>Revocation\<close> that a revoked key stays refused in every run.

  \<^bold>\<open>Termination.\<close> No definition uses fuel. Recursions follow lists; \<open>strip_spaces\<close> and
  \<open>mediaReference\<close> (nested wrappers) end by a measure. Where the code would block on a channel the
  model returns \<open>None\<close>, and \<open>events_never_block\<close> shows that this does not happen. Waiting for
  WhatsApp (a QR code, a history reply) ends with the timer, which is one of the inputs.

  \<^bold>\<open>Assumptions of the data model.\<close> Timestamps keep their order when SQLite stores them; text compared
  by \<open>LIKE\<close> is valid UTF-8. A
  nil and an empty slice are one empty list.

  \<^bold>\<open>Not modelled.\<close> Logging, contexts and the timeouts of \<open>http.Server\<close>. \<open>newClient\<close> (\<open>wa/manager.go\<close>)
  calls whatsmeow's constructor and registers \<open>handleEvent\<close>: the client is an argument, the events are
  steps. \<open>SQL\<close> and \<open>Close\<close> of \<open>DB\<close> hand out and release the driver's handle. The migrations that create
  tables are present through the constraints \<open>db_ok\<close> states. Titles and descriptions of the tools are
  prose for the client.
\<close>

end
